(* ===== verification/Prelude.thy ===== *)
theory Prelude
  imports Main "HOL-Library.State_Monad"
begin

text \<open>
  Shared ground of the development: the collections the component proofs simplify with,
  and the generic facts on lists and maps that several components need.

  The collections:
  \<^item> \<open>emits_rules\<close> holds the introduction rules of the effect calculus (theory
    \<open>World\<close>): one rule for every external call and every combinator;
  \<^item> \<open>go_string\<close> holds the characteristic equations of the Go string functions.
\<close>

named_theorems emits_rules \<open>introduction rules of the effect calculus\<close>
named_theorems go_string \<open>equations of the Go string functions\<close>

section \<open>Lists\<close>

text \<open>
  \<open>upsertBy key y xs\<close> replaces the first element of \<open>xs\<close> that has the key of \<open>y\<close>, and
  appends \<open>y\<close> when there is none: the shape of every keyed update in the program.
\<close>

fun upsertBy :: "('a \<Rightarrow> 'k) \<Rightarrow> 'a \<Rightarrow> 'a list \<Rightarrow> 'a list" where
  "upsertBy key y [] = [y]"
| "upsertBy key y (x # xs) = (if key x = key y then y # xs else x # upsertBy key y xs)"

lemma upsertBy_find:
  "List.find (\<lambda>x. key x = k) (upsertBy key y xs) =
     (if k = key y then Some y else List.find (\<lambda>x. key x = k) xs)"
  by (induction xs) auto

lemma upsertBy_keys:
  "map key (upsertBy key y xs) =
     (if key y \<in> key ` set xs then map key xs else map key xs @ [key y])"
  by (induction xs) auto

lemma upsertBy_distinct:
  "distinct (map key xs) \<Longrightarrow> distinct (map key (upsertBy key y xs))"
  by (auto simp: upsertBy_keys)

lemma upsertBy_other_keys:
  "filter (\<lambda>x. key x \<noteq> key y) (upsertBy key y xs) = filter (\<lambda>x. key x \<noteq> key y) xs"
  by (induction xs) auto

lemma upsertBy_idem [simp]: "upsertBy key y (upsertBy key y xs) = upsertBy key y xs"
  by (induction xs) auto

lemma upsertBy_map:
  "(\<And>x. key' (f x) = key x) \<Longrightarrow> map f (upsertBy key y xs) = upsertBy key' (f y) (map f xs)"
  by (induction xs) auto

lemma find_None_iff_ball: "List.find P xs = None \<longleftrightarrow> (\<forall>x\<in>set xs. \<not> P x)"
  by (auto simp: find_None_iff)

lemma find_SomeD: "List.find P xs = Some x \<Longrightarrow> x \<in> set xs \<and> P x"
  by (induction xs) (auto split: if_splits)

lemma find_Some_ex: "x \<in> set xs \<Longrightarrow> P x \<Longrightarrow> \<exists>y. List.find P xs = Some y"
  by (induction xs) auto

lemma find_cong_set: "(\<And>x. x \<in> set xs \<Longrightarrow> P x = Q x) \<Longrightarrow> List.find P xs = List.find Q xs"
  by (induction xs) auto

section \<open>Indices that satisfy a predicate\<close>

text \<open>The Go idiom \<open>for i, x := range xs { if p(x) { is = append(is, i) } }\<close>.\<close>

definition indicesWhere :: "('a \<Rightarrow> bool) \<Rightarrow> 'a list \<Rightarrow> nat list" where
  "indicesWhere p xs = filter (\<lambda>i. p (xs ! i)) [0..<length xs]"

lemma set_indicesWhere: "i \<in> set (indicesWhere p xs) \<longleftrightarrow> i < length xs \<and> p (xs ! i)"
  by (auto simp: indicesWhere_def)

lemma indicesWhere_empty: "indicesWhere p xs = [] \<longleftrightarrow> (\<forall>x\<in>set xs. \<not> p x)"
  by (auto simp: indicesWhere_def filter_empty_conv all_set_conv_all_nth)

lemma indicesWhere_sorted: "sorted (indicesWhere p xs)"
  by (simp add: indicesWhere_def sorted_wrt_filter)

lemma indicesWhere_distinct: "distinct (indicesWhere p xs)"
  by (simp add: indicesWhere_def)

lemma sorted_find_least:
  "sorted is \<Longrightarrow> List.find P is = Some (i::nat) \<Longrightarrow> j \<in> set is \<Longrightarrow> P j \<Longrightarrow> i \<le> j"
  by (induction "is") (auto split: if_splits)

end
