(* ===== verification/GoStrings.thy ===== *)
theory GoStrings
  imports Prelude
begin

text \<open>
  The functions of Go's \<open>strings\<close> package (and the \<open>%d\<close> verb of \<open>fmt\<close>) that the program
  calls. A Go string is a byte sequence, modelled by \<open>string\<close>. Case mapping and white
  space are those of the ASCII range: \<open>toLower\<close>, \<open>toUpper\<close>, \<open>equalFold\<close> and
  \<open>trimSpace\<close> leave bytes from 128 upwards alone, where Go would map the Unicode letters
  they encode. Host names, image references, digests and UUIDs are ASCII.
\<close>

section \<open>Prefixes and suffixes\<close>

definition hasPrefix :: "string \<Rightarrow> string \<Rightarrow> bool" where
  "hasPrefix s p \<longleftrightarrow> take (length p) s = p"

definition trimPrefix :: "string \<Rightarrow> string \<Rightarrow> string" where
  "trimPrefix s p = (if hasPrefix s p then drop (length p) s else s)"

definition hasSuffix :: "string \<Rightarrow> string \<Rightarrow> bool" where
  "hasSuffix s p \<longleftrightarrow> length p \<le> length s \<and> drop (length s - length p) s = p"

definition trimSuffix :: "string \<Rightarrow> string \<Rightarrow> string" where
  "trimSuffix s p = (if hasSuffix s p then take (length s - length p) s else s)"

lemma hasPrefix_append [simp, go_string]: "hasPrefix (p @ s) p"
  by (simp add: hasPrefix_def)

lemma hasPrefix_iff: "hasPrefix s p \<longleftrightarrow> (\<exists>r. s = p @ r)"
  by (metis append_take_drop_id hasPrefix_append hasPrefix_def)

lemma trimPrefix_append [simp, go_string]: "trimPrefix (p @ s) p = s"
  by (simp add: trimPrefix_def)

lemma trimPrefix_id: "\<not> hasPrefix s p \<Longrightarrow> trimPrefix s p = s"
  by (simp add: trimPrefix_def)

lemma hasSuffix_append [simp, go_string]: "hasSuffix (s @ p) p"
  by (simp add: hasSuffix_def)

lemma hasSuffix_iff: "hasSuffix s p \<longleftrightarrow> (\<exists>r. s = r @ p)"
  by (metis append_take_drop_id hasSuffix_append hasSuffix_def)

lemma trimSuffix_append [simp, go_string]: "trimSuffix (s @ p) p = s"
  by (simp add: trimSuffix_def)

lemma trimSuffix_id: "\<not> hasSuffix s p \<Longrightarrow> trimSuffix s p = s"
  by (simp add: trimSuffix_def)

section \<open>Split and Join\<close>

text \<open>\<open>strings.Split(s, sep)\<close> for a separator of one byte: never an empty list.\<close>

primrec splitOn :: "char \<Rightarrow> string \<Rightarrow> string list" where
  "splitOn c [] = [[]]"
| "splitOn c (x # xs) =
     (if x = c then [] # splitOn c xs
      else (x # hd (splitOn c xs)) # tl (splitOn c xs))"

fun joinWith :: "string \<Rightarrow> string list \<Rightarrow> string" where
  "joinWith sep [] = []"
| "joinWith sep [s] = s"
| "joinWith sep (s # t # ts) = s @ sep @ joinWith sep (t # ts)"

lemma splitOn_not_Nil [simp]: "splitOn c s \<noteq> []"
  by (cases s) auto

lemma splitOn_Cons_hd_tl: "hd (splitOn c s) # tl (splitOn c s) = splitOn c s"
  by simp

lemma joinWith_Cons: "ts \<noteq> [] \<Longrightarrow> joinWith sep (s # ts) = s @ sep @ joinWith sep ts"
  by (cases ts) auto

lemma joinWith_hd: "joinWith sep ((x # s) # ts) = x # joinWith sep (s # ts)"
  by (cases ts) auto

lemma joinWith_splitOn [simp]: "joinWith [c] (splitOn c s) = s"
  by (induction s) (simp_all add: joinWith_Cons joinWith_hd)

lemma splitOn_no_sep [simp]: "c \<notin> set s \<Longrightarrow> splitOn c s = [s]"
  by (induction s) auto

lemma splitOn_append_sep: "splitOn c (s @ c # t) = splitOn c s @ splitOn c t"
  by (induction s) auto

lemma splitOn_joinWith:
  "ss \<noteq> [] \<Longrightarrow> (\<And>s. s \<in> set ss \<Longrightarrow> c \<notin> set s) \<Longrightarrow> splitOn c (joinWith [c] ss) = ss"
proof (induction ss rule: induct_list012)
  case (3 s t ts)
  then show ?case by (simp add: splitOn_append_sep)
qed auto

lemma splitOn_no_sep_elem: "s \<in> set (splitOn c xs) \<Longrightarrow> c \<notin> set s"
proof (induction xs arbitrary: s)
  case (Cons x xs)
  then show ?case
    by (auto split: if_splits dest: list.set_sel(2) [OF splitOn_not_Nil])
qed simp

text \<open>A path ending in a segment without the separator: all segments but the last are the rest.\<close>

lemma splitOn_last_segment:
  assumes "c \<notin> set seg"
  shows "last (splitOn c (s @ c # seg)) = seg"
    and "butlast (splitOn c (s @ c # seg)) = splitOn c s"
    and "length (splitOn c (s @ c # seg)) = Suc (length (splitOn c s))"
  using assms by (simp_all add: splitOn_append_sep butlast_append)

lemma length_splitOn: "length (splitOn c s) = Suc (count_list s c)"
  by (induction s) auto

section \<open>Case and white space\<close>

definition toLowerChar :: "char \<Rightarrow> char" where
  "toLowerChar c = (let n = of_char c :: nat in if 65 \<le> n \<and> n \<le> 90 then char_of (n + 32) else c)"

definition toUpperChar :: "char \<Rightarrow> char" where
  "toUpperChar c = (let n = of_char c :: nat in if 97 \<le> n \<and> n \<le> 122 then char_of (n - 32) else c)"

definition toLower :: "string \<Rightarrow> string" where "toLower s = map toLowerChar s"
definition toUpper :: "string \<Rightarrow> string" where "toUpper s = map toUpperChar s"
definition equalFold :: "string \<Rightarrow> string \<Rightarrow> bool" where
  "equalFold s t \<longleftrightarrow> toLower s = toLower t"

lemma of_char_char_of_nat: "n < 256 \<Longrightarrow> (of_char (char_of n) :: nat) = n"
  by simp

lemma toLowerChar_idem [simp]: "toLowerChar (toLowerChar c) = toLowerChar c"
  by (simp add: toLowerChar_def Let_def of_char_char_of_nat)

lemma toLower_idem [simp]: "toLower (toLower s) = toLower s"
  by (simp add: toLower_def)

lemma toLower_toUpperChar [simp]: "toLowerChar (toUpperChar c) = toLowerChar c"
proof (cases "97 \<le> (of_char c :: nat) \<and> (of_char c :: nat) \<le> 122")
  case True
  then have "(of_char c :: nat) - 32 < 256" by linarith
  with True have "(of_char (toUpperChar c) :: nat) = of_char c - 32"
    by (simp add: toUpperChar_def)
  with True show ?thesis by (auto simp: toLowerChar_def Let_def)
next
  case False
  then show ?thesis by (auto simp: toUpperChar_def Let_def)
qed

lemma toLower_toUpper [simp]: "toLower (toUpper s) = toLower s"
  by (simp add: toLower_def toUpper_def)

lemma length_toLower [simp]: "length (toLower s) = length s"
  by (simp add: toLower_def)

lemma equalFold_refl [simp]: "equalFold s s"
  by (simp add: equalFold_def)

definition isSpace :: "char \<Rightarrow> bool" where
  "isSpace c \<longleftrightarrow> (let n = of_char c :: nat in n = 32 \<or> (9 \<le> n \<and> n \<le> 13))"

definition trimSpace :: "string \<Rightarrow> string" where
  "trimSpace s = rev (dropWhile isSpace (rev (dropWhile isSpace s)))"

lemma dropWhile_none: "(\<And>x. x \<in> set xs \<Longrightarrow> \<not> P x) \<Longrightarrow> dropWhile P xs = xs"
  by (cases xs) auto

lemma trimSpace_no_space: "(\<And>c. c \<in> set s \<Longrightarrow> \<not> isSpace c) \<Longrightarrow> trimSpace s = s"
proof -
  assume "\<And>c. c \<in> set s \<Longrightarrow> \<not> isSpace c"
  then have "dropWhile isSpace s = s" and "dropWhile isSpace (rev s) = rev s"
    by (auto intro: dropWhile_none)
  then show ?thesis by (simp add: trimSpace_def)
qed

lemma trimSpace_idem [simp]: "trimSpace (trimSpace s) = trimSpace s"
proof -
  let ?u = "dropWhile isSpace s"
  let ?v = "rev (dropWhile isSpace (rev ?u))"
  have eq: "?u = ?v @ rev (takeWhile isSpace (rev ?u))"
    by (metis rev_append rev_rev_ident takeWhile_dropWhile_id)
  have "dropWhile isSpace ?v = ?v"
  proof (cases "?v")
    case Nil
    then show ?thesis by (metis dropWhile.simps(1))
  next
    case (Cons c cs)
    with eq have "?u = c # (cs @ rev (takeWhile isSpace (rev ?u)))" by simp
    then have "\<not> isSpace c" by (metis hd_dropWhile list.distinct(1) list.sel(1))
    with Cons show ?thesis by (metis dropWhile.simps(2))
  qed
  then show ?thesis
    by (simp add: trimSpace_def dropWhile_idem)
qed

section \<open>Searching\<close>

text \<open>\<open>strings.Index\<close>: the first position of a substring; \<open>None\<close> is Go's \<open>-1\<close>.\<close>

fun index :: "string \<Rightarrow> string \<Rightarrow> nat option" where
  "index [] sub = (if sub = [] then Some 0 else None)"
| "index (c # s) sub =
     (if hasPrefix (c # s) sub then Some 0 else map_option Suc (index s sub))"

lemma index_Some_append:
  "index s sub = Some i \<Longrightarrow> i + length sub \<le> length s \<and> take (length sub) (drop i s) = sub"
proof (induction s arbitrary: i)
  case (Cons c s)
  show ?case
  proof (cases "hasPrefix (c # s) sub")
    case True
    then have "i = 0" and "\<exists>r. c # s = sub @ r" using Cons.prems by (auto simp: hasPrefix_iff)
    then show ?thesis by (metis add_0 append_eq_conv_conj drop0 le_add1 length_append)
  next
    case False
    with Cons.prems obtain j where "i = Suc j" "index s sub = Some j" by auto
    with Cons.IH show ?thesis by auto
  qed
qed (auto split: if_splits)

lemma index_char_append [simp]:
  "c \<notin> set s \<Longrightarrow> index (s @ c # t) [c] = Some (length s)"
  by (induction s) (auto simp: hasPrefix_def)

lemma sep_unique:
  fixes a b a' b' :: string
  assumes "a @ c # b = a' @ c # b'" "c \<notin> set a" "c \<notin> set a'"
  shows "a = a' \<and> b = b'"
proof -
  have "Some (length a) = index (a' @ c # b') [c]"
    using assms(2) by (simp flip: assms(1))
  then have "length a = length a'" using assms(3) by simp
  with assms(1) show ?thesis by simp
qed

lemma index_char_None: "index s [c] = None \<longleftrightarrow> c \<notin> set s"
  by (induction s) (auto simp: hasPrefix_def)

text \<open>\<open>strings.LastIndex\<close> for one byte, with Go's \<open>-1\<close>.\<close>

definition lastIndex :: "string \<Rightarrow> char \<Rightarrow> int" where
  "lastIndex s c = (case index (rev s) [c] of None \<Rightarrow> - 1 | Some i \<Rightarrow> int (length s) - 1 - int i)"

lemma lastIndex_absent [simp]: "c \<notin> set s \<Longrightarrow> lastIndex s c = - 1"
  by (simp add: lastIndex_def index_char_None [THEN iffD2])

lemma lastIndex_append [simp]: "c \<notin> set t \<Longrightarrow> lastIndex (s @ c # t) c = int (length s)"
  by (simp add: lastIndex_def)

lemma lastIndex_bounds: "- 1 \<le> lastIndex s c \<and> lastIndex s c < int (length s)"
proof (cases "c \<in> set s")
  case False
  then show ?thesis by simp
next
  case True
  then obtain a b where "s = a @ c # b" "c \<notin> set b" by (metis split_list_last)
  then show ?thesis by simp
qed

text \<open>\<open>strings.Cut\<close> around the first occurrence of one byte.\<close>

definition cut :: "string \<Rightarrow> char \<Rightarrow> string \<times> string \<times> bool" where
  "cut s c = (case index s [c] of
      None \<Rightarrow> (s, [], False)
    | Some i \<Rightarrow> (take i s, drop (Suc i) s, True))"

lemma cut_absent [simp]: "c \<notin> set s \<Longrightarrow> cut s c = (s, [], False)"
  by (simp add: cut_def index_char_None [THEN iffD2])

lemma cut_append [simp]: "c \<notin> set s \<Longrightarrow> cut (s @ c # t) c = (s, t, True)"
  by (simp add: cut_def)

section \<open>Decimal numbers\<close>

definition digitChar :: "nat \<Rightarrow> char" where "digitChar d = char_of (d + 48)"

fun itoa :: "nat \<Rightarrow> string" where
  "itoa n = (if n < 10 then [digitChar n] else itoa (n div 10) @ [digitChar (n mod 10)])"

declare itoa.simps [simp del]

definition itoaInt :: "int \<Rightarrow> string" where
  "itoaInt i = (if i < 0 then CHR ''-'' # itoa (nat (- i)) else itoa (nat i))"

lemma itoa_not_Nil [simp]: "itoa n \<noteq> []"
  by (subst itoa.simps) simp

end
