(* ===== verification/GoURL.thy ===== *)
theory GoURL
  imports GoStrings "HOL-Library.List_Lexorder" "HOL-Library.Char_ord"
begin

text \<open>
  The part of Go's \<open>net/url\<close> and \<open>path\<close> packages that the program uses: percent encoding
  of query parameters (\<open>url.Values.Encode\<close>), their parsing (\<open>Request.URL.Query\<close>,
  \<open>Values.Get\<close>) and \<open>path.Base\<close>. The main facts are the round trips
  \<open>queryUnescape_queryEscape\<close> and \<open>parseQuery_valuesEncode\<close>.
\<close>

section \<open>Percent encoding of a query component\<close>

definition hexDigit :: "nat \<Rightarrow> char" where
  "hexDigit d = (if d < 10 then char_of (48 + d) else char_of (55 + d))"

definition unhex :: "char \<Rightarrow> nat option" where
  "unhex c = (let n = of_char c :: nat in
     if 48 \<le> n \<and> n \<le> 57 then Some (n - 48)
     else if 97 \<le> n \<and> n \<le> 102 then Some (n - 87)
     else if 65 \<le> n \<and> n \<le> 70 then Some (n - 55)
     else None)"

text \<open>The unreserved characters of RFC 3986: letters, digits and \<open>- _ . ~\<close>.\<close>

definition unreserved :: "char \<Rightarrow> bool" where
  "unreserved c = (let n = of_char c :: nat in
     (97 \<le> n \<and> n \<le> 122) \<or> (65 \<le> n \<and> n \<le> 90) \<or> (48 \<le> n \<and> n \<le> 57)
     \<or> n = 45 \<or> n = 95 \<or> n = 46 \<or> n = 126)"

definition escapeChar :: "char \<Rightarrow> string" where
  "escapeChar c = (let n = of_char c :: nat in
     if unreserved c then [c]
     else if n = 32 then [CHR ''+'']
     else [CHR ''%'', hexDigit (n div 16), hexDigit (n mod 16)])"

definition queryEscape :: "string \<Rightarrow> string" where
  "queryEscape s = concat (map escapeChar s)"

text \<open>\<open>url.QueryUnescape\<close>: \<open>None\<close> is the \<open>EscapeError\<close> of a bad \<open>%\<close> sequence.\<close>

fun queryUnescape :: "string \<Rightarrow> string option" where
  "queryUnescape [] = Some []"
| "queryUnescape (c # s) =
     (if c = CHR ''%'' then
        (case s of
           a # b # t \<Rightarrow>
             (case (unhex a, unhex b) of
                (Some i, Some j) \<Rightarrow> map_option ((#) (char_of (16 * i + j))) (queryUnescape t)
              | _ \<Rightarrow> None)
         | _ \<Rightarrow> None)
      else map_option ((#) (if c = CHR ''+'' then CHR '' '' else c)) (queryUnescape s))"

lemma unhex_hexDigit [simp]: "d < 16 \<Longrightarrow> unhex (hexDigit d) = Some d"
  by (simp add: unhex_def hexDigit_def Let_def)

lemma unreserved_not_special:
  "unreserved c \<Longrightarrow> c \<noteq> CHR ''%'' \<and> c \<noteq> CHR ''+'' \<and> c \<noteq> CHR ''&'' \<and> c \<noteq> CHR ''='' \<and> c \<noteq> CHR '';''"
  by (auto simp: unreserved_def)

lemma queryUnescape_escapeChar:
  "queryUnescape (escapeChar c @ s) = map_option ((#) c) (queryUnescape s)"
proof -
  let ?n = "of_char c :: nat"
  have n: "?n div 16 < 16" by (simp add: less_mult_imp_div_less)
  consider "unreserved c" | "\<not> unreserved c" "?n = 32" | "\<not> unreserved c" "?n \<noteq> 32" by blast
  then show ?thesis
  proof cases
    case 1
    then show ?thesis using unreserved_not_special [OF 1] by (simp add: escapeChar_def)
  next
    case 2
    then have "(of_char c :: nat) = of_char (CHR '' '')" by simp
    then have "c = CHR '' ''" by (rule of_char_eqI)
    with 2 show ?thesis by (simp add: escapeChar_def)
  next
    case 3
    then show ?thesis using n by (simp add: escapeChar_def Let_def)
  qed
qed

lemma queryUnescape_queryEscape [simp]: "queryUnescape (queryEscape s) = Some s"
  by (induction s) (simp_all add: queryEscape_def queryUnescape_escapeChar)

lemma unreserved_hexDigit [simp]: "d < 16 \<Longrightarrow> unreserved (hexDigit d)"
  by (simp add: unreserved_def hexDigit_def Let_def)

lemma set_escapeChar:
  "set (escapeChar c) \<subseteq> Collect unreserved \<union> {CHR ''+'', CHR ''%''}"
proof -
  have "(of_char c :: nat) div 16 < 16" by (simp add: less_mult_imp_div_less)
  then show ?thesis by (simp add: escapeChar_def Let_def)
qed

lemma set_queryEscape:
  "set (queryEscape s) \<subseteq> Collect unreserved \<union> {CHR ''+'', CHR ''%''}"
  using set_escapeChar by (fastforce simp: queryEscape_def)

lemma queryEscape_delims [simp]:
  "CHR ''&'' \<notin> set (queryEscape s)" "CHR ''='' \<notin> set (queryEscape s)"
  "CHR '';'' \<notin> set (queryEscape s)" "CHR ''?'' \<notin> set (queryEscape s)"
  "CHR ''#'' \<notin> set (queryEscape s)"
  using set_queryEscape [of s] by (force simp: unreserved_def)+

section \<open>Query strings\<close>

text \<open>
  \<open>url.Values\<close> as the list of its key/value pairs in the order of insertion;
  \<open>Values.Get\<close> returns the first value of a key, or the empty string.
\<close>

type_synonym url_values = "(string \<times> string) list"

definition valuesGet :: "url_values \<Rightarrow> string \<Rightarrow> string" where
  "valuesGet vs k = (case map_of vs k of None \<Rightarrow> [] | Some v \<Rightarrow> v)"

definition encodePair :: "string \<times> string \<Rightarrow> string" where
  "encodePair kv = queryEscape (fst kv) @ CHR ''='' # queryEscape (snd kv)"

definition encodePairs :: "url_values \<Rightarrow> string" where
  "encodePairs vs = joinWith ''&'' (map encodePair vs)"

text \<open>\<open>Values.Set\<close> replaces the values of a key; \<open>Values.Encode\<close> sorts by key.\<close>

definition valuesSet :: "url_values \<Rightarrow> string \<Rightarrow> string \<Rightarrow> url_values" where
  "valuesSet vs k v = filter (\<lambda>kv. fst kv \<noteq> k) vs @ [(k, v)]"

definition valuesEncode :: "url_values \<Rightarrow> string" where
  "valuesEncode vs = encodePairs (sort_key fst vs)"

text \<open>
  \<open>url.ParseQuery\<close>, whose error \<open>Request.URL.Query\<close> drops: a pair that does not decode, or
  that holds a semicolon, is skipped.
\<close>

definition parsePair :: "string \<Rightarrow> (string \<times> string) option" where
  "parsePair p =
     (if CHR '';'' \<in> set p \<or> p = [] then None
      else case cut p (CHR ''='') of (k, v, _) \<Rightarrow>
        (case (queryUnescape k, queryUnescape v) of
           (Some k', Some v') \<Rightarrow> Some (k', v')
         | _ \<Rightarrow> None))"

definition parseQuery :: "string \<Rightarrow> url_values" where
  "parseQuery q = List.map_filter parsePair (splitOn (CHR ''&'') q)"

lemma parsePair_encodePair [simp]: "parsePair (encodePair kv) = Some kv"
proof (cases kv)
  case (Pair k v)
  show ?thesis
    by (simp add: Pair encodePair_def parsePair_def)
qed

lemma parseQuery_encodePairs:
  assumes "vs \<noteq> []"
  shows "parseQuery (encodePairs vs) = vs"
proof -
  have "splitOn (CHR ''&'') (joinWith [CHR ''&''] (map encodePair vs)) = map encodePair vs"
  proof (rule splitOn_joinWith)
    fix s assume "s \<in> set (map encodePair vs)"
    then obtain kv where "s = encodePair kv" by auto
    then show "CHR ''&'' \<notin> set s"
      by (simp add: encodePair_def)
  qed (use assms in simp)
  moreover have "List.map_filter parsePair (map encodePair vs) = vs"
    by (induction vs) (simp_all add: List.map_filter_simps)
  ultimately show ?thesis by (simp add: parseQuery_def encodePairs_def)
qed

lemma parseQuery_valuesEncode: "vs \<noteq> [] \<Longrightarrow> parseQuery (valuesEncode vs) = sort_key fst vs"
  by (metis length_0_conv length_sort parseQuery_encodePairs valuesEncode_def)

section \<open>path.Base\<close>

text \<open>
  \<open>path.Base\<close>: the last element of a path, without trailing slashes; \<open>.\<close> for the empty
  path and \<open>/\<close> for a path of slashes only.
\<close>

definition pathBase :: "string \<Rightarrow> string" where
  "pathBase p =
     (if p = [] then ''.''
      else let q = rev (dropWhile (\<lambda>c. c = CHR ''/'') (rev p));
               r = last (splitOn (CHR ''/'') q)
           in if r = [] then ''/'' else r)"

lemma pathBase_not_Nil [simp]: "pathBase p \<noteq> []"
  by (simp add: pathBase_def Let_def)

lemma pathBase_segment:
  "seg \<noteq> [] \<Longrightarrow> CHR ''/'' \<notin> set seg \<Longrightarrow> pathBase (p @ CHR ''/'' # seg) = seg"
proof -
  assume seg: "seg \<noteq> []" "CHR ''/'' \<notin> set seg"
  then obtain x xs where x: "rev seg = x # xs" by (cases "rev seg") auto
  then have "x \<noteq> CHR ''/''" using seg by (metis list.set_intros(1) set_rev)
  then have "dropWhile (\<lambda>c. c = CHR ''/'') (rev seg @ CHR ''/'' # rev p) = rev seg @ CHR ''/'' # rev p"
    by (simp add: x)
  with seg show ?thesis
    by (simp add: pathBase_def splitOn_last_segment)
qed

end
