(* ===== verification/Objects.thy ===== *)
theory Objects
  imports GoURL
begin

text \<open>
  The data of the program. \<open>HTTPBootConfig\<close> and \<open>IPXEBootConfig\<close> are the API types of
  \<^verbatim>\<open>api/v1alpha1\<close>. The other Kubernetes objects (\<open>Secret\<close>, \<open>Server\<close>,
  \<open>ServerBootConfiguration\<close>), the OCI descriptors and the HTTP messages belong to other
  packages: their records hold the fields the program reads or writes. A pointer is an
  \<open>option\<close>; a \<open>LocalObjectReference\<close> is the name it holds.
\<close>

section \<open>Object metadata\<close>

text \<open>A byte slice: Go tells a nil slice from an empty one.\<close>

datatype gobytes = NilBytes | Bytes string

fun bytesOf :: "gobytes \<Rightarrow> string" where
  "bytesOf NilBytes = []"
| "bytesOf (Bytes s) = s"

record gvk =
  gvkGroup :: string
  gvkVersion :: string
  gvkKind :: string

definition emptyGVK :: gvk where
  "emptyGVK = \<lparr>gvkGroup = [], gvkVersion = [], gvkKind = []\<rparr>"

record owner_reference =
  orAPIVersion :: string
  orKind :: string
  orName :: string
  orUID :: string

record object_meta =
  metaName :: string
  metaNamespace :: string
  metaUID :: string
  metaResourceVersion :: string
  metaGeneration :: int
  metaCreationTimestamp :: "int option"
  metaDeletionTimestamp :: "int option"
  metaManagedFields :: "string list"
  metaOwnerReferences :: "owner_reference list"
  metaLabels :: "string \<rightharpoonup> string"
  metaAnnotations :: "string \<rightharpoonup> string"

text \<open>The zero value of \<open>ObjectMeta\<close>, with the two fields the program's literals set.\<close>

definition newMeta :: "string \<Rightarrow> string \<Rightarrow> object_meta" where
  "newMeta ns n = \<lparr>metaName = n, metaNamespace = ns, metaUID = [], metaResourceVersion = [],
     metaGeneration = 0, metaCreationTimestamp = None, metaDeletionTimestamp = None,
     metaManagedFields = [], metaOwnerReferences = [],
     metaLabels = Map.empty, metaAnnotations = Map.empty\<rparr>"

datatype namespaced_name = NN (nnNamespace: string) (nnName: string)

definition objectKey :: "object_meta \<Rightarrow> namespaced_name" where
  "objectKey m = NN (metaNamespace m) (metaName m)"

lemma newMeta_simps [simp]:
  "metaName (newMeta ns n) = n" "metaNamespace (newMeta ns n) = ns"
  "metaOwnerReferences (newMeta ns n) = []" "metaDeletionTimestamp (newMeta ns n) = None"
  "objectKey (newMeta ns n) = NN ns n"
  by (simp_all add: newMeta_def objectKey_def)

section \<open>Conditions\<close>

datatype cond_status = ConditionTrue | ConditionFalse | ConditionUnknown

record condition =
  condType :: string
  condStatus :: cond_status
  condReason :: string
  condMessage :: string
  condObservedGeneration :: int
  condLastTransitionTime :: int

section \<open>api/v1alpha1\<close>

definition DefaultIgnitionKey :: string where "DefaultIgnitionKey = ''ignition''"
definition DefaultIPXEScriptKey :: string where "DefaultIPXEScriptKey = ''ipxe-script''"
definition SystemUUIDIndexKey :: string where "SystemUUIDIndexKey = ''spec.systemUUID''"
definition SystemIPIndexKey :: string where "SystemIPIndexKey = ''spec.systemIPs''"
definition NetworkIdentifierIndexKey :: string where
  "NetworkIdentifierIndexKey = ''spec.networkIdentifiers''"
definition DefaultFormatKey :: string where "DefaultFormatKey = ''format''"
definition FCOSFormat :: string where "FCOSFormat = ''fcos''"

record http_boot_config_spec =
  httpSystemUUID :: string
  httpIgnitionSecretRef :: "string option"
  httpNetworkIdentifiers :: "string list"
  httpUKIURL :: string

record http_boot_config_status =
  httpState :: string
  httpConditions :: "condition list"

record http_boot_config =
  httpType :: gvk
  httpMeta :: object_meta
  httpSpec :: http_boot_config_spec
  httpStatus :: http_boot_config_status

definition HTTPBootConfigStateReady :: string where "HTTPBootConfigStateReady = ''Ready''"
definition HTTPBootConfigStatePending :: string where "HTTPBootConfigStatePending = ''Pending''"
definition HTTPBootConfigStateError :: string where "HTTPBootConfigStateError = ''Error''"

record ipxe_boot_config_spec =
  ipxeSystemUUID :: string
  ipxeSystemIPs :: "string list"
  ipxeImage :: string
  ipxeKernelURL :: string
  ipxeInitrdURL :: string
  ipxeSquashfsURL :: string
  ipxeIPXEServerURL :: string
  ipxeIgnitionSecretRef :: "string option"
  ipxeIPXEScriptSecretRef :: "string option"

record ipxe_boot_config_status =
  ipxeState :: string
  ipxeConditions :: "condition list"

record ipxe_boot_config =
  ipxeType :: gvk
  ipxeMeta :: object_meta
  ipxeSpec :: ipxe_boot_config_spec
  ipxeStatus :: ipxe_boot_config_status

definition IPXEBootConfigStateReady :: string where "IPXEBootConfigStateReady = ''Ready''"
definition IPXEBootConfigStatePending :: string where "IPXEBootConfigStatePending = ''Pending''"
definition IPXEBootConfigStateError :: string where "IPXEBootConfigStateError = ''Error''"

lemmas api_constants =
  DefaultIgnitionKey_def DefaultIPXEScriptKey_def SystemUUIDIndexKey_def SystemIPIndexKey_def
  NetworkIdentifierIndexKey_def DefaultFormatKey_def FCOSFormat_def
  HTTPBootConfigStateReady_def HTTPBootConfigStatePending_def HTTPBootConfigStateError_def
  IPXEBootConfigStateReady_def IPXEBootConfigStatePending_def IPXEBootConfigStateError_def

section \<open>Objects of other APIs\<close>

text \<open>A \<open>Secret\<close>; \<open>secretOther\<close> stands for the fields the program never names.\<close>

record secret =
  secretType :: gvk
  secretMeta :: object_meta
  secretData :: "string \<rightharpoonup> gobytes"
  secretOther :: string

text \<open>Indexing a Go map: a missing key reads as the zero value, here the nil slice.\<close>

definition dataIndex :: "(string \<rightharpoonup> gobytes) \<Rightarrow> string \<Rightarrow> gobytes" where
  "dataIndex m k = (case m k of None \<Rightarrow> NilBytes | Some b \<Rightarrow> b)"

text \<open>The metal-operator's \<open>ServerBootConfiguration\<close> and \<open>Server\<close>.\<close>

datatype sbc_state = SBCStateReady | SBCStateError | SBCStateOther string

record server_boot_config =
  sbcMeta :: object_meta
  sbcServerRef :: string
  sbcImage :: string
  sbcIgnitionSecretRef :: "string option"
  sbcState :: sbc_state
  sbcConditions :: "condition list"

datatype server_state = ServerStateMaintenance | ServerStateOther string

record object_reference =
  orefNamespace :: string
  orefName :: string

record ip_addr =
  ipString :: string
  ipIsZero :: bool

record network_interface =
  nicIPs :: "ip_addr list"
  nicIP :: "ip_addr option"
  nicMACAddress :: string

record server =
  serverName :: string
  serverSystemUUID :: string
  serverBootConfigurationRef :: "object_reference option"
  serverMaintenanceBootConfigurationRef :: "object_reference option"
  serverState :: server_state
  serverNetworkInterfaces :: "network_interface list"

section \<open>client.Object\<close>

text \<open>
  The part of \<open>client.Object\<close> that generic code works with: access to the metadata of an
  object and its replacement.
\<close>

locale object_metadata =
  fixes getMeta :: "'a \<Rightarrow> object_meta"
    and setMeta :: "object_meta \<Rightarrow> 'a \<Rightarrow> 'a"
  assumes get_set: "getMeta (setMeta m x) = m"
    and set_get: "setMeta (getMeta x) x = x"
    and set_set: "setMeta m' (setMeta m x) = setMeta m' x"
begin

lemma key_set: "objectKey (getMeta (setMeta m x)) = objectKey m"
  by (simp add: get_set)

lemma set_eq_iff: "setMeta m x = setMeta m y \<Longrightarrow> getMeta x = getMeta y \<Longrightarrow> x = y"
  by (metis set_get set_set)

lemma set_same_key:
  "metaName m = metaName (getMeta x) \<Longrightarrow> metaNamespace m = metaNamespace (getMeta x) \<Longrightarrow>
     objectKey (getMeta (setMeta m x)) = objectKey (getMeta x)"
  by (simp add: get_set objectKey_def)

end

definition httpSetMeta :: "object_meta \<Rightarrow> http_boot_config \<Rightarrow> http_boot_config" where
  "httpSetMeta m x = x\<lparr>httpMeta := m\<rparr>"

definition ipxeSetMeta :: "object_meta \<Rightarrow> ipxe_boot_config \<Rightarrow> ipxe_boot_config" where
  "ipxeSetMeta m x = x\<lparr>ipxeMeta := m\<rparr>"

definition secretSetMeta :: "object_meta \<Rightarrow> secret \<Rightarrow> secret" where
  "secretSetMeta m x = x\<lparr>secretMeta := m\<rparr>"

interpretation http_object: object_metadata httpMeta httpSetMeta
  by unfold_locales (simp_all add: httpSetMeta_def)

interpretation ipxe_object: object_metadata ipxeMeta ipxeSetMeta
  by unfold_locales (simp_all add: ipxeSetMeta_def)

interpretation secret_object: object_metadata secretMeta secretSetMeta
  by unfold_locales (simp_all add: secretSetMeta_def)

section \<open>OCI descriptors and image references\<close>

record descriptor =
  descMediaType :: string
  descDigest :: string
  descSize :: int
  descAnnotations :: "string \<rightharpoonup> string"
  descPlatformArchitecture :: "string option"

definition zeroDescriptor :: descriptor where
  "zeroDescriptor = \<lparr>descMediaType = [], descDigest = [], descSize = 0,
     descAnnotations = Map.empty, descPlatformArchitecture = None\<rparr>"

type_synonym manifest = "descriptor list" \<comment> \<open>the layers of an \<open>ocispec.Manifest\<close>\<close>
type_synonym image_index = "descriptor list" \<comment> \<open>the manifests of an \<open>ocispec.Index\<close>\<close>

text \<open>What the program asks of a parsed \<open>reference.Named\<close>.\<close>

record named_ref =
  refDomain :: string
  refPath :: string
  refFamiliarName :: string
  refTag :: "string option"
  refDigest :: "string option"

section \<open>HTTP messages\<close>

type_synonym header = "(string \<times> string list) list"

record url =
  urlScheme :: string
  urlHost :: string
  urlPath :: string
  urlRawQuery :: string

text \<open>
  A body: the bytes a reader delivers, and the error it ends with instead of the end of
  the stream.
\<close>

record http_body =
  bodyContent :: string
  bodyError :: "string option"

record http_request =
  reqMethod :: string
  reqURL :: url
  reqHost :: string
  reqHeader :: header
  reqRemoteIP :: "string option" \<comment> \<open>the host of \<open>RemoteAddr\<close>, if it splits\<close>

record http_response =
  respStatus :: string
  respStatusCode :: nat
  respProto :: string
  respProtoMajor :: int
  respProtoMinor :: int
  respHeader :: header
  respBody :: http_body
  respContentLength :: int
  respTransferEncoding :: "string list"
  respClose :: bool
  respUncompressed :: bool
  respTrailer :: header
  respTLS :: "string option"
  respRequest :: http_request

record token_response =
  tokToken :: string
  tokAccessToken :: string

end
