(* ===== verification/World.thy ===== *)
theory World
  imports Objects
begin

text \<open>
  The effects of the program. Everything outside the repository that the program talks to
  (the Kubernetes API servers, the registries, the clock, the HTTP connection of a client)
  is one record \<open>env\<close> of functions on an opaque state \<open>'s\<close>: a call answers anything and
  may change that state, so other processes may act between any two calls. A program of
  the model is a state transformer on \<open>world\<close>, which adds to the environment's state the
  trace of the calls made so far, each with its answer.

  Theorems about all environments are stated with \<open>emits m R\<close>: from every world and in
  every environment, the result of \<open>m\<close> and the calls it makes satisfy \<open>R\<close>. The rules in
  \<open>emits_rules\<close> compute it along the program text.
\<close>

section \<open>Calls\<close>

datatype api_error = APINotFound string | APIError string

text \<open>\<open>apierrors.IsNotFound\<close> and \<open>client.IgnoreNotFound\<close> (whose \<open>None\<close> is nil).\<close>

fun isNotFound :: "api_error \<Rightarrow> bool" where
  "isNotFound (APINotFound _) = True"
| "isNotFound (APIError _) = False"

datatype api_client = ManagerClient | SourceClient | TargetClient

text \<open>The options of a \<open>List\<close>: an index lookup, or a namespace (the empty one is all).\<close>

datatype list_opts = MatchingFields string string | InNamespace string

text \<open>\<open>client.Object\<close> as \<^verbatim>\<open>cmdutils\<close> and \<open>SetStatusCondition\<close> use it.\<close>

datatype client_object =
    HTTPObj http_boot_config
  | IPXEObj ipxe_boot_config
  | SecretObj secret

fun objectMeta :: "client_object \<Rightarrow> object_meta" where
  "objectMeta (HTTPObj x) = httpMeta x"
| "objectMeta (IPXEObj x) = ipxeMeta x"
| "objectMeta (SecretObj x) = secretMeta x"

fun setObjectMeta :: "object_meta \<Rightarrow> client_object \<Rightarrow> client_object" where
  "setObjectMeta m (HTTPObj x) = HTTPObj (httpSetMeta m x)"
| "setObjectMeta m (IPXEObj x) = IPXEObj (ipxeSetMeta m x)"
| "setObjectMeta m (SecretObj x) = SecretObj (secretSetMeta m x)"

interpretation any_object: object_metadata objectMeta setObjectMeta
proof unfold_locales
  fix m m' and x :: client_object
  show "objectMeta (setObjectMeta m x) = m"
    by (cases x) (simp_all add: http_object.get_set ipxe_object.get_set secret_object.get_set)
  show "setObjectMeta (objectMeta x) x = x"
    by (cases x) (simp_all add: http_object.set_get ipxe_object.set_get secret_object.set_get)
  show "setObjectMeta m' (setObjectMeta m x) = setObjectMeta m' x"
    by (cases x) (simp_all add: http_object.set_set ipxe_object.set_set secret_object.set_set)
qed

datatype chunk = Text string | JSONObject "(string \<times> string) list"

datatype (plugins only: code) event =
    EGetSecret api_client namespaced_name "api_error + secret"
  | EGetServer api_client string "api_error + server"
  | EGetSBC api_client namespaced_name "api_error + server_boot_config"
  | EGetHTTP api_client namespaced_name "api_error + http_boot_config"
  | EGetIPXE api_client namespaced_name "api_error + ipxe_boot_config"
  | EListHTTP api_client list_opts "api_error + http_boot_config list"
  | EListIPXE api_client list_opts "api_error + ipxe_boot_config list"
  | EListSBC api_client list_opts "api_error + server_boot_config list"
  | EPatchHTTPStatus http_boot_config http_boot_config "api_error option"
  | EPatchIPXEStatus ipxe_boot_config ipxe_boot_config "api_error option"
  | EPatchSBCStatus server_boot_config server_boot_config "api_error option"
  | EApplyHTTP string http_boot_config "api_error option"
  | EApplyIPXE string ipxe_boot_config "api_error option"
  | ECreate api_client client_object "api_error option"
  | EDelete api_client client_object "api_error option"
  | ENow int
  | EWrite chunk "string option"
  | EParseTemplate string "string option"
  | EHTTPGet string "string + http_response"
  | EHTTPDo http_request "string + http_response"
  | ERoundTrip http_request "string + http_response"
  | ECloseBody http_body
  | EResolve string "string + (string \<times> descriptor)"
  | EFetcher string "string option"
  | EFetch string descriptor "string option"
  | EReadContent string descriptor "string + string"
  | ECloseReader string descriptor

section \<open>The environment\<close>

record 's api_reads =
  e_getSecret :: "api_client \<Rightarrow> namespaced_name \<Rightarrow> 's \<Rightarrow> (api_error + secret) \<times> 's"
  e_getServer :: "api_client \<Rightarrow> string \<Rightarrow> 's \<Rightarrow> (api_error + server) \<times> 's"
  e_getSBC :: "api_client \<Rightarrow> namespaced_name \<Rightarrow> 's \<Rightarrow> (api_error + server_boot_config) \<times> 's"
  e_getHTTP :: "api_client \<Rightarrow> namespaced_name \<Rightarrow> 's \<Rightarrow> (api_error + http_boot_config) \<times> 's"
  e_getIPXE :: "api_client \<Rightarrow> namespaced_name \<Rightarrow> 's \<Rightarrow> (api_error + ipxe_boot_config) \<times> 's"
  e_listHTTP :: "api_client \<Rightarrow> list_opts \<Rightarrow> 's \<Rightarrow> (api_error + http_boot_config list) \<times> 's"
  e_listIPXE :: "api_client \<Rightarrow> list_opts \<Rightarrow> 's \<Rightarrow> (api_error + ipxe_boot_config list) \<times> 's"
  e_listSBC :: "api_client \<Rightarrow> list_opts \<Rightarrow> 's \<Rightarrow> (api_error + server_boot_config list) \<times> 's"

record 's api = "'s api_reads" +
  e_patchHTTPStatus :: "http_boot_config \<Rightarrow> http_boot_config \<Rightarrow> 's \<Rightarrow> api_error option \<times> 's"
  e_patchIPXEStatus :: "ipxe_boot_config \<Rightarrow> ipxe_boot_config \<Rightarrow> 's \<Rightarrow> api_error option \<times> 's"
  e_patchSBCStatus :: "server_boot_config \<Rightarrow> server_boot_config \<Rightarrow> 's \<Rightarrow> api_error option \<times> 's"
  e_applyHTTP :: "string \<Rightarrow> http_boot_config \<Rightarrow> 's \<Rightarrow> api_error option \<times> 's"
  e_applyIPXE :: "string \<Rightarrow> ipxe_boot_config \<Rightarrow> 's \<Rightarrow> api_error option \<times> 's"
  e_create :: "api_client \<Rightarrow> client_object \<Rightarrow> 's \<Rightarrow> api_error option \<times> 's"
  e_delete :: "api_client \<Rightarrow> client_object \<Rightarrow> 's \<Rightarrow> api_error option \<times> 's"

record 's env = "'s api" +
  e_now :: "'s \<Rightarrow> int \<times> 's"
  e_write :: "chunk \<Rightarrow> 's \<Rightarrow> string option \<times> 's"
  e_parseTemplate :: "string \<Rightarrow> 's \<Rightarrow> string option \<times> 's"
  e_httpGet :: "string \<Rightarrow> 's \<Rightarrow> (string + http_response) \<times> 's"
  e_httpDo :: "http_request \<Rightarrow> 's \<Rightarrow> (string + http_response) \<times> 's"
  e_roundTrip :: "http_request \<Rightarrow> 's \<Rightarrow> (string + http_response) \<times> 's"
  e_closeBody :: "http_body \<Rightarrow> 's \<Rightarrow> unit \<times> 's"
  e_resolve :: "string \<Rightarrow> 's \<Rightarrow> (string + (string \<times> descriptor)) \<times> 's"
  e_fetcher :: "string \<Rightarrow> 's \<Rightarrow> string option \<times> 's"
  e_fetch :: "string \<Rightarrow> descriptor \<Rightarrow> 's \<Rightarrow> string option \<times> 's"
  e_readContent :: "string \<Rightarrow> descriptor \<Rightarrow> 's \<Rightarrow> (string + string) \<times> 's"
  e_closeReader :: "string \<Rightarrow> descriptor \<Rightarrow> 's \<Rightarrow> unit \<times> 's"

text \<open>
  The pure functions of other packages: the image reference parser of
  \<^verbatim>\<open>distribution/reference\<close>, butane, the OCI and token decoders, the URL resolver of
  \<^verbatim>\<open>net/http\<close>, and the metadata helpers of \<^verbatim>\<open>apimachinery\<close> and
  \<^verbatim>\<open>controllerutil\<close>. An error is the text of its message. \<open>l_getInto old new\<close> is what a \<open>Get\<close>
  of the stored object \<open>new\<close> leaves in an argument that was \<open>old\<close>, for the one call that does not
  pass an empty object: the client decodes the answer over the fields that are there.
\<close>

record lib =
  l_parseNormalizedNamed :: "string \<Rightarrow> string + named_ref"
  l_butaneTranslate :: "string \<Rightarrow> string + string"
  l_decodeManifest :: "string \<Rightarrow> string + manifest"
  l_decodeIndex :: "string \<Rightarrow> string + image_index"
  l_mediaTypeImageIndex :: string
  l_decodeToken :: "string \<Rightarrow> string + token_response"
  l_location :: "http_response \<Rightarrow> string + url"
  l_newRequest :: "url \<Rightarrow> string option"
  l_metalGroupVersion :: string
  l_setControllerReference :: "server_boot_config \<Rightarrow> object_meta \<Rightarrow> string + object_meta"
  l_setStatusCondition :: "int \<Rightarrow> condition list \<Rightarrow> condition \<Rightarrow> condition list"
  l_getInto :: "client_object \<Rightarrow> client_object \<Rightarrow> client_object"
  l_removeStatusCondition :: "condition list \<Rightarrow> string \<Rightarrow> condition list"

section \<open>Programs with effects\<close>

record 's world =
  ext :: 's
  trace :: "event list"

type_synonym ('s, 'z, 'a) io = "(('s, 'z) world_scheme, 'a) state"

abbreviation ret :: "'a \<Rightarrow> ('w, 'a) state" where
  "ret \<equiv> State_Monad.return"

definition ext_call :: "('s \<Rightarrow> 'r \<times> 's) \<Rightarrow> ('r \<Rightarrow> event) \<Rightarrow> ('s, 'z, 'r) io" where
  "ext_call f ev = State (\<lambda>w. case f (ext w) of
     (r, s) \<Rightarrow> (r, w\<lparr>ext := s, trace := trace w @ [ev r]\<rparr>))"

lemma run_ext_call [simp]:
  "run_state (ext_call f ev) w =
     (fst (f (ext w)), w\<lparr>ext := snd (f (ext w)), trace := trace w @ [ev (fst (f (ext w)))]\<rparr>)"
  by (simp add: ext_call_def split: prod.split)

abbreviation "getSecret E c k \<equiv> ext_call (e_getSecret E c k) (EGetSecret c k)"
abbreviation "getServer E c n \<equiv> ext_call (e_getServer E c n) (EGetServer c n)"
abbreviation "getSBC E c k \<equiv> ext_call (e_getSBC E c k) (EGetSBC c k)"
abbreviation "getHTTP E c k \<equiv> ext_call (e_getHTTP E c k) (EGetHTTP c k)"
abbreviation "getIPXE E c k \<equiv> ext_call (e_getIPXE E c k) (EGetIPXE c k)"
abbreviation "listHTTP E c q \<equiv> ext_call (e_listHTTP E c q) (EListHTTP c q)"
abbreviation "listIPXE E c q \<equiv> ext_call (e_listIPXE E c q) (EListIPXE c q)"
abbreviation "listSBC E c q \<equiv> ext_call (e_listSBC E c q) (EListSBC c q)"
abbreviation "patchHTTPStatus E b x \<equiv> ext_call (e_patchHTTPStatus E b x) (EPatchHTTPStatus b x)"
abbreviation "patchIPXEStatus E b x \<equiv> ext_call (e_patchIPXEStatus E b x) (EPatchIPXEStatus b x)"
abbreviation "patchSBCStatus E b x \<equiv> ext_call (e_patchSBCStatus E b x) (EPatchSBCStatus b x)"
abbreviation "applyHTTP E ow x \<equiv> ext_call (e_applyHTTP E ow x) (EApplyHTTP ow x)"
abbreviation "applyIPXE E ow x \<equiv> ext_call (e_applyIPXE E ow x) (EApplyIPXE ow x)"
abbreviation "createObj E c x \<equiv> ext_call (e_create E c x) (ECreate c x)"
abbreviation "deleteObj E c x \<equiv> ext_call (e_delete E c x) (EDelete c x)"
abbreviation "timeNow E \<equiv> ext_call (e_now E) ENow"
abbreviation "writeChunk E c \<equiv> ext_call (e_write E c) (EWrite c)"
abbreviation "parseTemplate E p \<equiv> ext_call (e_parseTemplate E p) (EParseTemplate p)"
abbreviation "httpGet E u \<equiv> ext_call (e_httpGet E u) (EHTTPGet u)"
abbreviation "httpDo E r \<equiv> ext_call (e_httpDo E r) (EHTTPDo r)"
abbreviation "roundTrip E r \<equiv> ext_call (e_roundTrip E r) (ERoundTrip r)"
abbreviation "closeBody E b \<equiv> ext_call (e_closeBody E b) (\<lambda>_. ECloseBody b)"
abbreviation "resolveRef E r \<equiv> ext_call (e_resolve E r) (EResolve r)"
abbreviation "newFetcher E r \<equiv> ext_call (e_fetcher E r) (EFetcher r)"
abbreviation "fetchDesc E r d \<equiv> ext_call (e_fetch E r d) (EFetch r d)"
abbreviation "closeReader E r d \<equiv> ext_call (e_closeReader E r d) (\<lambda>_. ECloseReader r d)"
abbreviation "readContent E r d \<equiv> ext_call (e_readContent E r d) (EReadContent r d)"

section \<open>The effect calculus\<close>

definition emits :: "('s, 'z, 'a) io \<Rightarrow> ('a \<Rightarrow> event list \<Rightarrow> bool) \<Rightarrow> bool" where
  "emits m R \<longleftrightarrow> (\<forall>w. \<exists>es. trace (snd (run_state m w)) = trace w @ es \<and> R (fst (run_state m w)) es)"

lemma emitsD:
  "emits m R \<Longrightarrow> run_state m w = (a, w') \<Longrightarrow> \<exists>es. trace w' = trace w @ es \<and> R a es"
  by (metis emits_def fst_conv snd_conv)

lemma emits_conseq: "emits m R \<Longrightarrow> (\<And>a es. R a es \<Longrightarrow> Q a es) \<Longrightarrow> emits m Q"
  unfolding emits_def by blast

lemma emits_conj: "emits m R \<Longrightarrow> emits m Q \<Longrightarrow> emits m (\<lambda>a es. R a es \<and> Q a es)"
  unfolding emits_def by (metis same_append_eq)

lemma emits_ret [emits_rules]: "R x [] \<Longrightarrow> emits (ret x) R"
  by (simp add: emits_def)

lemma emits_ext_call [emits_rules]: "(\<And>r. R r [ev r]) \<Longrightarrow> emits (ext_call f ev) R"
  by (simp add: emits_def)

lemma emits_bind [emits_rules]:
  assumes "emits m (\<lambda>a es. emits (f a) (\<lambda>b es'. R b (es @ es')))"
  shows "emits (State_Monad.bind m f) R"
  unfolding emits_def
proof
  fix w
  obtain a w1 where m: "run_state m w = (a, w1)" by fastforce
  obtain es where es: "trace w1 = trace w @ es" "emits (f a) (\<lambda>b es'. R b (es @ es'))"
    using emitsD [OF assms m] by blast
  obtain b w2 where f: "run_state (f a) w1 = (b, w2)" by fastforce
  obtain es' where "trace w2 = trace w1 @ es'" "R b (es @ es')"
    using emitsD [OF es(2) f] by blast
  then show "\<exists>es. trace (snd (run_state (State_Monad.bind m f) w)) = trace w @ es
      \<and> R (fst (run_state (State_Monad.bind m f) w)) es"
    using m f es(1) by auto
qed

lemma emits_if [emits_rules]:
  "(b \<Longrightarrow> emits m R) \<Longrightarrow> (\<not> b \<Longrightarrow> emits n R) \<Longrightarrow> emits (if b then m else n) R"
  by simp

lemma emits_sum [emits_rules]:
  "(\<And>e. x = Inl e \<Longrightarrow> emits (f e) R) \<Longrightarrow> (\<And>a. x = Inr a \<Longrightarrow> emits (g a) R) \<Longrightarrow>
     emits (case x of Inl e \<Rightarrow> f e | Inr a \<Rightarrow> g a) R"
  by (cases x) auto

lemma emits_option [emits_rules]:
  "(x = None \<Longrightarrow> emits m R) \<Longrightarrow> (\<And>a. x = Some a \<Longrightarrow> emits (g a) R) \<Longrightarrow>
     emits (case x of None \<Rightarrow> m | Some a \<Rightarrow> g a) R"
  by (cases x) auto

lemma emits_list [emits_rules]:
  "(x = [] \<Longrightarrow> emits m R) \<Longrightarrow> (\<And>a as. x = a # as \<Longrightarrow> emits (g a as) R) \<Longrightarrow>
     emits (case x of [] \<Rightarrow> m | a # as \<Rightarrow> g a as) R"
  by (cases x) auto

lemma emits_prod [emits_rules]:
  "(\<And>a b. x = (a, b) \<Longrightarrow> emits (g a b) R) \<Longrightarrow> emits (case x of (a, b) \<Rightarrow> g a b) R"
  by (cases x) auto

lemma emits_let [emits_rules]:
  "emits (f x) R \<Longrightarrow> emits (let y = x in f y) R"
  by simp

text \<open>Which calls a program may make at all: a predicate on every new event.\<close>

abbreviation onlyEmits :: "('s, 'z, 'a) io \<Rightarrow> (event \<Rightarrow> bool) \<Rightarrow> bool" where
  "onlyEmits m P \<equiv> emits m (\<lambda>_ es. list_all P es)"

text \<open>The calls that change a cluster.\<close>

fun isWrite :: "event \<Rightarrow> bool" where
  "isWrite (EPatchHTTPStatus _ _ _) = True"
| "isWrite (EPatchIPXEStatus _ _ _) = True"
| "isWrite (EPatchSBCStatus _ _ _) = True"
| "isWrite (EApplyHTTP _ _ _) = True"
| "isWrite (EApplyIPXE _ _ _) = True"
| "isWrite (ECreate _ _ _) = True"
| "isWrite (EDelete _ _ _) = True"
| "isWrite _ = False"

end
