(* ===== verification/Registry.thy ===== *)
theory Registry
  imports World
begin

text \<open>
  The registry allow list, \<^verbatim>\<open>internal/registry/validation.go\<close>: extraction of the
  registry domain of an image, normalisation of domains, the list check and the validator
  that the reconcilers, the boot server and the image proxy share. The interface the
  clients rely on is the locale \<open>registry_policy\<close>; \<open>policySet\<close> is the abstract
  specification of a validator, the set of the normalised domains it admits.
\<close>

section \<open>The code\<close>

definition DefaultRegistry :: string where "DefaultRegistry = ''registry-1.docker.io''"
definition DockerHubDomain :: string where "DockerHubDomain = ''docker.io''"
definition DefaultAllowedRegistry :: string where "DefaultAllowedRegistry = ''ghcr.io''"

record validator =
  AllowedRegistries :: string

definition NewValidator :: "string \<Rightarrow> validator" where
  "NewValidator allowedRegistries = \<lparr>AllowedRegistries = allowedRegistries\<rparr>"

text \<open>An error is the text of its message; \<open>%w\<close> puts the inner text at the end.\<close>

definition ExtractRegistryDomain :: "lib \<Rightarrow> string \<Rightarrow> string + string" where
  "ExtractRegistryDomain L imageRef =
     (case l_parseNormalizedNamed L imageRef of
        Inl err \<Rightarrow> Inl (''invalid image reference: '' @ err)
      | Inr named \<Rightarrow>
          (let domain = refDomain named in
           if domain = DockerHubDomain then Inr DefaultRegistry else Inr domain))"

definition normalizeDockerHubDomain :: "string \<Rightarrow> string" where
  "normalizeDockerHubDomain domain =
     (let lowerDomain = toLower domain in
      if lowerDomain = DockerHubDomain \<or> lowerDomain = ''index.docker.io''
         \<or> lowerDomain = DefaultRegistry
      then DockerHubDomain else lowerDomain)"

definition isInList :: "string \<Rightarrow> string \<Rightarrow> bool" where
  "isInList registry l =
     (if l = [] then False
      else let normalizedRegistry = normalizeDockerHubDomain registry in
        list_ex (\<lambda>item. normalizeDockerHubDomain (trimSpace item) = normalizedRegistry)
          (splitOn (CHR '','') l))"

definition IsRegistryAllowed :: "validator \<Rightarrow> string \<Rightarrow> bool" where
  "IsRegistryAllowed v registry =
     (if AllowedRegistries v \<noteq> [] then isInList registry (AllowedRegistries v)
      else normalizeDockerHubDomain registry = DefaultAllowedRegistry)"

text \<open>\<open>None\<close> is the nil error.\<close>

definition ValidateImageRegistry :: "lib \<Rightarrow> validator \<Rightarrow> string \<Rightarrow> string option" where
  "ValidateImageRegistry L v imageRef =
     (case ExtractRegistryDomain L imageRef of
        Inl err \<Rightarrow> Some err
      | Inr registry \<Rightarrow>
          if \<not> IsRegistryAllowed v registry then
            (if AllowedRegistries v \<noteq> [] then
               Some (''registry not allowed: '' @ registry @ '' (allowed registries: ''
                 @ AllowedRegistries v @ '')'')
             else Some (''registry not allowed: '' @ registry @ '' (only ''
                 @ DefaultAllowedRegistry
                 @ '' is allowed by default, use --allowed-registries to configure)''))
          else None)"

section \<open>Normalisation\<close>

lemmas registry_constants = DefaultRegistry_def DockerHubDomain_def DefaultAllowedRegistry_def

lemma toLower_constants [simp]:
  "toLower ''docker.io'' = ''docker.io''" "toLower ''ghcr.io'' = ''ghcr.io''"
  "toLower ''index.docker.io'' = ''index.docker.io''"
  "toLower ''registry-1.docker.io'' = ''registry-1.docker.io''"
  by (simp_all add: toLower_def toLowerChar_def)

lemma normalizeDockerHubDomain_toLower [simp]:
  "normalizeDockerHubDomain (toLower d) = normalizeDockerHubDomain d"
  by (simp add: normalizeDockerHubDomain_def)

lemma normalizeDockerHubDomain_idem [simp]:
  "normalizeDockerHubDomain (normalizeDockerHubDomain d) = normalizeDockerHubDomain d"
  by (simp add: normalizeDockerHubDomain_def registry_constants Let_def)

lemma normalizeDockerHubDomain_hub_iff:
  "normalizeDockerHubDomain d = DockerHubDomain \<longleftrightarrow>
     toLower d \<in> {''docker.io'', ''index.docker.io'', ''registry-1.docker.io''}"
  by (auto simp: normalizeDockerHubDomain_def registry_constants Let_def)

section \<open>The interface of a registry policy\<close>

text \<open>
  A policy decides on domains, up to a normalisation that every alias of a domain shares.
  Its clients may therefore hand it any spelling of a domain.
\<close>

locale registry_policy =
  fixes norm :: "string \<Rightarrow> string"
    and allowed :: "string \<Rightarrow> bool"
  assumes norm_norm: "norm (norm d) = norm d"
    and allowed_cong: "norm d = norm d' \<Longrightarrow> allowed d = allowed d'"
begin

lemma allowed_norm [simp]: "allowed (norm d) = allowed d"
  by (rule allowed_cong) (simp add: norm_norm)

lemma allowed_iff: "allowed d \<longleftrightarrow> norm d \<in> norm ` Collect allowed"
  by (auto dest: allowed_cong)

lemma alias_allowed: "allowed d \<Longrightarrow> norm d' = norm d \<Longrightarrow> allowed d'"
  by (simp add: allowed_cong [of d' d])

end

definition policySet :: "validator \<Rightarrow> string set" where
  "policySet v =
     (if AllowedRegistries v = [] then {DefaultAllowedRegistry}
      else (\<lambda>item. normalizeDockerHubDomain (trimSpace item)) `
        set (splitOn (CHR '','') (AllowedRegistries v)))"

lemma IsRegistryAllowed_policySet:
  "IsRegistryAllowed v d \<longleftrightarrow> normalizeDockerHubDomain d \<in> policySet v"
proof -
  have "x \<in> f ` S \<longleftrightarrow> (\<exists>y\<in>S. f y = x)" for x :: string and f and S :: "string set" by auto
  then show ?thesis
    by (simp add: IsRegistryAllowed_def isInList_def policySet_def Let_def list_ex_iff)
qed

interpretation validator: registry_policy normalizeDockerHubDomain "IsRegistryAllowed v" for v
  by unfold_locales (simp_all add: IsRegistryAllowed_policySet)

lemma ExtractRegistryDomain_Inr:
  "ExtractRegistryDomain L i = Inr d \<Longrightarrow>
     \<exists>named. l_parseNormalizedNamed L i = Inr named \<and>
       d = (if refDomain named = DockerHubDomain then DefaultRegistry else refDomain named)"
  by (auto simp: ExtractRegistryDomain_def Let_def split: sum.splits if_splits)

lemma normalize_ExtractRegistryDomain:
  "ExtractRegistryDomain L i = Inr d \<Longrightarrow> l_parseNormalizedNamed L i = Inr named \<Longrightarrow>
     normalizeDockerHubDomain d = normalizeDockerHubDomain (refDomain named)"
  by (auto simp: ExtractRegistryDomain_def normalizeDockerHubDomain_def registry_constants Let_def
      split: if_splits)

lemma ValidateImageRegistry_None:
  "ValidateImageRegistry L v i = None \<longleftrightarrow>
     (\<exists>d. ExtractRegistryDomain L i = Inr d \<and> IsRegistryAllowed v d)"
  by (auto simp: ValidateImageRegistry_def split: sum.splits if_splits)

section \<open>Properties\<close>

text \<open>C21: An image passes validation exactly when its reference parses and its registry, in lower
  case and with the aliases of Docker Hub identified, is one of the entries of the allow list
  with surrounding white space removed, or \<open>ghcr.io\<close> when the list is empty.\<close>

theorem ValidateImageRegistry_correct:
  "ValidateImageRegistry L v img = None \<longleftrightarrow>
     (\<exists>named. l_parseNormalizedNamed L img = Inr named \<and>
        normalizeDockerHubDomain (refDomain named) \<in> policySet v)"
proof -
  have "(\<exists>d. ExtractRegistryDomain L img = Inr d \<and> IsRegistryAllowed v d) \<longleftrightarrow>
    (\<exists>named. l_parseNormalizedNamed L img = Inr named \<and>
       normalizeDockerHubDomain (refDomain named) \<in> policySet v)"
    by (cases "l_parseNormalizedNamed L img")
      (auto simp: ExtractRegistryDomain_def Let_def IsRegistryAllowed_policySet
        normalizeDockerHubDomain_def registry_constants split: if_splits)
  then show ?thesis by (simp add: ValidateImageRegistry_None)
qed

text \<open>The decision on a registry does not depend on the case of its name nor on which of the
  three names of Docker Hub is used, and without a list only \<open>ghcr.io\<close> is admitted.\<close>

lemma IsRegistryAllowed_aliases:
  "IsRegistryAllowed v (toLower d) = IsRegistryAllowed v d \<and>
   IsRegistryAllowed v (toUpper d) = IsRegistryAllowed v d \<and>
   IsRegistryAllowed v ''index.docker.io'' = IsRegistryAllowed v ''docker.io'' \<and>
   IsRegistryAllowed v ''registry-1.docker.io'' = IsRegistryAllowed v ''docker.io'' \<and>
   (IsRegistryAllowed (NewValidator []) d \<longleftrightarrow> toLower d = ''ghcr.io'')"
proof (intro conjI)
  show "IsRegistryAllowed v (toLower d) = IsRegistryAllowed v d"
    by (rule validator.allowed_cong) simp
  show "IsRegistryAllowed v (toUpper d) = IsRegistryAllowed v d"
    by (rule validator.allowed_cong) (simp add: normalizeDockerHubDomain_def)
  show "IsRegistryAllowed v ''index.docker.io'' = IsRegistryAllowed v ''docker.io''"
    by (rule validator.allowed_cong) (simp add: normalizeDockerHubDomain_def registry_constants)
  show "IsRegistryAllowed v ''registry-1.docker.io'' = IsRegistryAllowed v ''docker.io''"
    by (rule validator.allowed_cong) (simp add: normalizeDockerHubDomain_def registry_constants)
  show "IsRegistryAllowed (NewValidator []) d \<longleftrightarrow> toLower d = ''ghcr.io''"
    by (auto simp: IsRegistryAllowed_def NewValidator_def normalizeDockerHubDomain_def
        registry_constants Let_def)
qed

end
