(* ===== verification/RegistryCache.thy ===== *)
theory RegistryCache
  imports Registry
begin

text \<open>
  The cache of registry information of \<^verbatim>\<open>server/imageproxyserver.go\<close>: the package
  variable \<open>registryCache\<close>, which every request reads and writes, and its expiry. Times are
  nanoseconds. The contract that its users rely on is the locale \<open>expiring_store\<close>.
\<close>

section \<open>The code\<close>

datatype auth_method = AuthNone | AuthBearer

record registry_info =
  riDomain :: string
  riAuthMethod :: auth_method
  riTokenURL :: string

record registry_cache_entry =
  ceInfo :: registry_info
  ceExpiresAt :: int

type_synonym registry_cache = "string \<rightharpoonup> registry_cache_entry"

definition registryCacheTTL :: int where "registryCacheTTL = 15 * 60 * 1000000000"

definition cacheKey :: "string \<Rightarrow> string \<Rightarrow> string" where
  "cacheKey registry repository = registry @ ''/'' @ repository"

definition emptyCache :: registry_cache where "emptyCache = Map.empty"

text \<open>The lookup: \<open>None\<close> if there is no entry or it has expired at the time \<open>now\<close>.\<close>

definition cacheLookup :: "registry_cache \<Rightarrow> int \<Rightarrow> string \<Rightarrow> registry_info option" where
  "cacheLookup c now key =
     (case c key of
        Some entry \<Rightarrow> if now < ceExpiresAt entry then Some (ceInfo entry) else None
      | None \<Rightarrow> None)"

definition cacheStore :: "registry_cache \<Rightarrow> int \<Rightarrow> string \<Rightarrow> registry_info \<Rightarrow> registry_cache" where
  "cacheStore c now key info =
     c(key \<mapsto> \<lparr>ceInfo = info, ceExpiresAt = now + registryCacheTTL\<rparr>)"

text \<open>One tick of \<open>cleanupExpiredCacheEntries\<close>.\<close>

definition cleanupExpired :: "registry_cache \<Rightarrow> int \<Rightarrow> registry_cache" where
  "cleanupExpired c now =
     (\<lambda>key. case c key of
        Some entry \<Rightarrow> if now > ceExpiresAt entry then None else Some entry
      | None \<Rightarrow> None)"

section \<open>The contract of the cache\<close>

text \<open>
  A history of the cache: the stores of a value under a key, and the cleanups (\<open>None\<close>), each
  with its time. \<open>lastStored\<close> is the last store of a key.
\<close>

type_synonym ('k, 'v) history = "(int \<times> ('k \<times> 'v) option) list"

definition lastStored :: "('k, 'v) history \<Rightarrow> 'k \<Rightarrow> (int \<times> 'v) option" where
  "lastStored ops k = (case List.find (\<lambda>op. map_option fst (snd op) = Some k) (rev ops) of
     Some (t, Some kv) \<Rightarrow> Some (t, snd kv) | _ \<Rightarrow> None)"

lemma lastStored_snoc:
  "lastStored (ops @ [(t, op)]) k =
     (case op of Some kv \<Rightarrow> if fst kv = k then Some (t, snd kv) else lastStored ops k
      | None \<Rightarrow> lastStored ops k)"
  by (auto simp: lastStored_def split: option.split)

text \<open>
  A store whose entries expire: what it answers after a store, that time only takes answers
  away, and that a cleanup is invisible from then on.
\<close>

locale expiring_store =
  fixes empty :: 'c
    and find :: "'c \<Rightarrow> int \<Rightarrow> 'k \<Rightarrow> 'v option"
    and store :: "'c \<Rightarrow> int \<Rightarrow> 'k \<Rightarrow> 'v \<Rightarrow> 'c"
    and cleanup :: "'c \<Rightarrow> int \<Rightarrow> 'c"
    and ttl :: int
  assumes find_empty: "find empty t k = None"
    and find_store: "find (store c t k v) t' k' =
      (if k' = k then (if t' < t + ttl then Some v else None) else find c t' k')"
    and find_cleanup: "t \<le> t' \<Longrightarrow> find (cleanup c t) t' k = find c t' k"
    and find_antimono: "t \<le> t' \<Longrightarrow> find c t' k = Some v \<Longrightarrow> find c t k = Some v"
begin

lemma find_run:
  assumes "\<forall>op\<in>set ops. fst op \<le> now"
  shows "find (foldl (\<lambda>c op. case snd op of Some kv \<Rightarrow> store c (fst op) (fst kv) (snd kv)
      | None \<Rightarrow> cleanup c (fst op)) empty ops) now k =
    (case lastStored ops k of
       Some (t, v) \<Rightarrow> if now < t + ttl then Some v else None
     | None \<Rightarrow> None)"
  using assms
proof (induction ops rule: rev_induct)
  case Nil
  show ?case by (simp add: lastStored_def find_empty)
next
  case (snoc op ops)
  then show ?case
    by (cases op) (auto simp: lastStored_snoc find_store find_cleanup split: option.split)
qed

end

interpretation cache: expiring_store emptyCache cacheLookup cacheStore cleanupExpired registryCacheTTL
proof unfold_locales
  fix c t t' k k' v
  show "cacheLookup emptyCache t k = None" by (simp add: cacheLookup_def emptyCache_def)
  show "cacheLookup (cacheStore c t k v) t' k' =
      (if k' = k then (if t' < t + registryCacheTTL then Some v else None) else cacheLookup c t' k')"
    by (simp add: cacheLookup_def cacheStore_def)
  show "t \<le> t' \<Longrightarrow> cacheLookup (cleanupExpired c t) t' k = cacheLookup c t' k"
    by (auto simp: cacheLookup_def cleanupExpired_def split: option.split)
  show "t \<le> t' \<Longrightarrow> cacheLookup c t' k = Some v \<Longrightarrow> cacheLookup c t k = Some v"
    by (auto simp: cacheLookup_def split: option.splits if_splits)
qed

lemma cacheLookup_Some:
  "cacheLookup c now k = Some info \<longleftrightarrow> (\<exists>e. c k = Some e \<and> ceInfo e = info \<and> now < ceExpiresAt e)"
  by (auto simp: cacheLookup_def split: option.split)

section \<open>Properties\<close>

definition cacheRun :: "(string, registry_info) history \<Rightarrow> registry_cache" where
  "cacheRun ops =
     foldl (\<lambda>c op. case snd op of Some kv \<Rightarrow> cacheStore c (fst op) (fst kv) (snd kv)
       | None \<Rightarrow> cleanupExpired c (fst op)) emptyCache ops"

text \<open>After any sequence of stores and cleanups up to now, a lookup answers exactly the value
  last stored under the key, and only if that was less than fifteen minutes ago: cleanups never
  lose a live entry, and an expired one is never served.\<close>

lemma cache_fresh:
  assumes "list_all (\<lambda>op. fst op \<le> now) ops"
  shows "cacheLookup (cacheRun ops) now k =
    (case lastStored ops k of
       Some (t, info) \<Rightarrow> if now < t + 15 * 60 * 1000000000 then Some info else None
     | None \<Rightarrow> None)"
  unfolding cacheRun_def
  by (rule cache.find_run [unfolded registryCacheTTL_def]) (use assms in \<open>simp add: list_all_iff\<close>)

lemma cache_fresh_witness:
  "cacheLookup (cacheRun [(0, Some (''ghcr.io/a'', \<lparr>riDomain = ''ghcr.io'', riAuthMethod = AuthNone,
     riTokenURL = []\<rparr>)), (300000000000, None)]) 900000000000 ''ghcr.io/a'' = None"
  by (subst cache_fresh) (simp_all add: lastStored_def)

end
