(* ===== verification/Headers.thy ===== *)
theory Headers
  imports World
begin

text \<open>
  Go's \<open>http.Header\<close>, a map from canonical keys to lists of values, as an association list
  in no particular order, with the operations the image proxy calls, and the header rules of
  \<open>httputil.ReverseProxy\<close>. The contract of copying headers is the lemma
  \<open>values_copyHeaders\<close>.
\<close>

section \<open>Keys\<close>

definition isTokenChar :: "char \<Rightarrow> bool" where
  "isTokenChar c = (let n = of_char c :: nat in
     (48 \<le> n \<and> n \<le> 57) \<or> (65 \<le> n \<and> n \<le> 90) \<or> (97 \<le> n \<and> n \<le> 122)
     \<or> c \<in> set ''!#$%&*+-.^_`|~'' \<or> n = 39)"

primrec canonicalLoop :: "bool \<Rightarrow> string \<Rightarrow> string" where
  "canonicalLoop up [] = []"
| "canonicalLoop up (c # s) =
     (if up then toUpperChar c else toLowerChar c) # canonicalLoop (c = CHR ''-'') s"

text \<open>\<open>textproto.CanonicalMIMEHeaderKey\<close>: a key that is not a token is left as it is.\<close>

definition canonicalKey :: "string \<Rightarrow> string" where
  "canonicalKey k = (if list_all isTokenChar k then canonicalLoop True k else k)"

lemma toLower_canonicalLoop: "toLower (canonicalLoop up s) = toLower s"
  by (induction s arbitrary: up) (auto simp: toLower_def)

lemma toLower_canonicalKey [simp]: "toLower (canonicalKey k) = toLower k"
  by (simp add: canonicalKey_def toLower_canonicalLoop)

section \<open>Operations\<close>

definition headerValues :: "header \<Rightarrow> string \<Rightarrow> string list" where
  "headerValues h k = (case map_of h (canonicalKey k) of Some vs \<Rightarrow> vs | None \<Rightarrow> [])"

definition headerGet :: "header \<Rightarrow> string \<Rightarrow> string" where
  "headerGet h k = (case headerValues h k of v # _ \<Rightarrow> v | [] \<Rightarrow> [])"

definition headerSet :: "header \<Rightarrow> string \<Rightarrow> string \<Rightarrow> header" where
  "headerSet h k v = upsertBy fst (canonicalKey k, [v]) h"

definition headerDel :: "header \<Rightarrow> string \<Rightarrow> header" where
  "headerDel h k = filter (\<lambda>e. fst e \<noteq> canonicalKey k) h"

definition headerAdd :: "header \<Rightarrow> string \<Rightarrow> string \<Rightarrow> header" where
  "headerAdd h k v = upsertBy fst (canonicalKey k, headerValues h k @ [v]) h"

lemma map_of_upsertBy: "map_of (upsertBy fst (k, v) h) = (map_of h)(k \<mapsto> v)"
proof
  fix x
  have find: "map_of xs x = map_option snd (List.find (\<lambda>e. fst e = x) xs)" for xs :: "('a \<times> 'b) list"
    by (induction xs) auto
  show "map_of (upsertBy fst (k, v) h) x = ((map_of h)(k \<mapsto> v)) x"
    by (simp add: find upsertBy_find)
qed

lemma map_of_headerAdd:
  "map_of (headerAdd h k v) = (map_of h)(canonicalKey k \<mapsto> headerValues h k @ [v])"
  by (simp add: headerAdd_def map_of_upsertBy)

lemma headerValues_headerSet [simp]:
  "headerValues (headerSet h k v) k' =
     (if canonicalKey k' = canonicalKey k then [v] else headerValues h k')"
  by (simp add: headerValues_def headerSet_def map_of_upsertBy)

lemma headerValues_headerAdd [simp]:
  "headerValues (headerAdd h k v) k' =
     (if canonicalKey k' = canonicalKey k then headerValues h k' @ [v] else headerValues h k')"
  by (auto simp: headerValues_def map_of_headerAdd)

lemma map_of_filter_key: "map_of (filter (\<lambda>e. P (fst e)) h) x = (if P x then map_of h x else None)"
  by (induction h) auto

lemma headerValues_headerDel [simp]:
  "headerValues (headerDel h k) k' = (if canonicalKey k' = canonicalKey k then [] else headerValues h k')"
  by (simp add: headerValues_def headerDel_def map_of_filter_key [where P = "\<lambda>x. x \<noteq> canonicalKey k"])

lemma fst_upsertBy: "fst ` set (upsertBy fst (k, v) h) = insert k (fst ` set h)"
  using dom_map_of_conv_image_fst [of "upsertBy fst (k, v) h"]
  by (simp add: map_of_upsertBy dom_map_of_conv_image_fst)

lemma keys_headerAdd: "fst ` set (headerAdd h k v) = insert (canonicalKey k) (fst ` set h)"
  by (simp add: headerAdd_def fst_upsertBy)

section \<open>Copying\<close>

definition copyHeaders :: "header \<Rightarrow> header \<Rightarrow> header" where
  "copyHeaders source destination =
     foldl (\<lambda>d e. foldl (\<lambda>d v. headerAdd d (fst e) v) d (snd e)) destination source"

definition copyHeadersExcluding :: "header \<Rightarrow> header \<Rightarrow> string list \<Rightarrow> header" where
  "copyHeadersExcluding source destination excludeHeaders =
     (let excludeMap = map toLower excludeHeaders in
      foldl (\<lambda>d e. if toLower (fst e) \<notin> set excludeMap
                   then foldl (\<lambda>d v. headerAdd d (fst e) v) d (snd e) else d)
        destination source)"

lemma copyHeadersExcluding_filter:
  "copyHeadersExcluding src dst xs =
     copyHeaders (filter (\<lambda>e. toLower (fst e) \<notin> toLower ` set xs) src) dst"
  unfolding copyHeadersExcluding_def copyHeaders_def
  by (induction src arbitrary: dst) simp_all

lemma values_addAll:
  "headerValues (foldl (\<lambda>d v. headerAdd d key v) d vs) k =
     headerValues d k @ (if canonicalKey k = canonicalKey key then vs else [])"
  by (induction vs arbitrary: d) auto

lemma values_copyHeaders:
  "headerValues (copyHeaders src dst) k =
     headerValues dst k @ concat (map snd (filter (\<lambda>e. canonicalKey (fst e) = canonicalKey k) src))"
  unfolding copyHeaders_def
  by (induction src arbitrary: dst) (auto simp: values_addAll)

lemma keys_addAll:
  "fst ` set (foldl (\<lambda>d v. headerAdd d key v) d vs) =
     fst ` set d \<union> (if vs = [] then {} else {canonicalKey key})"
  by (induction vs arbitrary: d) (auto simp: keys_headerAdd)

lemma keys_copyHeaders:
  "fst ` set (copyHeaders src dst) \<subseteq> fst ` set dst \<union> canonicalKey ` fst ` set src"
proof (induction src arbitrary: dst)
  case (Cons e src)
  then show ?case
    using Cons.IH [of "foldl (\<lambda>d v. headerAdd d (fst e) v) dst (snd e)"]
    by (auto simp: copyHeaders_def keys_addAll split: if_splits)
qed (simp add: copyHeaders_def)

text \<open>No excluded key survives, in any spelling.\<close>

lemma keys_copyHeadersExcluding:
  assumes "(k, vs) \<in> set (copyHeadersExcluding src [] xs)"
  shows "toLower k \<notin> toLower ` set xs"
proof -
  have "k \<in> fst ` set (copyHeadersExcluding src [] xs)" using assms by force
  then have "k \<in> canonicalKey ` fst ` set (filter (\<lambda>e. toLower (fst e) \<notin> toLower ` set xs) src)"
    using keys_copyHeaders [of "filter (\<lambda>e. toLower (fst e) \<notin> toLower ` set xs) src" "[]"]
    by (simp add: copyHeadersExcluding_filter subset_iff)
  then show ?thesis by auto
qed

lemma values_copyHeadersExcluding:
  assumes "toLower k \<notin> toLower ` set xs"
  shows "headerValues (copyHeadersExcluding src [] xs) k = headerValues (copyHeaders src []) k"
proof -
  have "filter (\<lambda>e. canonicalKey (fst e) = canonicalKey k) (filter (\<lambda>e. toLower (fst e) \<notin> toLower ` set xs) src)
      = filter (\<lambda>e. canonicalKey (fst e) = canonicalKey k) src"
  proof -
    have "toLower (fst e) \<notin> toLower ` set xs" if "canonicalKey (fst e) = canonicalKey k" for e :: "string \<times> string list"
      using assms that by (metis toLower_canonicalKey)
    then show ?thesis by (auto simp: filter_filter intro!: filter_cong)
  qed
  then show ?thesis by (simp add: copyHeadersExcluding_filter values_copyHeaders)
qed

section \<open>The headers of a reverse proxy\<close>

text \<open>The comma-separated tokens of the values of a key.\<close>

definition headerTokens :: "header \<Rightarrow> string \<Rightarrow> string list" where
  "headerTokens h k = concat (map (\<lambda>v. map trimSpace (splitOn (CHR '','') v)) (headerValues h k))"

definition hopHeaders :: "string list" where
  "hopHeaders = [''Connection'', ''Proxy-Connection'', ''Keep-Alive'', ''Proxy-Authenticate'',
     ''Proxy-Authorization'', ''Te'', ''Trailer'', ''Transfer-Encoding'', ''Upgrade'']"

definition removeHopByHopHeaders :: "header \<Rightarrow> header" where
  "removeHopByHopHeaders h =
     foldl headerDel h (filter (\<lambda>t. t \<noteq> []) (headerTokens h ''Connection'') @ hopHeaders)"

text \<open>What \<open>ReverseProxy\<close> does to a request between its director and the transport.\<close>

definition outgoingRequest :: "http_request \<Rightarrow> http_request \<Rightarrow> http_request" where
  "outgoingRequest req out =
     (let h = reqHeader out;
          upType = (if list_ex (equalFold ''Upgrade'') (headerTokens h ''Connection'')
                    then headerGet h ''Upgrade'' else []);
          h = removeHopByHopHeaders h;
          h = (if list_ex (equalFold ''trailers'') (headerTokens (reqHeader req) ''Te'')
               then headerSet h ''Te'' ''trailers'' else h);
          h = (if upType \<noteq> [] then headerSet (headerSet h ''Connection'' ''Upgrade'') ''Upgrade'' upType
               else h);
          h = (case reqRemoteIP out of
                 None \<Rightarrow> h
               | Some ip \<Rightarrow> headerSet h ''X-Forwarded-For''
                   (joinWith '', '' (headerValues h ''X-Forwarded-For'' @ [ip])));
          h = (if headerValues h ''User-Agent'' = [] then headerSet h ''User-Agent'' [] else h)
      in out\<lparr>reqHeader := h\<rparr>)"

lemma outgoingRequest_simps [simp]:
  "reqURL (outgoingRequest req out) = reqURL out" "reqMethod (outgoingRequest req out) = reqMethod out"
  by (simp_all add: outgoingRequest_def Let_def)

lemma values_foldl_headerDel:
  "headerValues (foldl headerDel h ks) k =
     (if canonicalKey k \<in> canonicalKey ` set ks then [] else headerValues h k)"
  by (induction ks arbitrary: h) auto

lemma values_removeHopByHop_incl:
  "headerValues (removeHopByHopHeaders h) k = headerValues h k \<or> headerValues (removeHopByHopHeaders h) k = []"
  by (simp add: removeHopByHopHeaders_def values_foldl_headerDel)

end
