(* ===== verification/BootSelect.thy ===== *)
theory BootSelect
  imports World
begin

text \<open>
  The choice among several boot configurations of one server, \<^verbatim>\<open>server/helper.go\<close>:
  \<open>resolveServer\<close> finds the \<open>Server\<close> through an owning \<open>ServerBootConfiguration\<close>,
  \<open>preferredBootConfigIndex\<close> drops orphans and prefers the maintenance configuration of a
  server in maintenance, \<open>selectBootConfig\<close> applies the choice to a list of objects.
\<close>

section \<open>The code\<close>

definition serverBootConfigurationKind :: string where
  "serverBootConfigurationKind = ''ServerBootConfiguration''"

record sbc_ref =
  sbcrNamespace :: string
  sbcrName :: string

definition sbcKey :: "sbc_ref \<Rightarrow> string" where
  "sbcKey r = sbcrNamespace r @ ''/'' @ sbcrName r"

datatype resolve_error =
    GetSBCFailed string api_error
  | GetServerFailed string string api_error
  | NoResolvableOwner nat

datatype select_error =
    NoItems
  | ResolveFailed resolve_error
  | AllOrphaned nat string
  | UnexpectedState nat string

definition ownerSBCName :: "lib \<Rightarrow> owner_reference list \<Rightarrow> string" where
  "ownerSBCName L refs =
     (case List.find (\<lambda>ref. orAPIVersion ref = l_metalGroupVersion L
             \<and> orKind ref = serverBootConfigurationKind) refs of
        Some ref \<Rightarrow> orName ref
      | None \<Rightarrow> [])"

text \<open>The loop over the owners; \<open>n\<close> is the number of owners the final message names.\<close>

primrec resolveServerLoop ::
  "'s env \<Rightarrow> nat \<Rightarrow> sbc_ref list \<Rightarrow> ('s, 'z, resolve_error + server) io" where
  "resolveServerLoop E n [] = ret (Inl (NoResolvableOwner n))"
| "resolveServerLoop E n (owner # owners) =
     (if sbcrName owner = [] then resolveServerLoop E n owners
      else do {
        r \<leftarrow> getSBC E ManagerClient (NN (sbcrNamespace owner) (sbcrName owner));
        (case r of
           Inl err \<Rightarrow>
             if isNotFound err then resolveServerLoop E n owners
             else ret (Inl (GetSBCFailed (sbcKey owner) err))
         | Inr sbc \<Rightarrow> do {
             q \<leftarrow> getServer E ManagerClient (sbcServerRef sbc);
             (case q of
                Inl err \<Rightarrow>
                  if isNotFound err then resolveServerLoop E n owners
                  else ret (Inl (GetServerFailed (sbcServerRef sbc) (sbcKey owner) err))
              | Inr server \<Rightarrow> ret (Inr server)) }) })"

definition resolveServer :: "'s env \<Rightarrow> sbc_ref list \<Rightarrow> ('s, 'z, resolve_error + server) io" where
  "resolveServer E owners = resolveServerLoop E (length owners) owners"

definition refKey :: "object_reference \<Rightarrow> string" where
  "refKey r = sbcKey \<lparr>sbcrNamespace = orefNamespace r, sbcrName = orefName r\<rparr>"

definition recognized :: "server \<Rightarrow> string list" where
  "recognized server =
     (case serverBootConfigurationRef server of Some r \<Rightarrow> [refKey r] | None \<Rightarrow> []) @
     (case serverMaintenanceBootConfigurationRef server of Some r \<Rightarrow> [refKey r] | None \<Rightarrow> [])"

text \<open>The choice once the server is known: the rest of \<open>preferredBootConfigIndex\<close>.\<close>

definition chooseIndex :: "server \<Rightarrow> sbc_ref list \<Rightarrow> select_error + nat" where
  "chooseIndex server owners =
     (let validIndices = indicesWhere
            (\<lambda>owner. sbcrName owner \<noteq> [] \<and> sbcKey owner \<in> set (recognized server)) owners
      in if validIndices = [] then Inl (AllOrphaned (length owners) (serverName server))
         else if length validIndices = 1 then Inr (validIndices ! 0)
         else
           (case (if serverState server = ServerStateMaintenance then
                    (case serverMaintenanceBootConfigurationRef server of
                       Some r \<Rightarrow> List.find (\<lambda>i. sbcKey (owners ! i) = refKey r) validIndices
                     | None \<Rightarrow> None)
                  else None) of
              Some i \<Rightarrow> Inr i
            | None \<Rightarrow>
                (case (case serverBootConfigurationRef server of
                         Some r \<Rightarrow> List.find (\<lambda>i. sbcKey (owners ! i) = refKey r) validIndices
                       | None \<Rightarrow> None) of
                   Some i \<Rightarrow> Inr i
                 | None \<Rightarrow> Inl (UnexpectedState (length validIndices) (serverName server)))))"

definition preferredBootConfigIndex ::
  "'s env \<Rightarrow> sbc_ref list \<Rightarrow> ('s, 'z, select_error + nat) io" where
  "preferredBootConfigIndex E owners = do {
     r \<leftarrow> resolveServer E owners;
     ret (case r of
        Inl err \<Rightarrow> Inl (ResolveFailed err)
      | Inr server \<Rightarrow> chooseIndex server owners) }"

definition ownerOf :: "lib \<Rightarrow> object_meta \<Rightarrow> sbc_ref" where
  "ownerOf L m = \<lparr>sbcrNamespace = metaNamespace m,
     sbcrName = ownerSBCName L (metaOwnerReferences m)\<rparr>"

definition selectBootConfig ::
  "lib \<Rightarrow> 's env \<Rightarrow> ('a \<Rightarrow> object_meta) \<Rightarrow> 'a list \<Rightarrow> ('s, 'z, select_error + 'a) io" where
  "selectBootConfig L E getMeta items =
     (if items = [] then ret (Inl NoItems)
      else if length items = 1 then ret (Inr (items ! 0))
      else do {
        idx \<leftarrow> preferredBootConfigIndex E (map (\<lambda>x. ownerOf L (getMeta x)) items);
        ret (case idx of Inl err \<Rightarrow> Inl err | Inr i \<Rightarrow> Inr (items ! i)) })"

section \<open>The choice\<close>

definition validOwner :: "server \<Rightarrow> sbc_ref \<Rightarrow> bool" where
  "validOwner server owner \<longleftrightarrow> sbcrName owner \<noteq> [] \<and> sbcKey owner \<in> set (recognized server)"

abbreviation validSet :: "server \<Rightarrow> sbc_ref list \<Rightarrow> nat set" where
  "validSet server owners \<equiv> {i. i < length owners \<and> validOwner server (owners ! i)}"

text \<open>The candidates owned by the maintenance, and by the workload, boot configuration.\<close>

definition maintenanceSet :: "server \<Rightarrow> sbc_ref list \<Rightarrow> nat set" where
  "maintenanceSet server owners =
     (if serverState server = ServerStateMaintenance then
        {i \<in> validSet server owners. \<exists>r. serverMaintenanceBootConfigurationRef server = Some r
           \<and> sbcKey (owners ! i) = refKey r}
      else {})"

definition workloadSet :: "server \<Rightarrow> sbc_ref list \<Rightarrow> nat set" where
  "workloadSet server owners =
     {i \<in> validSet server owners. \<exists>r. serverBootConfigurationRef server = Some r
        \<and> sbcKey (owners ! i) = refKey r}"

text \<open>
  The abstract specification: a sole candidate wins; otherwise the first candidate of the
  maintenance configuration if the server is in maintenance and there is one; otherwise the
  first candidate of the workload configuration.
\<close>

definition preferred :: "server \<Rightarrow> sbc_ref list \<Rightarrow> nat \<Rightarrow> bool" where
  "preferred server owners i \<longleftrightarrow>
     (let V = validSet server owners; M = maintenanceSet server owners;
          W = workloadSet server owners
      in V = {i} \<or>
         (V \<noteq> {i} \<and> i \<in> V \<and> (if M \<noteq> {} then i \<in> M \<and> (\<forall>j\<in>M. i \<le> j)
                             else i \<in> W \<and> (\<forall>j\<in>W. i \<le> j))))"

lemma set_validIndices:
  "set (indicesWhere (\<lambda>owner. sbcrName owner \<noteq> [] \<and> sbcKey owner \<in> set (recognized server)) owners)
     = validSet server owners"
  by (auto simp: set_indicesWhere validOwner_def)

lemma find_indices_Some:
  "sorted is \<Longrightarrow> List.find P is = Some (i::nat) \<longleftrightarrow> i \<in> set is \<and> P i \<and> (\<forall>j\<in>set is. P j \<longrightarrow> i \<le> j)"
  by (induction "is") (auto simp: le_antisym)


lemma chooseIndex_cases:
  obtains vs where "sorted vs" "distinct vs" "set vs = validSet server owners"
    "chooseIndex server owners =
      (if vs = [] then Inl (AllOrphaned (length owners) (serverName server))
       else if length vs = 1 then Inr (vs ! 0)
       else case List.find (\<lambda>i. i \<in> maintenanceSet server owners) vs of
         Some i \<Rightarrow> Inr i
       | None \<Rightarrow>
           (case List.find (\<lambda>i. i \<in> workloadSet server owners) vs of
              Some i \<Rightarrow> Inr i
            | None \<Rightarrow> Inl (UnexpectedState (length vs) (serverName server))))"
proof -
  let ?vs = "indicesWhere (\<lambda>owner. sbcrName owner \<noteq> [] \<and> sbcKey owner \<in> set (recognized server)) owners"
  have set: "set ?vs = validSet server owners" by (rule set_validIndices)
  have none: "List.find (\<lambda>i. False) ?vs = None" by (simp add: find_None_iff)
  have M: "(if serverState server = ServerStateMaintenance then
            (case serverMaintenanceBootConfigurationRef server of
               Some r \<Rightarrow> List.find (\<lambda>i. sbcKey (owners ! i) = refKey r) ?vs | None \<Rightarrow> None)
          else None) = List.find (\<lambda>i. i \<in> maintenanceSet server owners) ?vs"
    using none
    by (auto simp: maintenanceSet_def set [symmetric] split: option.split intro: find_cong_set)
  have W: "(case serverBootConfigurationRef server of
            Some r \<Rightarrow> List.find (\<lambda>i. sbcKey (owners ! i) = refKey r) ?vs | None \<Rightarrow> None)
          = List.find (\<lambda>i. i \<in> workloadSet server owners) ?vs"
    using none
    by (auto simp: workloadSet_def set [symmetric] split: option.split intro: find_cong_set)
  show thesis
    by (rule that [OF indicesWhere_sorted indicesWhere_distinct set])
       (simp only: chooseIndex_def Let_def M W)
qed

lemma maintenanceSet_valid: "maintenanceSet server owners \<subseteq> validSet server owners"
  and workloadSet_valid: "workloadSet server owners \<subseteq> validSet server owners"
  by (auto simp: maintenanceSet_def workloadSet_def)

lemma chooseIndex_iff:
  "chooseIndex server owners = Inr i \<longleftrightarrow> preferred server owners i"
proof (cases server owners rule: chooseIndex_cases)
  case (1 vs)
  have one: "(length vs = 1 \<and> vs ! 0 = i) \<longleftrightarrow> validSet server owners = {i}"
  proof
    assume "validSet server owners = {i}"
    then have "set vs = {i}" using 1 by simp
    then have "length vs = 1" using distinct_card [OF 1(2)] by simp
    then show "length vs = 1 \<and> vs ! 0 = i" using \<open>set vs = {i}\<close> by (metis nth_mem singletonD less_one)
  next
    assume "length vs = 1 \<and> vs ! 0 = i"
    then have "vs = [i]" by (cases vs) auto
    then show "validSet server owners = {i}" using 1 by auto
  qed
  have M: "List.find (\<lambda>i. i \<in> maintenanceSet server owners) vs = Some j \<longleftrightarrow>
      j \<in> maintenanceSet server owners \<and> (\<forall>k\<in>maintenanceSet server owners. j \<le> k)" for j
    using maintenanceSet_valid [of server owners] 1 by (auto simp: find_indices_Some)
  have M0: "List.find (\<lambda>i. i \<in> maintenanceSet server owners) vs = None \<longleftrightarrow>
      maintenanceSet server owners = {}"
    using maintenanceSet_valid [of server owners] 1(3) by (auto simp: find_None_iff)
  have W: "List.find (\<lambda>i. i \<in> workloadSet server owners) vs = Some j \<longleftrightarrow>
      j \<in> workloadSet server owners \<and> (\<forall>k\<in>workloadSet server owners. j \<le> k)" for j
    using workloadSet_valid [of server owners] 1 by (auto simp: find_indices_Some)
  show ?thesis
  proof (cases "length vs = 1")
    case True
    then obtain j where "vs = [j]" by (cases vs) auto
    then show ?thesis using 1 by (auto simp: preferred_def Let_def)
  next
    case False
    then have pref: "preferred server owners i \<longleftrightarrow>
        (if maintenanceSet server owners \<noteq> {}
         then List.find (\<lambda>i. i \<in> maintenanceSet server owners) vs = Some i
         else List.find (\<lambda>i. i \<in> workloadSet server owners) vs = Some i)"
      using one maintenanceSet_valid [of server owners] workloadSet_valid [of server owners]
      unfolding preferred_def Let_def M W by auto
    show ?thesis
    proof (cases "vs = []")
      case True
      then show ?thesis using 1(4) pref M0 by simp
    next
      case False
      then have "chooseIndex server owners = Inr i \<longleftrightarrow>
          (case List.find (\<lambda>i. i \<in> maintenanceSet server owners) vs of
             Some j \<Rightarrow> j = i
           | None \<Rightarrow> List.find (\<lambda>i. i \<in> workloadSet server owners) vs = Some i)"
        using 1(4) \<open>length vs \<noteq> 1\<close> by (simp split: option.split)
      then show ?thesis
        unfolding pref using M0
        by (cases "List.find (\<lambda>i. i \<in> maintenanceSet server owners) vs") auto
    qed
  qed
qed


lemma card_validSet:
  "distinct vs \<Longrightarrow> set vs = validSet server owners \<Longrightarrow> length vs = card (validSet server owners)"
  using distinct_card by fastforce

lemma chooseIndex_valid: "chooseIndex server owners = Inr i \<Longrightarrow> i < length owners"
  by (auto simp: chooseIndex_iff preferred_def Let_def)

lemma chooseIndex_errors:
  "chooseIndex server owners \<noteq> Inl NoItems" "chooseIndex server owners \<noteq> Inl (ResolveFailed e)"
  by (cases server owners rule: chooseIndex_cases, simp split: option.split)+

lemma chooseIndex_orphaned:
  "chooseIndex server owners = Inl (AllOrphaned n s) \<longleftrightarrow>
     n = length owners \<and> s = serverName server \<and> validSet server owners = {}"
proof (cases server owners rule: chooseIndex_cases)
  case (1 vs)
  have "vs = [] \<longleftrightarrow> validSet server owners = {}" unfolding 1(3) [symmetric] by simp
  then show ?thesis using 1(4) by (auto split: option.split)
qed

text \<open>
  Why there is no choice: no candidate is recognized by the server, or several are and none
  belongs to the configuration the server is to boot from.
\<close>

definition choiceFailed :: "server \<Rightarrow> sbc_ref list \<Rightarrow> select_error \<Rightarrow> bool" where
  "choiceFailed server owners e \<longleftrightarrow>
     (\<forall>i. \<not> preferred server owners i) \<and>
     e = (if validSet server owners = {} then AllOrphaned (length owners) (serverName server)
          else UnexpectedState (card (validSet server owners)) (serverName server))"

lemma chooseIndex_failed:
  "chooseIndex server owners = Inl e \<longleftrightarrow> choiceFailed server owners e"
proof (cases server owners rule: chooseIndex_cases)
  case (1 vs)
  have "length vs = card (validSet server owners)" using 1 by (intro card_validSet)
  moreover have "vs = [] \<longleftrightarrow> validSet server owners = {}" unfolding 1(3) [symmetric] by simp
  moreover have "chooseIndex server owners = Inl e \<Longrightarrow>
      e = (if vs = [] then AllOrphaned (length owners) (serverName server)
           else UnexpectedState (length vs) (serverName server))" for e
    using 1(4) by (auto split: if_splits option.splits)
  ultimately show ?thesis
    unfolding choiceFailed_def chooseIndex_iff [symmetric]
    by (cases "chooseIndex server owners") auto
qed

text \<open>The final error of \<open>preferredBootConfigIndex\<close>, which a comment there calls
  unreachable, is returned exactly when several candidates are recognized, the server is not in
  maintenance or none belongs to its maintenance configuration, and none belongs to its workload
  configuration.\<close>

theorem chooseIndex_unexpected:
  "(\<exists>n s. chooseIndex server owners = Inl (UnexpectedState n s)) \<longleftrightarrow>
     2 \<le> card (validSet server owners) \<and> maintenanceSet server owners = {} \<and>
     workloadSet server owners = {}"
proof (cases server owners rule: chooseIndex_cases)
  case (1 vs)
  have len: "length vs = card (validSet server owners)" using 1 by (intro card_validSet)
  have "List.find (\<lambda>i. i \<in> maintenanceSet server owners) vs = None \<longleftrightarrow> maintenanceSet server owners = {}"
    "List.find (\<lambda>i. i \<in> workloadSet server owners) vs = None \<longleftrightarrow> workloadSet server owners = {}"
    using maintenanceSet_valid [of server owners] workloadSet_valid [of server owners] 1(3)
    by (auto simp: find_None_iff)
  moreover have "(\<exists>n s. chooseIndex server owners = Inl (UnexpectedState n s)) \<longleftrightarrow>
      vs \<noteq> [] \<and> length vs \<noteq> 1 \<and> List.find (\<lambda>i. i \<in> maintenanceSet server owners) vs = None
      \<and> List.find (\<lambda>i. i \<in> workloadSet server owners) vs = None"
    unfolding 1(4) by (simp split: option.split)
  moreover have "vs \<noteq> [] \<and> length vs \<noteq> 1 \<longleftrightarrow> 2 \<le> length vs"
    by (cases vs; cases "tl vs") auto
  ultimately show ?thesis unfolding len by metis
qed

text \<open>A namespace holds no slash, so a key names one \<open>ServerBootConfiguration\<close> only.\<close>

lemma sbcKey_inj:
  assumes "CHR ''/'' \<notin> set (sbcrNamespace a)" "CHR ''/'' \<notin> set (sbcrNamespace b)"
  shows "sbcKey a = sbcKey b \<longleftrightarrow> a = b"
proof
  assume "sbcKey a = sbcKey b"
  then have "sbcrNamespace a = sbcrNamespace b \<and> sbcrName a = sbcrName b"
    using assms sep_unique [of "sbcrNamespace a" "CHR ''/''" "sbcrName a"]
    by (simp add: sbcKey_def)
  then show "a = b" by simp
qed simp

section \<open>The lookups\<close>

text \<open>
  The complete behaviour of the resolution: which calls it makes for which owners, in order,
  and how their answers give the result. An owner without a name costs no call; one whose
  configuration or server does not exist (any more) is passed over; any other error ends the
  search and names that owner; the first server found is the result.
\<close>

abbreviation sbcRead :: "sbc_ref \<Rightarrow> api_error + server_boot_config \<Rightarrow> event" where
  "sbcRead owner \<equiv> EGetSBC ManagerClient (NN (sbcrNamespace owner) (sbcrName owner))"

inductive resolves ::
  "nat \<Rightarrow> sbc_ref list \<Rightarrow> event list \<Rightarrow> resolve_error + server \<Rightarrow> bool"
  for n where
  exhausted:
    "resolves n [] [] (Inl (NoResolvableOwner n))"
| no_name:
    "sbcrName owner = [] \<Longrightarrow> resolves n owners es r \<Longrightarrow> resolves n (owner # owners) es r"
| sbc_gone:
    "sbcrName owner \<noteq> [] \<Longrightarrow> isNotFound err \<Longrightarrow> resolves n owners es r \<Longrightarrow>
       resolves n (owner # owners) (sbcRead owner (Inl err) # es) r"
| sbc_failed:
    "sbcrName owner \<noteq> [] \<Longrightarrow> \<not> isNotFound err \<Longrightarrow>
       resolves n (owner # owners) [sbcRead owner (Inl err)] (Inl (GetSBCFailed (sbcKey owner) err))"
| server_gone:
    "sbcrName owner \<noteq> [] \<Longrightarrow> isNotFound err \<Longrightarrow> resolves n owners es r \<Longrightarrow>
       resolves n (owner # owners)
         (sbcRead owner (Inr sbc) # EGetServer ManagerClient (sbcServerRef sbc) (Inl err) # es) r"
| server_failed:
    "sbcrName owner \<noteq> [] \<Longrightarrow> \<not> isNotFound err \<Longrightarrow>
       resolves n (owner # owners)
         [sbcRead owner (Inr sbc), EGetServer ManagerClient (sbcServerRef sbc) (Inl err)]
         (Inl (GetServerFailed (sbcServerRef sbc) (sbcKey owner) err))"
| resolved:
    "sbcrName owner \<noteq> [] \<Longrightarrow>
       resolves n (owner # owners)
         [sbcRead owner (Inr sbc), EGetServer ManagerClient (sbcServerRef sbc) (Inr server)]
         (Inr server)"

inductive_cases resolves_NilE: "resolves n [] es r"
inductive_cases resolves_ConsE: "resolves n (owner # owners) es r"

fun isOwnerLookup :: "event \<Rightarrow> bool" where
  "isOwnerLookup (EGetSBC c _ _) = (c = ManagerClient)"
| "isOwnerLookup (EGetServer c _ _) = (c = ManagerClient)"
| "isOwnerLookup _ = False"

lemma resolves_lookups: "resolves n owners es r \<Longrightarrow> list_all isOwnerLookup es"
  by (induction rule: resolves.induct) simp_all

text \<open>The calls with their answers determine the result.\<close>

lemma resolves_unique: "resolves n owners es r \<Longrightarrow> resolves n owners es r' \<Longrightarrow> r' = r"
proof (induction arbitrary: r' rule: resolves.induct)
  case (no_name owner owners es r)
  from no_name(1,4) have "resolves n owners es r'" by (auto elim: resolves_ConsE)
  then show ?case by (rule no_name(3))
next
  case (sbc_gone owner err owners es r)
  from sbc_gone(1,2,5) have "resolves n owners es r'" by (auto elim: resolves_ConsE)
  then show ?case by (rule sbc_gone(4))
next
  case (server_gone owner err owners es r sbc)
  from server_gone(1,2,5) have "resolves n owners es r'" by (auto elim: resolves_ConsE)
  then show ?case by (rule server_gone(4))
qed (auto elim: resolves_NilE resolves_ConsE)

lemma emits_resolveServerLoop:
  "emits (resolveServerLoop E n owners :: ('s, 'z, _) io) (\<lambda>r es. resolves n owners es r)"
proof (induction owners)
  case Nil
  show ?case by (auto intro!: emits_rules resolves.exhausted)
next
  case (Cons owner owners)
  show ?case
    unfolding resolveServerLoop.simps
    by (intro emits_rules emits_conseq [OF Cons.IH]) (simp_all add: resolves.intros)
qed

lemma emits_preferredBootConfigIndex:
  "emits (preferredBootConfigIndex E owners) (\<lambda>r es.
     (case r of
        Inr i \<Rightarrow> \<exists>server. resolves (length owners) owners es (Inr server) \<and> preferred server owners i
      | Inl e \<Rightarrow> (\<exists>re. e = ResolveFailed re \<and> resolves (length owners) owners es (Inl re)) \<or>
          (\<exists>server. resolves (length owners) owners es (Inr server) \<and> choiceFailed server owners e)))"
  unfolding preferredBootConfigIndex_def resolveServer_def
  by (intro emits_rules emits_conseq [OF emits_resolveServerLoop])
    (auto simp: chooseIndex_iff [symmetric] chooseIndex_failed [symmetric] split: sum.splits)

lemma preferred_valid: "preferred server owners i \<Longrightarrow> i < length owners \<and> validOwner server (owners ! i)"
  by (auto simp: preferred_def Let_def)

text \<open>
  The complete behaviour of \<open>selectBootConfig\<close>: the lookups it makes and its result, error
  or item, for every list of items.
\<close>

abbreviation ownersOf :: "lib \<Rightarrow> ('a \<Rightarrow> object_meta) \<Rightarrow> 'a list \<Rightarrow> sbc_ref list" where
  "ownersOf L getMeta items \<equiv> map (\<lambda>x. ownerOf L (getMeta x)) items"

inductive selects ::
  "lib \<Rightarrow> ('a \<Rightarrow> object_meta) \<Rightarrow> 'a list \<Rightarrow> event list \<Rightarrow> select_error + 'a \<Rightarrow> bool"
  for L getMeta where
  no_items:
    "selects L getMeta [] [] (Inl NoItems)"
| only_item:
    "selects L getMeta [x] [] (Inr x)"
| unresolved:
    "2 \<le> length items \<Longrightarrow> resolves (length items) (ownersOf L getMeta items) es (Inl e) \<Longrightarrow>
       selects L getMeta items es (Inl (ResolveFailed e))"
| no_choice:
    "2 \<le> length items \<Longrightarrow> resolves (length items) (ownersOf L getMeta items) es (Inr server) \<Longrightarrow>
       choiceFailed server (ownersOf L getMeta items) e \<Longrightarrow>
       selects L getMeta items es (Inl e)"
| chosen:
    "2 \<le> length items \<Longrightarrow> resolves (length items) (ownersOf L getMeta items) es (Inr server) \<Longrightarrow>
       preferred server (ownersOf L getMeta items) i \<Longrightarrow>
       selects L getMeta items es (Inr (items ! i))"

abbreviation selected ::
  "lib \<Rightarrow> ('a \<Rightarrow> object_meta) \<Rightarrow> 'a list \<Rightarrow> event list \<Rightarrow> 'a \<Rightarrow> bool" where
  "selected L getMeta items es x \<equiv> selects L getMeta items es (Inr x)"

lemma selects_lookups: "selects L getMeta items es r \<Longrightarrow> list_all isOwnerLookup es"
  by (induction rule: selects.induct) (auto dest: resolves_lookups)

lemma selected_in_items: "selected L getMeta items es x \<Longrightarrow> x \<in> set items"
  by (auto elim!: selects.cases dest!: preferred_valid)

lemma selects_single: "selects L getMeta [x] es r \<Longrightarrow> r = Inr x \<and> es = []"
  by (auto elim: selects.cases)

lemma emits_selectBootConfig:
  "emits (selectBootConfig L E getMeta items) (\<lambda>r es. selects L getMeta items es r)"
proof -
  have two: "2 \<le> length items" if "items \<noteq> []" "length items \<noteq> 1"
    using that by (cases items; cases "tl items") auto
  have one: "items = [items ! 0]" if "length items = 1" using that by (cases items) auto
  show ?thesis
    unfolding selectBootConfig_def
    by (intro emits_rules emits_conseq [OF emits_preferredBootConfigIndex])
      (auto simp: two intro: selects.intros selects.only_item [of L getMeta "items ! 0"] subst [OF one [symmetric]]
        split: sum.splits)
qed

lemma emits_select:
  assumes "\<And>x es. list_all isOwnerLookup es \<Longrightarrow> selected L getMeta items es x \<Longrightarrow> R (Inr x) es"
    and "\<And>e es. list_all isOwnerLookup es \<Longrightarrow> selects L getMeta items es (Inl e) \<Longrightarrow> R (Inl e) es"
  shows "emits (selectBootConfig L E getMeta items) R"
proof (rule emits_conseq [OF emits_selectBootConfig])
  fix r es
  assume "selects L getMeta items es r"
  then show "R r es"
    using assms selects_lookups [of L getMeta items es r] by (cases r) auto
qed

section \<open>Properties\<close>

text \<open>C1: The index \<open>preferredBootConfigIndex\<close> picks once the server is known is exactly the
  one the specification prefers: the sole recognized candidate, else the first one of the
  maintenance configuration of a server in maintenance, else the first one of the workload
  configuration.\<close>

theorem chooseIndex_preferred:
  "chooseIndex server owners = Inr i \<longleftrightarrow> preferred server owners i"
  by (rule chooseIndex_iff)


text \<open>C2: \<open>selectBootConfig\<close> makes exactly the lookups, and returns exactly the result, of the
  specification \<open>selects\<close>: the only item without any lookup, else the item preferred for the
  server found through the first owner whose configuration and server exist (owners without a
  name and vanished configurations and servers are passed over). It fails only on an empty list,
  on the first read error other than \<open>NotFound\<close>, which the result names with its owner, when no
  owner leads to a server, or when that server prefers none of the items, with the error that says
  which of the two reasons. It changes nothing in the cluster.\<close>

theorem selectBootConfig_correct:
  "emits (selectBootConfig L E getMeta items)
     (\<lambda>r es. selects L getMeta items es r \<and> list_all isOwnerLookup es)"
  by (rule emits_conseq [OF emits_selectBootConfig]) (simp add: selects_lookups)

end
