(* ===== verification/Conditions.thy ===== *)
theory Conditions
  imports World
begin

text \<open>
  Status conditions: \<open>updateCondition\<close> and \<open>SetStatusCondition\<close> of
  \<^verbatim>\<open>server/bootserver.go\<close>. The contract that every way of setting a condition shares,
  in the boot server and in \<^verbatim>\<open>apimachinery\<close>'s \<open>SetStatusCondition\<close> that the
  reconcilers call, is the locale \<open>condition_upsert\<close>; the lemmas about sets of conditions
  are proved in it once.
\<close>

section \<open>The code\<close>

definition predefinedConditions :: "string \<rightharpoonup> condition" where
  "predefinedConditions =
     [''IgnitionDataFetched'' \<mapsto>
        \<lparr>condType = ''IgnitionDataFetched'', condStatus = ConditionTrue,
         condReason = ''IgnitionDataDelivered'',
         condMessage = ''Ignition data has been successfully delivered to the client.'',
         condObservedGeneration = 0, condLastTransitionTime = 0\<rparr>,
      ''IPXEScriptFetched'' \<mapsto>
        \<lparr>condType = ''IPXEScriptFetched'', condStatus = ConditionTrue,
         condReason = ''IPXEScriptDelivered'',
         condMessage = ''IPXE script has been successfully delivered to the client.'',
         condObservedGeneration = 0, condLastTransitionTime = 0\<rparr>]"

text \<open>\<open>now\<close> is the value of \<open>v1.Now()\<close>.\<close>

definition updateCondition :: "int \<Rightarrow> condition list \<Rightarrow> condition \<Rightarrow> condition list" where
  "updateCondition now conditions newCondition =
     upsertBy condType (newCondition\<lparr>condLastTransitionTime := now\<rparr>) conditions"

datatype set_condition_error =
    ConditionTypeNotFound string
  | UnsupportedResourceType
  | SetConditionPatchFailed api_error

definition SetStatusCondition ::
  "'s env \<Rightarrow> client_object \<Rightarrow> string \<Rightarrow> ('s, 'z, set_condition_error option) io" where
  "SetStatusCondition E obj conditionType =
     (case predefinedConditions conditionType of
        None \<Rightarrow> ret (Some (ConditionTypeNotFound conditionType))
      | Some condition \<Rightarrow>
          (case obj of
             IPXEObj resource \<Rightarrow> do {
               now \<leftarrow> timeNow E;
               err \<leftarrow> patchIPXEStatus E resource
                 (resource\<lparr>ipxeStatus := (ipxeStatus resource)\<lparr>ipxeConditions :=
                    updateCondition now (ipxeConditions (ipxeStatus resource)) condition\<rparr>\<rparr>);
               ret (map_option SetConditionPatchFailed err) }
           | HTTPObj resource \<Rightarrow> do {
               now \<leftarrow> timeNow E;
               err \<leftarrow> patchHTTPStatus E resource
                 (resource\<lparr>httpStatus := (httpStatus resource)\<lparr>httpConditions :=
                    updateCondition now (httpConditions (httpStatus resource)) condition\<rparr>\<rparr>);
               ret (map_option SetConditionPatchFailed err) }
           | SecretObj _ \<Rightarrow> ret (Some UnsupportedResourceType)))"

section \<open>The contract of setting a condition\<close>

text \<open>
  The content of a condition, without the time of its last transition, on which the
  implementations differ.
\<close>

record condition_view =
  cvType :: string
  cvStatus :: cond_status
  cvReason :: string
  cvMessage :: string
  cvObservedGeneration :: int

definition condView :: "condition \<Rightarrow> condition_view" where
  "condView c = \<lparr>cvType = condType c, cvStatus = condStatus c, cvReason = condReason c,
     cvMessage = condMessage c, cvObservedGeneration = condObservedGeneration c\<rparr>"

lemma cvType_condView [simp]: "cvType (condView c) = condType c"
  by (simp add: condView_def)

definition findCondition :: "condition list \<Rightarrow> string \<Rightarrow> condition_view option" where
  "findCondition cs t = List.find (\<lambda>v. cvType v = t) (map condView cs)"

lemma findCondition_Nil [simp]: "findCondition [] t = None"
  by (simp add: findCondition_def)

lemma findCondition_type: "findCondition cs t = Some v \<Longrightarrow> cvType v = t"
  by (auto simp: findCondition_def dest: find_SomeD)

locale condition_upsert =
  fixes setCond :: "condition list \<Rightarrow> condition \<Rightarrow> condition list"
  assumes setCond_view: "map condView (setCond cs c) = upsertBy cvType (condView c) (map condView cs)"
begin

lemma find_setCond:
  "findCondition (setCond cs c) t = (if t = condType c then Some (condView c) else findCondition cs t)"
  by (simp add: findCondition_def setCond_view upsertBy_find)

lemma map_cvType: "map cvType (map condView cs) = map condType cs"
  by (simp add: comp_def)

lemma types_setCond:
  "map condType (setCond cs c) =
     (if condType c \<in> condType ` set cs then map condType cs else map condType cs @ [condType c])"
proof -
  have "map condType (setCond cs c) = map cvType (upsertBy cvType (condView c) (map condView cs))"
    by (metis map_cvType setCond_view)
  then show ?thesis by (simp add: upsertBy_keys image_image comp_def)
qed

lemma distinct_setCond:
  "distinct (map condType cs) \<Longrightarrow> distinct (map condType (setCond cs c))"
  by (auto simp: types_setCond)

text \<open>The loop that copies the conditions of a boot configuration.\<close>

lemma find_foldl_setCond:
  "findCondition (foldl setCond cs ds) t =
     (case List.find (\<lambda>d. condType d = t) (rev ds) of
        Some d \<Rightarrow> Some (condView d) | None \<Rightarrow> findCondition cs t)"
proof (induction ds rule: rev_induct)
  case (snoc d ds)
  then show ?case by (auto simp: find_setCond)
qed simp

lemma distinct_foldl_setCond:
  "distinct (map condType cs) \<Longrightarrow> distinct (map condType (foldl setCond cs ds))"
  by (induction ds arbitrary: cs) (simp_all add: distinct_setCond)

end

lemma updateCondition_view:
  "map condView (updateCondition now cs c) = upsertBy cvType (condView c) (map condView cs)"
proof -
  have "condView (c\<lparr>condLastTransitionTime := now\<rparr>) = condView c" by (simp add: condView_def)
  then show ?thesis by (simp add: updateCondition_def upsertBy_map [where key' = cvType])
qed

interpretation boot_conditions: condition_upsert "updateCondition now" for now
  by unfold_locales (rule updateCondition_view)

section \<open>Setting a condition of a boot configuration\<close>

lemma predefinedConditions_type:
  "predefinedConditions t = Some c \<Longrightarrow> condType c = t \<and> condStatus c = ConditionTrue"
  by (auto simp: predefinedConditions_def split: if_splits)

text \<open>
  \<open>conditionPatch t e\<close>: the event is the status patch of a boot configuration that sets the
  predefined condition \<open>t\<close> and changes nothing else.
\<close>

definition conditionPatch :: "client_object \<Rightarrow> string \<Rightarrow> event \<Rightarrow> bool" where
  "conditionPatch obj t e \<longleftrightarrow>
     (\<exists>c now err. predefinedConditions t = Some c \<and>
        ((\<exists>x. obj = IPXEObj x \<and> e = EPatchIPXEStatus x
            (x\<lparr>ipxeStatus := (ipxeStatus x)\<lparr>ipxeConditions :=
               updateCondition now (ipxeConditions (ipxeStatus x)) c\<rparr>\<rparr>) err) \<or>
         (\<exists>x. obj = HTTPObj x \<and> e = EPatchHTTPStatus x
            (x\<lparr>httpStatus := (httpStatus x)\<lparr>httpConditions :=
               updateCondition now (httpConditions (httpStatus x)) c\<rparr>\<rparr>) err)))"

lemma emits_SetStatusCondition:
  assumes "\<And>now p err. conditionPatch obj t p \<Longrightarrow> R err [ENow now, p]"
    and "\<And>err. predefinedConditions t = None \<or> (\<exists>s. obj = SecretObj s) \<Longrightarrow> R (Some err) []"
  shows "emits (SetStatusCondition E obj t) R"
  unfolding SetStatusCondition_def
  by (cases obj; auto intro!: emits_rules assms simp: conditionPatch_def; rule exI; rule refl)


section \<open>Properties\<close>

text \<open>C35: Recording that a boot artefact was delivered is one status patch of the resource that
  sets the predefined condition of the given type to true, leaves the conditions of every other
  type, the state, the spec and the metadata as they were, and is not attempted at all for an
  unknown condition type.\<close>

theorem SetStatusCondition_correct:
  "emits (SetStatusCondition E (IPXEObj x) t) (\<lambda>res es.
     (predefinedConditions t = None \<and> es = [] \<and> res = Some (ConditionTypeNotFound t)) \<or>
     (\<exists>c now y err. predefinedConditions t = Some c \<and> condStatus c = ConditionTrue \<and>
        es = [ENow now, EPatchIPXEStatus x y err] \<and> res = map_option SetConditionPatchFailed err \<and>
        ipxeMeta y = ipxeMeta x \<and> ipxeSpec y = ipxeSpec x \<and>
        ipxeState (ipxeStatus y) = ipxeState (ipxeStatus x) \<and>
        findCondition (ipxeConditions (ipxeStatus y)) =
          (findCondition (ipxeConditions (ipxeStatus x)))(t \<mapsto> condView c)))
   \<and> emits (SetStatusCondition E (HTTPObj x') t) (\<lambda>res es.
     (predefinedConditions t = None \<and> es = [] \<and> res = Some (ConditionTypeNotFound t)) \<or>
     (\<exists>c now y err. predefinedConditions t = Some c \<and> condStatus c = ConditionTrue \<and>
        es = [ENow now, EPatchHTTPStatus x' y err] \<and> res = map_option SetConditionPatchFailed err \<and>
        httpMeta y = httpMeta x' \<and> httpSpec y = httpSpec x' \<and>
        httpState (httpStatus y) = httpState (httpStatus x') \<and>
        findCondition (httpConditions (httpStatus y)) =
          (findCondition (httpConditions (httpStatus x')))(t \<mapsto> condView c)))"
proof (cases "predefinedConditions t")
  case None
  then show ?thesis by (auto intro!: emits_rules simp: SetStatusCondition_def)
next
  case (Some c)
  then show ?thesis
    using predefinedConditions_type [OF Some]
    by (auto intro!: emits_rules simp: SetStatusCondition_def fun_eq_iff
        boot_conditions.find_setCond)
qed

end
