(* ===== verification/Oci.thy ===== *)
theory Oci
  imports World
begin

text \<open>
  Access to OCI registries, \<^verbatim>\<open>internal/oci/manifest.go\<close>: the fetch of a descriptor's
  content with its size check, and the choice of the manifest of an architecture in an
  image index, with the legacy selection by the \<open>cname\<close> annotation. The text of an error
  message is the error.
\<close>

section \<open>The code\<close>

record find_manifest_options =
  EnableCNAMECompat :: bool
  CNAMEPrefix :: string

text \<open>The zero options that the UKI callers pass.\<close>

definition noOptions :: find_manifest_options where
  "noOptions = \<lparr>EnableCNAMECompat = False, CNAMEPrefix = []\<rparr>"

definition annotationCNAME :: string where "annotationCNAME = ''cname''"
definition annotationArchitecture :: string where "annotationArchitecture = ''architecture''"

definition annotation :: "descriptor \<Rightarrow> string \<Rightarrow> string" where
  "annotation d k = (case descAnnotations d k of None \<Rightarrow> [] | Some s \<Rightarrow> s)"

definition FetchContent :: "'s env \<Rightarrow> string \<Rightarrow> descriptor \<Rightarrow> ('s, 'z, string + string) io" where
  "FetchContent E ref desc = do {
     ferr \<leftarrow> newFetcher E ref;
     (case ferr of
        Some err \<Rightarrow> ret (Inl (''failed to get fetcher: '' @ err))
      | None \<Rightarrow> do {
          rerr \<leftarrow> fetchDesc E ref desc;
          (case rerr of
             Some err \<Rightarrow> ret (Inl (''failed to fetch content: '' @ err))
           | None \<Rightarrow> do {
               data \<leftarrow> readContent E ref desc;
               closeReader E ref desc;
               ret (case data of
                  Inl err \<Rightarrow> Inl (''failed to read content: '' @ err)
                | Inr data \<Rightarrow>
                    if int (length data) \<noteq> descSize desc then
                      Inl (''size mismatch: expected '' @ itoaInt (descSize desc)
                        @ '', got '' @ itoa (length data))
                    else Inr data) }) }) }"

text \<open>The two lookup loops of an index, in their order.\<close>

definition findTargetManifest ::
  "find_manifest_options \<Rightarrow> string \<Rightarrow> descriptor list \<Rightarrow> descriptor" where
  "findTargetManifest opts architecture manifests =
     (let cnameTarget =
            (if EnableCNAMECompat opts \<and> trimSpace (CNAMEPrefix opts) \<noteq> [] then
               (case List.find (\<lambda>m. hasPrefix (annotation m annotationCNAME) (CNAMEPrefix opts)
                        \<and> annotation m annotationArchitecture = architecture) manifests of
                  Some m \<Rightarrow> m | None \<Rightarrow> zeroDescriptor)
             else zeroDescriptor)
      in if descDigest cnameTarget = [] then
           (case List.find (\<lambda>m. descPlatformArchitecture m = Some architecture) manifests of
              Some m \<Rightarrow> m | None \<Rightarrow> cnameTarget)
         else cnameTarget)"

definition FindManifestByArchitecture ::
  "lib \<Rightarrow> 's env \<Rightarrow> string \<Rightarrow> descriptor \<Rightarrow> string \<Rightarrow> find_manifest_options \<Rightarrow>
     ('s, 'z, string + manifest) io" where
  "FindManifestByArchitecture L E name desc architecture opts = do {
     manifestData \<leftarrow> FetchContent E name desc;
     (case manifestData of
        Inl err \<Rightarrow> ret (Inl (''failed to fetch manifest data: '' @ err))
      | Inr data \<Rightarrow>
          (case l_decodeManifest L data of
             Inl err \<Rightarrow> ret (Inl (''failed to unmarshal manifest: '' @ err))
           | Inr manifest \<Rightarrow>
               if descMediaType desc \<noteq> l_mediaTypeImageIndex L then ret (Inr manifest)
               else
                 (case l_decodeIndex L data of
                    Inl err \<Rightarrow> ret (Inl (''failed to unmarshal index manifest: '' @ err))
                  | Inr indexManifest \<Rightarrow>
                      (let target = findTargetManifest opts architecture indexManifest in
                       if descDigest target = [] then
                         ret (Inl (''failed to find target manifest with architecture ''
                           @ architecture))
                       else do {
                         nestedData \<leftarrow> FetchContent E name target;
                         ret (case nestedData of
                            Inl err \<Rightarrow> Inl (''failed to fetch nested manifest: '' @ err)
                          | Inr nested \<Rightarrow>
                              (case l_decodeManifest L nested of
                                 Inl err \<Rightarrow> Inl (''failed to unmarshal nested manifest: '' @ err)
                               | Inr m \<Rightarrow> Inr m)) })))) }"

section \<open>Fetching\<close>

text \<open>What a call of \<open>FetchContent\<close> does: it succeeds exactly with content of the right size.\<close>

definition fetched :: "string \<Rightarrow> descriptor \<Rightarrow> string \<Rightarrow> event list \<Rightarrow> bool" where
  "fetched ref desc data es \<longleftrightarrow>
     es = [EFetcher ref None, EFetch ref desc None, EReadContent ref desc (Inr data),
           ECloseReader ref desc] \<and> int (length data) = descSize desc"

text \<open>
  Why it fails: no fetcher, no reader, a read error, or content of another size; it never goes
  on after an error, and it closes the reader it opened.
\<close>

inductive fetchFailed :: "string \<Rightarrow> descriptor \<Rightarrow> event list \<Rightarrow> bool"
  for ref desc where
  no_fetcher: "fetchFailed ref desc [EFetcher ref (Some err)]"
| no_reader: "fetchFailed ref desc [EFetcher ref None, EFetch ref desc (Some err)]"
| unreadable:
    "fetchFailed ref desc [EFetcher ref None, EFetch ref desc None,
       EReadContent ref desc (Inl err), ECloseReader ref desc]"
| wrong_size:
    "int (length data) \<noteq> descSize desc \<Longrightarrow>
       fetchFailed ref desc [EFetcher ref None, EFetch ref desc None,
         EReadContent ref desc (Inr data), ECloseReader ref desc]"

lemma fetched_or_failed: "fetched ref desc data es \<Longrightarrow> \<not> fetchFailed ref desc es"
  by (auto simp: fetched_def elim: fetchFailed.cases)

section \<open>Selection in an index\<close>

lemma descDigest_zero [simp]: "descDigest zeroDescriptor = []"
  by (simp add: zeroDescriptor_def)

lemma findTargetManifest_zero: "findTargetManifest opts arch [] = zeroDescriptor"
  by (simp add: findTargetManifest_def)

lemma findTargetManifest_noOptions:
  "findTargetManifest noOptions arch ms =
     (case List.find (\<lambda>m. descPlatformArchitecture m = Some arch) ms of
        Some m \<Rightarrow> m | None \<Rightarrow> zeroDescriptor)"
  by (simp add: findTargetManifest_def noOptions_def)

definition matchesCNAME :: "find_manifest_options \<Rightarrow> string \<Rightarrow> descriptor \<Rightarrow> bool" where
  "matchesCNAME opts arch m \<longleftrightarrow> EnableCNAMECompat opts \<and> trimSpace (CNAMEPrefix opts) \<noteq> []
     \<and> hasPrefix (annotation m annotationCNAME) (CNAMEPrefix opts)
     \<and> annotation m annotationArchitecture = arch"

lemma findTargetManifest_match:
  assumes "descDigest (findTargetManifest opts arch ms) \<noteq> []"
  shows "findTargetManifest opts arch ms \<in> set ms \<and>
    (matchesCNAME opts arch (findTargetManifest opts arch ms) \<or>
     descPlatformArchitecture (findTargetManifest opts arch ms) = Some arch)"
  using assms
  by (auto simp: findTargetManifest_def matchesCNAME_def Let_def
      dest!: find_SomeD split: if_splits option.splits)

lemma findTargetManifest_legacy_first:
  assumes "m \<in> set ms" "matchesCNAME opts arch m" and "\<forall>m\<in>set ms. descDigest m \<noteq> []"
  shows "List.find (matchesCNAME opts arch) ms = Some (findTargetManifest opts arch ms)"
proof -
  have on: "EnableCNAMECompat opts" "trimSpace (CNAMEPrefix opts) \<noteq> []"
    using assms(2) by (auto simp: matchesCNAME_def)
  have eq: "List.find (\<lambda>m. hasPrefix (annotation m annotationCNAME) (CNAMEPrefix opts)
        \<and> annotation m annotationArchitecture = arch) ms = List.find (matchesCNAME opts arch) ms"
    using on by (intro find_cong_set) (auto simp: matchesCNAME_def)
  obtain n where n: "List.find (matchesCNAME opts arch) ms = Some n"
    using find_Some_ex [of m ms "matchesCNAME opts arch"] assms by auto
  then have "descDigest n \<noteq> []" using assms(3) by (auto dest: find_SomeD)
  then show ?thesis using n eq on by (simp add: findTargetManifest_def)
qed

section \<open>Finding the manifest of an architecture\<close>

text \<open>
  What a successful search did: it fetched the content of the descriptor, and, for an image
  index, also that of the manifest of the index that \<open>findTargetManifest\<close> picks.
\<close>

definition manifestFetched ::
  "lib \<Rightarrow> string \<Rightarrow> descriptor \<Rightarrow> string \<Rightarrow> find_manifest_options \<Rightarrow> manifest \<Rightarrow> event list \<Rightarrow> bool" where
  "manifestFetched L name desc arch opts m es \<longleftrightarrow>
     (\<exists>data es1. fetched name desc data es1 \<and>
        (if descMediaType desc = l_mediaTypeImageIndex L then
           \<exists>ix nested es2. l_decodeIndex L data = Inr ix \<and>
             descDigest (findTargetManifest opts arch ix) \<noteq> [] \<and>
             fetched name (findTargetManifest opts arch ix) nested es2 \<and>
             l_decodeManifest L nested = Inr m \<and> es = es1 @ es2
         else l_decodeManifest L data = Inr m \<and> es = es1))"

text \<open>
  Why a search fails: the content cannot be fetched or decoded, the index is not one, none of
  its entries is the target, or the target cannot be fetched or decoded.
\<close>

inductive manifestFailed ::
  "lib \<Rightarrow> string \<Rightarrow> descriptor \<Rightarrow> string \<Rightarrow> find_manifest_options \<Rightarrow> event list \<Rightarrow> bool"
  for L name desc arch opts where
  not_fetched:
    "fetchFailed name desc es \<Longrightarrow> manifestFailed L name desc arch opts es"
| not_manifest:
    "fetched name desc data es \<Longrightarrow> l_decodeManifest L data = Inl err \<Longrightarrow>
       manifestFailed L name desc arch opts es"
| not_index:
    "fetched name desc data es \<Longrightarrow> descMediaType desc = l_mediaTypeImageIndex L \<Longrightarrow>
       l_decodeIndex L data = Inl err \<Longrightarrow> manifestFailed L name desc arch opts es"
| no_target:
    "fetched name desc data es \<Longrightarrow> descMediaType desc = l_mediaTypeImageIndex L \<Longrightarrow>
       l_decodeIndex L data = Inr ix \<Longrightarrow> descDigest (findTargetManifest opts arch ix) = [] \<Longrightarrow>
       manifestFailed L name desc arch opts es"
| target_not_fetched:
    "fetched name desc data es \<Longrightarrow> descMediaType desc = l_mediaTypeImageIndex L \<Longrightarrow>
       l_decodeIndex L data = Inr ix \<Longrightarrow> descDigest (findTargetManifest opts arch ix) \<noteq> [] \<Longrightarrow>
       fetchFailed name (findTargetManifest opts arch ix) es' \<Longrightarrow>
       manifestFailed L name desc arch opts (es @ es')"
| target_not_manifest:
    "fetched name desc data es \<Longrightarrow> descMediaType desc = l_mediaTypeImageIndex L \<Longrightarrow>
       l_decodeIndex L data = Inr ix \<Longrightarrow> descDigest (findTargetManifest opts arch ix) \<noteq> [] \<Longrightarrow>
       fetched name (findTargetManifest opts arch ix) nested es' \<Longrightarrow>
       l_decodeManifest L nested = Inl err \<Longrightarrow>
       manifestFailed L name desc arch opts (es @ es')"

fun isContentRead :: "string \<Rightarrow> event \<Rightarrow> bool" where
  "isContentRead name (EFetcher r _) = (r = name)"
| "isContentRead name (EFetch r _ _) = (r = name)"
| "isContentRead name (EReadContent r _ _) = (r = name)"
| "isContentRead name (ECloseReader r _) = (r = name)"
| "isContentRead name _ = False"

text \<open>Every reader that was opened has been closed.\<close>

definition readersClosed :: "event list \<Rightarrow> bool" where
  "readersClosed es \<longleftrightarrow> (\<forall>r d. EFetch r d None \<in> set es \<longrightarrow> ECloseReader r d \<in> set es)"

definition contentReads :: "string \<Rightarrow> event list \<Rightarrow> bool" where
  "contentReads name es \<longleftrightarrow> list_all (isContentRead name) es \<and> readersClosed es"

lemma contentReads_append: "contentReads n es \<Longrightarrow> contentReads n es' \<Longrightarrow> contentReads n (es @ es')"
  by (auto simp: contentReads_def readersClosed_def)

lemma fetched_contentReads: "fetched n d data es \<Longrightarrow> contentReads n es"
  by (auto simp: fetched_def contentReads_def readersClosed_def)

lemma emits_FetchContent_reads:
  assumes "\<And>data es. fetched ref desc data es \<Longrightarrow> contentReads ref es \<Longrightarrow> R (Inr data) es"
    and "\<And>err es. fetchFailed ref desc es \<Longrightarrow> contentReads ref es \<Longrightarrow> R (Inl err) es"
  shows "emits (FetchContent E ref desc) R"
  unfolding FetchContent_def
  by (intro emits_rules; (split sum.split if_split)?;
      auto simp: fetched_def contentReads_def readersClosed_def intro!: assms fetchFailed.intros)

lemma emits_FindManifestByArchitecture:
  assumes "\<And>m es. manifestFetched L name desc arch opts m es \<Longrightarrow> contentReads name es \<Longrightarrow> R (Inr m) es"
    and "\<And>err es. manifestFailed L name desc arch opts es \<Longrightarrow> contentReads name es \<Longrightarrow> R (Inl err) es"
  shows "emits (FindManifestByArchitecture L E name desc arch opts) R"
  unfolding FindManifestByArchitecture_def
  by (intro emits_rules emits_FetchContent_reads)
    (auto intro!: assms contentReads_append intro: manifestFailed.intros
      simp: manifestFetched_def split: sum.split, blast)

section \<open>Properties\<close>

text \<open>C34: A search that succeeds returns the manifest decoded from content of exactly the
  announced size, of the descriptor itself or, for an index, of the entry that the legacy
  \<open>cname\<close> rule or the platform selects; one that fails has met a failed fetch, a size mismatch,
  undecodable content or an index without that entry; it makes no call but reads of the named
  image, and it closes every reader it opens, on every path.\<close>

theorem FindManifestByArchitecture_correct:
  "emits (FindManifestByArchitecture L E name desc arch opts)
     (\<lambda>r es. contentReads name es \<and>
        (case r of Inr m \<Rightarrow> manifestFetched L name desc arch opts m es
         | Inl _ \<Rightarrow> manifestFailed L name desc arch opts es))"
  by (rule emits_FindManifestByArchitecture) simp_all

text \<open>In an index whose entries all carry a digest, the target is the first entry that
  matches the enabled legacy annotations, whatever the platforms say; failing that, the first
  entry with the platform's architecture; failing that, the zero descriptor.\<close>

theorem findTargetManifest_correct:
  assumes "list_all (\<lambda>m. descDigest m \<noteq> []) ms"
  shows "findTargetManifest opts arch ms =
     (case List.find (matchesCNAME opts arch) ms of
        Some m \<Rightarrow> m
      | None \<Rightarrow> (case List.find (\<lambda>m. descPlatformArchitecture m = Some arch) ms of
          Some m \<Rightarrow> m | None \<Rightarrow> zeroDescriptor))"
proof (cases "List.find (matchesCNAME opts arch) ms")
  case None
  then show ?thesis
    by (auto simp: findTargetManifest_def matchesCNAME_def find_None_iff split: option.split
        dest!: find_SomeD)
next
  case (Some m)
  then have "List.find (matchesCNAME opts arch) ms = Some (findTargetManifest opts arch ms)"
    using find_SomeD [OF Some] assms
    by (intro findTargetManifest_legacy_first [where m = m]) (auto simp: list_all_iff)
  with Some show ?thesis by simp
qed

definition sampleIndex :: "descriptor list" where
  "sampleIndex =
     [zeroDescriptor\<lparr>descDigest := ''sha256:a'', descPlatformArchitecture := Some ''amd64''\<rparr>,
      zeroDescriptor\<lparr>descDigest := ''sha256:b'',
        descAnnotations := [''cname'' \<mapsto> ''metal_pxe'', ''architecture'' \<mapsto> ''amd64'']\<rparr>]"

lemma findTargetManifest_witness:
  "descDigest (findTargetManifest \<lparr>EnableCNAMECompat = True, CNAMEPrefix = ''metal''\<rparr> ''amd64''
     sampleIndex) = ''sha256:b''"
proof -
  have "list_all (\<lambda>m. descDigest m \<noteq> []) sampleIndex" by (simp add: sampleIndex_def)
  moreover have "trimSpace ''metal'' = ''metal''" "hasPrefix ''metal_pxe'' ''metal''"
    by code_simp+
  ultimately show ?thesis
    by (simp add: findTargetManifest_correct)
      (simp add: sampleIndex_def matchesCNAME_def annotation_def annotationCNAME_def
        annotationArchitecture_def zeroDescriptor_def)
qed

end
