(* ===== verification/Uki.thy ===== *)
theory Uki
  imports Oci
begin

text \<open>
  The default UKI of the boot server, \<^verbatim>\<open>internal/uki/oci.go\<close>: parsing of an image
  reference into repository and reference, and the URL of the UKI layer of the image of an
  architecture. The parser is characterised on every input (\<open>parseOCIReferenceForUKI_Inr\<close>)
  and on the two forms it accepts.
\<close>

section \<open>The code\<close>

definition MediaTypeUKI :: string where
  "MediaTypeUKI = ''application/vnd.ironcore.image.uki''"

text \<open>The errors of this file, one constructor for each \<open>fmt.Errorf\<close>.\<close>

datatype uki_error =
    InvalidOCIReference string
  | ExpectedTagOrDigest string
  | FetchUKILayerDigest string

definition lastTagSeparatorIndex :: "string \<Rightarrow> int" where
  "lastTagSeparatorIndex ref =
     (let lastSlash = lastIndex ref (CHR ''/''); lastColon = lastIndex ref (CHR '':'') in
      if lastColon > lastSlash then lastColon else - 1)"

definition parseOCIReferenceForUKI :: "string \<Rightarrow> uki_error + (string \<times> string)" where
  "parseOCIReferenceForUKI img =
     (case cut img (CHR ''@'') of (base, digest, hasDigest) \<Rightarrow>
        if hasDigest then
          (if base = [] \<or> digest = [] then Inl (InvalidOCIReference img)
           else let tagSep = lastTagSeparatorIndex base;
                    repository = (if tagSep \<ge> 0 then take (nat tagSep) base else base)
                in if repository = [] then Inl (InvalidOCIReference img)
                   else Inr (repository, base @ ''@'' @ digest))
        else
          (let tagSep = lastTagSeparatorIndex img in
           if tagSep < 0 then Inl (ExpectedTagOrDigest img)
           else let repository = take (nat tagSep) img; tag = drop (nat tagSep + 1) img in
             if repository = [] \<or> tag = [] then Inl (ExpectedTagOrDigest img)
             else Inr (repository, img)))"

definition findUKILayer :: "manifest \<Rightarrow> string + string" where
  "findUKILayer layers =
     (case List.find (\<lambda>layer. descMediaType layer = MediaTypeUKI) layers of
        Some layer \<Rightarrow> Inr (descDigest layer)
      | None \<Rightarrow> Inl ''UKI layer digest not found'')"

definition getUKIDigestFromNestedManifest ::
  "lib \<Rightarrow> 's env \<Rightarrow> string \<Rightarrow> string \<Rightarrow> ('s, 'z, string + string) io" where
  "getUKIDigestFromNestedManifest L E imageRef architecture = do {
     resolved \<leftarrow> resolveRef E imageRef;
     (case resolved of
        Inl err \<Rightarrow> ret (Inl (''failed to resolve image reference: '' @ err))
      | Inr (name, desc) \<Rightarrow> do {
          manifest \<leftarrow> FindManifestByArchitecture L E name desc architecture noOptions;
          ret (case manifest of Inl err \<Rightarrow> Inl err | Inr layers \<Rightarrow> findUKILayer layers) }) }"

definition ConstructUKIURLFromOCI ::
  "lib \<Rightarrow> 's env \<Rightarrow> string \<Rightarrow> string \<Rightarrow> string \<Rightarrow> ('s, 'z, uki_error + string) io" where
  "ConstructUKIURLFromOCI L E img imageServerURL architecture =
     (case parseOCIReferenceForUKI img of
        Inl err \<Rightarrow> ret (Inl err)
      | Inr (repository, imageRef) \<Rightarrow> do {
          digest \<leftarrow> getUKIDigestFromNestedManifest L E imageRef architecture;
          ret (case digest of
             Inl err \<Rightarrow> Inl (FetchUKILayerDigest err)
           | Inr ukiDigest \<Rightarrow>
               Inr (imageServerURL @ ''/'' @ repository @ ''/sha256-''
                 @ trimPrefix ukiDigest ''sha256:'' @ ''.efi'')) })"

section \<open>The reference parser\<close>

lemma lastTagSeparatorIndex_tag:
  assumes "CHR '':'' \<notin> set tag" "CHR ''/'' \<notin> set tag"
  shows "lastTagSeparatorIndex (name @ CHR '':'' # tag) = int (length name)"
proof -
  have "lastIndex (name @ CHR '':'' # tag) (CHR ''/'') < int (length name)"
  proof (cases "CHR ''/'' \<in> set name")
    case True
    then obtain a b where ab: "name = a @ CHR ''/'' # b" "CHR ''/'' \<notin> set b"
      by (metis split_list_last)
    then have "lastIndex (name @ CHR '':'' # tag) (CHR ''/'') = int (length a)"
      using lastIndex_append [of "CHR ''/''" "b @ CHR '':'' # tag" a] assms by simp
    with ab show ?thesis by simp
  next
    case False
    then show ?thesis using assms by simp
  qed
  then show ?thesis using assms by (simp add: lastTagSeparatorIndex_def)
qed

lemma lastTagSeparatorIndex_no_tag:
  assumes "CHR '':'' \<notin> set seg" "CHR ''/'' \<notin> set seg"
  shows "lastTagSeparatorIndex (pre @ CHR ''/'' # seg) = - 1"
proof -
  have "\<not> lastIndex (pre @ CHR ''/'' # seg) (CHR '':'') > int (length pre)"
  proof (cases "CHR '':'' \<in> set pre")
    case True
    then obtain a b where ab: "pre = a @ CHR '':'' # b" "CHR '':'' \<notin> set b"
      by (metis split_list_last)
    then show ?thesis
      using lastIndex_append [of "CHR '':''" "b @ CHR ''/'' # seg" a] assms by simp
  next
    case False
    then show ?thesis using assms by simp
  qed
  then show ?thesis using assms by (simp add: lastTagSeparatorIndex_def)
qed

text \<open>A separator the function finds is a colon with no slash after it.\<close>

lemma lastTagSeparatorIndex_nonneg:
  assumes "lastTagSeparatorIndex s \<ge> 0"
  obtains name tag where "s = name @ CHR '':'' # tag" "CHR '':'' \<notin> set tag"
    "CHR ''/'' \<notin> set tag" "lastTagSeparatorIndex s = int (length name)"
proof -
  have colon: "CHR '':'' \<in> set s"
    using assms by (cases "CHR '':'' \<in> set s") (auto simp: lastTagSeparatorIndex_def Let_def split: if_splits)
  then obtain name tag where s: "s = name @ CHR '':'' # tag" "CHR '':'' \<notin> set tag"
    by (metis split_list_last)
  have "CHR ''/'' \<notin> set tag"
  proof
    assume "CHR ''/'' \<in> set tag"
    then obtain a b where "tag = a @ CHR ''/'' # b" "CHR ''/'' \<notin> set b" by (metis split_list_last)
    then have "lastTagSeparatorIndex s = - 1"
      using lastTagSeparatorIndex_no_tag [of b "name @ CHR '':'' # a"] s by simp
    with assms show False by simp
  qed
  with s lastTagSeparatorIndex_tag that show thesis by blast
qed

definition tagged :: "string \<Rightarrow> string \<Rightarrow> string \<Rightarrow> bool" where
  "tagged ref name tag \<longleftrightarrow> ref = name @ CHR '':'' # tag \<and> CHR '':'' \<notin> set tag \<and> CHR ''/'' \<notin> set tag"

lemma lastTagSeparatorIndex_tagged: "tagged ref name tag \<Longrightarrow> lastTagSeparatorIndex ref = int (length name)"
  by (auto simp: tagged_def lastTagSeparatorIndex_tag)

lemma lastTagSeparatorIndex_cases:
  obtains (tagged) name tag where "tagged ref name tag" "lastTagSeparatorIndex ref = int (length name)"
  | (untagged) "\<nexists>name tag. tagged ref name tag" "lastTagSeparatorIndex ref < 0"
proof (cases "lastTagSeparatorIndex ref \<ge> 0")
  case True
  then show thesis
    by (rule lastTagSeparatorIndex_nonneg) (auto simp: tagged_def intro: that(1))
next
  case False
  then show thesis by (auto dest!: lastTagSeparatorIndex_tagged intro!: that(2))
qed

lemma tagged_unique: "tagged ref name tag \<Longrightarrow> tagged ref name' tag' \<Longrightarrow> name = name' \<and> tag = tag'"
  using lastTagSeparatorIndex_tagged [of ref name tag] lastTagSeparatorIndex_tagged [of ref name' tag']
  by (auto simp: tagged_def)

text \<open>
  The references the boot server accepts, with the repository each denotes: a name with a
  tag, or a name with an optional tag and a digest. A colon before the last slash (the port
  of a registry) never counts as a tag separator.
\<close>

definition ukiReference :: "string \<Rightarrow> string \<Rightarrow> bool" where
  "ukiReference ref repo \<longleftrightarrow> repo \<noteq> [] \<and>
     ((CHR ''@'' \<notin> set ref \<and> (\<exists>tag. tag \<noteq> [] \<and> tagged ref repo tag)) \<or>
      (\<exists>base digest. ref = base @ CHR ''@'' # digest \<and> CHR ''@'' \<notin> set base \<and> digest \<noteq> [] \<and>
         ((\<exists>tag. tagged base repo tag) \<or> (base = repo \<and> (\<nexists>name tag. tagged base name tag)))))"

lemma parseOCIReferenceForUKI_tag_form:
  assumes "CHR ''@'' \<notin> set ref"
  shows "parseOCIReferenceForUKI ref = Inr (repo, ref') \<longleftrightarrow>
    ref' = ref \<and> repo \<noteq> [] \<and> (\<exists>tag. tag \<noteq> [] \<and> tagged ref repo tag)"
proof (cases ref rule: lastTagSeparatorIndex_cases)
  case (tagged name tag)
  then have "take (length name) ref = name" "drop (length name + 1) ref = tag"
    by (simp_all add: tagged_def)
  moreover have "(\<exists>tag. tag \<noteq> [] \<and> tagged ref repo tag) \<longleftrightarrow> repo = name \<and> tag \<noteq> []"
    using tagged(1) tagged_unique by blast
  ultimately show ?thesis
    using assms tagged(2) by (auto simp: parseOCIReferenceForUKI_def)
next
  case untagged
  then show ?thesis using assms by (auto simp: parseOCIReferenceForUKI_def)
qed

lemma parseOCIReferenceForUKI_digest_form:
  assumes "CHR ''@'' \<notin> set base"
  shows "parseOCIReferenceForUKI (base @ CHR ''@'' # digest) = Inr (repo, ref') \<longleftrightarrow>
    ref' = base @ CHR ''@'' # digest \<and> repo \<noteq> [] \<and> digest \<noteq> [] \<and>
    ((\<exists>tag. tagged base repo tag) \<or> (base = repo \<and> (\<nexists>name tag. tagged base name tag)))"
proof (cases base rule: lastTagSeparatorIndex_cases)
  case (tagged name tag)
  then have "take (length name) base = name" "base \<noteq> []"
    by (auto simp: tagged_def)
  moreover have "(\<exists>tag. tagged base repo tag) \<longleftrightarrow> repo = name"
    using tagged(1) tagged_unique by blast
  ultimately show ?thesis
    using assms tagged by (auto simp: parseOCIReferenceForUKI_def)
next
  case untagged
  then show ?thesis using assms by (auto simp: parseOCIReferenceForUKI_def)
qed

text \<open>C33: The parser of the default image reference accepts exactly the references of the
  form name:tag, name@digest and name:tag@digest; it returns the name without the tag, never
  cutting at the port of a registry, and it hands the reference on unchanged.\<close>

theorem parseOCIReferenceForUKI_correct:
  "parseOCIReferenceForUKI ref = Inr (repo, ref') \<longleftrightarrow> ref' = ref \<and> ukiReference ref repo"
proof (cases "CHR ''@'' \<in> set ref")
  case True
  then obtain base digest where ref: "ref = base @ CHR ''@'' # digest" "CHR ''@'' \<notin> set base"
    by (metis split_list_first)
  then have uniq: "base' = base \<and> digest' = digest"
    if "ref = base' @ CHR ''@'' # digest'" "CHR ''@'' \<notin> set base'" for base' digest'
    using that sep_unique by metis
  show ?thesis
    unfolding ukiReference_def using uniq ref
    by (auto simp: parseOCIReferenceForUKI_digest_form)
next
  case False
  then show ?thesis
    by (auto simp: ukiReference_def parseOCIReferenceForUKI_tag_form)
qed

section \<open>The URL of the default UKI\<close>

text \<open>The calls of a successful resolution, down to the layer whose digest is returned.\<close>

definition ukiDigestFound :: "lib \<Rightarrow> string \<Rightarrow> string \<Rightarrow> string \<Rightarrow> event list \<Rightarrow> bool" where
  "ukiDigestFound L imageRef arch digest es \<longleftrightarrow>
     (\<exists>name desc m es' layer. es = EResolve imageRef (Inr (name, desc)) # es' \<and>
        manifestFetched L name desc arch noOptions m es' \<and>
        List.find (\<lambda>layer. descMediaType layer = MediaTypeUKI) m = Some layer \<and>
        digest = descDigest layer)"

text \<open>
  Why a resolution fails: the reference cannot be resolved, its manifest cannot be found, or
  the manifest has no UKI layer.
\<close>

definition ukiDigestFailed :: "lib \<Rightarrow> string \<Rightarrow> string \<Rightarrow> event list \<Rightarrow> bool" where
  "ukiDigestFailed L imageRef arch es \<longleftrightarrow>
     (\<exists>err. es = [EResolve imageRef (Inl err)]) \<or>
     (\<exists>name desc es'. es = EResolve imageRef (Inr (name, desc)) # es' \<and>
        (manifestFailed L name desc arch noOptions es' \<or>
         (\<exists>m. manifestFetched L name desc arch noOptions m es' \<and>
            (\<forall>layer \<in> set m. descMediaType layer \<noteq> MediaTypeUKI))))"

fun isRegistryRead :: "event \<Rightarrow> bool" where
  "isRegistryRead (EResolve _ _) = True"
| "isRegistryRead e = (\<exists>n. isContentRead n e)"

lemma contentReads_registryRead: "contentReads n es \<Longrightarrow> list_all isRegistryRead es"
  unfolding contentReads_def list_all_iff
  by (metis event.exhaust isContentRead.simps isRegistryRead.simps)

lemma emits_getUKIDigest:
  assumes "\<And>d es. ukiDigestFound L imageRef arch d es \<Longrightarrow> list_all isRegistryRead es \<Longrightarrow> R (Inr d) es"
    and "\<And>err es. ukiDigestFailed L imageRef arch es \<Longrightarrow> list_all isRegistryRead es \<Longrightarrow> R (Inl err) es"
  shows "emits (getUKIDigestFromNestedManifest L E imageRef arch) R"
  unfolding getUKIDigestFromNestedManifest_def
  by (intro emits_rules emits_FindManifestByArchitecture)
    (auto intro!: assms simp: ukiDigestFound_def ukiDigestFailed_def findUKILayer_def find_None_iff
      dest: contentReads_registryRead split: option.split, blast+)

definition ukiFileURL :: "string \<Rightarrow> string \<Rightarrow> string \<Rightarrow> string" where
  "ukiFileURL server repository digest =
     server @ ''/'' @ repository @ ''/sha256-'' @ trimPrefix digest ''sha256:'' @ ''.efi''"

lemma emits_ConstructUKIURLFromOCI:
  assumes "\<And>repo ref d es. parseOCIReferenceForUKI img = Inr (repo, ref) \<Longrightarrow>
      ukiDigestFound L ref arch d es \<Longrightarrow> list_all isRegistryRead es \<Longrightarrow>
      R (Inr (ukiFileURL srv repo d)) es"
    and "\<And>err. parseOCIReferenceForUKI img = Inl err \<Longrightarrow> R (Inl err) []"
    and "\<And>repo ref err es. parseOCIReferenceForUKI img = Inr (repo, ref) \<Longrightarrow>
      ukiDigestFailed L ref arch es \<Longrightarrow> list_all isRegistryRead es \<Longrightarrow> R (Inl err) es"
  shows "emits (ConstructUKIURLFromOCI L E img srv arch) R"
  unfolding ConstructUKIURLFromOCI_def
  by (intro emits_rules emits_getUKIDigest)
    (auto intro!: assms(2) assms(1) [unfolded ukiFileURL_def, simplified] intro: assms(3))

end
