(* ===== verification/Samples.thy ===== *)
theory Samples
  imports World
begin

text \<open>
  A concrete environment and library, for the instances of the theorems that have
  hypotheses: in \<open>offlineEnv\<close> every call fails (the clock reads 0), and in \<open>sampleLib\<close>
  every decoder fails but for what an instance overrides.
\<close>

definition offlineEnv :: "'s env" where
  "offlineEnv =
    \<lparr>e_getSecret = \<lambda>_ _ s. (Inl (APIError ''offline''), s),
     e_getServer = \<lambda>_ _ s. (Inl (APIError ''offline''), s),
     e_getSBC = \<lambda>_ _ s. (Inl (APIError ''offline''), s),
     e_getHTTP = \<lambda>_ _ s. (Inl (APIError ''offline''), s),
     e_getIPXE = \<lambda>_ _ s. (Inl (APIError ''offline''), s),
     e_listHTTP = \<lambda>_ _ s. (Inl (APIError ''offline''), s),
     e_listIPXE = \<lambda>_ _ s. (Inl (APIError ''offline''), s),
     e_listSBC = \<lambda>_ _ s. (Inl (APIError ''offline''), s),
     e_patchHTTPStatus = \<lambda>_ _ s. (Some (APIError ''offline''), s),
     e_patchIPXEStatus = \<lambda>_ _ s. (Some (APIError ''offline''), s),
     e_patchSBCStatus = \<lambda>_ _ s. (Some (APIError ''offline''), s),
     e_applyHTTP = \<lambda>_ _ s. (Some (APIError ''offline''), s),
     e_applyIPXE = \<lambda>_ _ s. (Some (APIError ''offline''), s),
     e_create = \<lambda>_ _ s. (Some (APIError ''offline''), s),
     e_delete = \<lambda>_ _ s. (Some (APIError ''offline''), s),
     e_now = \<lambda>s. (0, s),
     e_write = \<lambda>_ s. (Some ''offline'', s),
     e_parseTemplate = \<lambda>_ s. (Some ''offline'', s),
     e_httpGet = \<lambda>_ s. (Inl ''offline'', s),
     e_httpDo = \<lambda>_ s. (Inl ''offline'', s),
     e_roundTrip = \<lambda>_ s. (Inl ''offline'', s),
     e_closeBody = \<lambda>_ s. ((), s),
     e_resolve = \<lambda>_ s. (Inl ''offline'', s),
     e_fetcher = \<lambda>_ s. (Some ''offline'', s),
     e_fetch = \<lambda>_ _ s. (Some ''offline'', s),
     e_readContent = \<lambda>_ _ s. (Inl ''offline'', s),
     e_closeReader = \<lambda>_ _ s. ((), s)\<rparr>"

definition sampleLib :: lib where
  "sampleLib =
    \<lparr>l_parseNormalizedNamed = \<lambda>_. Inl ''bad'', l_butaneTranslate = \<lambda>_. Inl ''bad'',
     l_decodeManifest = \<lambda>_. Inl ''bad'', l_decodeIndex = \<lambda>_. Inl ''bad'',
     l_mediaTypeImageIndex = ''application/vnd.oci.image.index.v1+json'',
     l_decodeToken = \<lambda>_. Inl ''bad'', l_location = \<lambda>_. Inl ''bad'', l_newRequest = \<lambda>_. None,
     l_metalGroupVersion = ''metal.ironcore.dev/v1alpha1'',
     l_setControllerReference = \<lambda>_ m. Inr m, l_setStatusCondition = \<lambda>_ cs _. cs,
     l_getInto = \<lambda>_ new. new, l_removeStatusCondition = \<lambda>cs _. cs\<rparr>"

definition startWorld :: "'s \<Rightarrow> 's world" where
  "startWorld s = \<lparr>ext = s, trace = []\<rparr>"

definition emptyIPXE :: "string \<Rightarrow> string \<Rightarrow> ipxe_boot_config" where
  "emptyIPXE ns n =
    \<lparr>ipxeType = emptyGVK, ipxeMeta = newMeta ns n,
     ipxeSpec = \<lparr>ipxeSystemUUID = [], ipxeSystemIPs = [], ipxeImage = [], ipxeKernelURL = [],
       ipxeInitrdURL = [], ipxeSquashfsURL = [], ipxeIPXEServerURL = [],
       ipxeIgnitionSecretRef = None, ipxeIPXEScriptSecretRef = None\<rparr>,
     ipxeStatus = \<lparr>ipxeState = [], ipxeConditions = []\<rparr>\<rparr>"

definition emptyHTTP :: "string \<Rightarrow> string \<Rightarrow> http_boot_config" where
  "emptyHTTP ns n =
    \<lparr>httpType = emptyGVK, httpMeta = newMeta ns n,
     httpSpec = \<lparr>httpSystemUUID = [], httpIgnitionSecretRef = None, httpNetworkIdentifiers = [],
       httpUKIURL = []\<rparr>,
     httpStatus = \<lparr>httpState = [], httpConditions = []\<rparr>\<rparr>"

end
