(* ===== verification/BootServer.thy ===== *)
theory BootServer
  imports BootSelect Conditions Uki Registry Samples
begin

text \<open>
  The boot server, \<^verbatim>\<open>server/bootserver.go\<close>: the handlers of \<open>/ipxe/\<close>,
  \<open>/httpboot\<close> and \<open>/ignition/\<close>, each with all its branches. The response writer is a value
  (\<open>response_writer\<close>) that the handler builds; a nil dereference, which \<^verbatim>\<open>net/http\<close>
  turns into an aborted connection, is the outcome \<open>Panic\<close>.
\<close>

section \<open>The response writer\<close>

record response_writer =
  rwStatus :: "nat option"
  rwContentType :: string
  rwBody :: "chunk list"

definition newResponse :: response_writer where
  "newResponse = \<lparr>rwStatus = None, rwContentType = [], rwBody = []\<rparr>"

text \<open>The first status wins: \<open>net/http\<close> ignores a second \<open>WriteHeader\<close>.\<close>

definition writeHeader :: "nat \<Rightarrow> response_writer \<Rightarrow> response_writer" where
  "writeHeader code w = (if rwStatus w = None then w\<lparr>rwStatus := Some code\<rparr> else w)"

definition httpError :: "string \<Rightarrow> nat \<Rightarrow> response_writer \<Rightarrow> response_writer" where
  "httpError msg code w =
     (let w' = writeHeader code (w\<lparr>rwContentType := ''text/plain; charset=utf-8''\<rparr>)
      in w'\<lparr>rwBody := rwBody w' @ [Text (msg @ [CHR 0x0A])]\<rparr>)"

definition setContentType :: "string \<Rightarrow> response_writer \<Rightarrow> response_writer" where
  "setContentType ct w = w\<lparr>rwContentType := ct\<rparr>"

text \<open>\<open>w.Write\<close>: an implicit status 200; on an error nothing of the chunk is accounted for.\<close>

definition rwWrite ::
  "'s env \<Rightarrow> chunk \<Rightarrow> response_writer \<Rightarrow> ('s, 'z, string option \<times> response_writer) io" where
  "rwWrite E c w = do {
     err \<leftarrow> writeChunk E c;
     (let w' = writeHeader 200 w in
      ret (err, if err = None then w'\<lparr>rwBody := rwBody w' @ [c]\<rparr> else w')) }"

datatype outcome = Reply response_writer | Panic

fun statusOf :: "outcome \<Rightarrow> nat option" where
  "statusOf (Reply w) = rwStatus w"
| "statusOf Panic = None"

section \<open>Templates\<close>

record ipxe_template_data =
  tdKernelURL :: string
  tdInitrdURL :: string
  tdSquashfsURL :: string
  tdRegistryURL :: string
  tdIPXEServerURL :: string

abbreviation nl :: string where "nl \<equiv> [CHR 0x0A]"

text \<open>\<^verbatim>\<open>templates/ipxe-script.tpl\<close> and \<^verbatim>\<open>templates/ipxe-chainload.tpl\<close>.\<close>

definition renderIPXEScript :: "ipxe_template_data \<Rightarrow> string" where
  "renderIPXEScript d =
     ''#!ipxe'' @ nl @ nl
     @ ''set ipxe-svc '' @ tdIPXEServerURL d @ nl
     @ ''set kernel-url '' @ tdKernelURL d @ nl
     @ ''set initrd-url '' @ tdInitrdURL d @ nl
     @ (if tdSquashfsURL d \<noteq> [] then ''set squashfs-url '' @ tdSquashfsURL d @ nl else []) @ nl
     @ ''echo Loading kernel...'' @ nl
     @ ''kernel ${kernel-url} initrd=initrd''
     @ (if tdSquashfsURL d \<noteq> [] then '' gl.ovl=/:tmpfs gl.url=${squashfs-url} gl.live=1'' else [])
     @ '' ip=any ignition.firstboot=1 ignition.config.url=${ipxe-svc}/ignition/${uuid}''
     @ '' ignition.platform.id=metal console=ttyS0,115200 console=tty0 console=ttyAMA0''
     @ '' earlyprintk=ttyS0,115200 consoleblank=0'' @ nl
     @ ''echo Loading initrd...'' @ nl
     @ ''initrd ${initrd-url}'' @ nl
     @ ''echo Booting...'' @ nl
     @ ''boot'' @ nl"

definition renderIPXEChain :: "ipxe_template_data \<Rightarrow> string" where
  "renderIPXEChain d =
     ''#!ipxe'' @ nl @ nl
     @ ''set ipxe-svc '' @ tdIPXEServerURL d @ nl @ nl
     @ ''set base-url ${ipxe-svc}/ipxe'' @ nl
     @ ''chain --replace --autofree ${base-url}/${uuid}''"

definition serveDefaultIPXETemplate ::
  "'s env \<Rightarrow> ipxe_template_data \<Rightarrow> response_writer \<Rightarrow> ('s, 'z, response_writer) io" where
  "serveDefaultIPXETemplate E data w = do {
     perr \<leftarrow> parseTemplate E ''templates/ipxe-script.tpl'';
     (case perr of
        Some err \<Rightarrow> ret (httpError ''Internal Server Error'' 500 w)
      | None \<Rightarrow> do {
          (xerr, w) \<leftarrow> rwWrite E (Text (renderIPXEScript data)) w;
          ret (if xerr \<noteq> None then httpError ''Internal Server Error'' 500 w else w) }) }"

definition serveDefaultIPXEChainTemplate ::
  "'s env \<Rightarrow> ipxe_template_data \<Rightarrow> response_writer \<Rightarrow> ('s, 'z, response_writer) io" where
  "serveDefaultIPXEChainTemplate E data w = do {
     perr \<leftarrow> parseTemplate E ''templates/ipxe-chainload.tpl'';
     (case perr of
        Some err \<Rightarrow> ret (httpError ''Internal Server Error'' 500 w)
      | None \<Rightarrow> do {
          (xerr, w) \<leftarrow> rwWrite E (Text (renderIPXEChain data)) w;
          ret (if xerr \<noteq> None then httpError ''Internal Server Error'' 500 w else w) }) }"

section \<open>GET /ipxe/\<close>

definition handleIPXE ::
  "lib \<Rightarrow> 's env \<Rightarrow> string \<Rightarrow> string \<Rightarrow> ('s, 'z, outcome) io" where
  "handleIPXE L E path ipxeServiceURL =
     (let w = newResponse in
      if ipxeServiceURL = [] then ret (Reply (httpError ''iPXE is disabled'' 503 w))
      else let uuid = trimPrefix path ''/ipxe/'' in
      if uuid = [] then do {
        w \<leftarrow> serveDefaultIPXEChainTemplate E
          \<lparr>tdKernelURL = [], tdInitrdURL = [], tdSquashfsURL = [], tdRegistryURL = [],
           tdIPXEServerURL = ipxeServiceURL\<rparr> w;
        ret (Reply w) }
      else do {
        listed \<leftarrow> listIPXE E ManagerClient (MatchingFields SystemUUIDIndexKey uuid);
        (let items = (case listed of Inl err \<Rightarrow> [] | Inr xs \<Rightarrow> xs) in
         if (case listed of Inl err \<Rightarrow> \<not> isNotFound err | Inr xs \<Rightarrow> False)
         then ret (Reply (httpError ''Internal Server Error'' 500 w))
         else if items = [] then ret (Reply (httpError ''Resource Not Found'' 404 w))
         else do {
           sel \<leftarrow> selectBootConfig L E ipxeMeta items;
           (case sel of
              Inl err \<Rightarrow> ret (Reply (httpError ''Internal Server Error'' 500 w))
            | Inr config \<Rightarrow>
                (case ipxeIPXEScriptSecretRef (ipxeSpec config) of
                   Some ref \<Rightarrow> do {
                     got \<leftarrow> getSecret E ManagerClient (NN (metaNamespace (ipxeMeta config)) ref);
                     (case got of
                        Inl err \<Rightarrow> ret (Reply (httpError ''Internal Server Error'' 500 w))
                      | Inr secret \<Rightarrow>
                          (case secretData secret DefaultIPXEScriptKey of
                             None \<Rightarrow> ret (Reply (httpError ''Internal Server Error'' 500 w))
                           | Some ipxeScript \<Rightarrow> do {
                               (werr, w) \<leftarrow> rwWrite E (Text (bytesOf ipxeScript)) w;
                               ret (Reply (if werr \<noteq> None
                                 then httpError ''Internal Server Error'' 500 w else w)) })) }
                 | None \<Rightarrow> do {
                     w \<leftarrow> serveDefaultIPXETemplate E
                       \<lparr>tdKernelURL = ipxeKernelURL (ipxeSpec config),
                        tdInitrdURL = ipxeInitrdURL (ipxeSpec config),
                        tdSquashfsURL = ipxeSquashfsURL (ipxeSpec config),
                        tdRegistryURL = [],
                        tdIPXEServerURL = ipxeServiceURL\<rparr> w;
                     SetStatusCondition E (IPXEObj config) ''IPXEScriptFetched'';
                     ret (Reply w) })) }) })"

section \<open>Ignition\<close>

definition fetchIgnitionData ::
  "'s env \<Rightarrow> namespaced_name \<Rightarrow> ('s, 'z, (api_error option) + (gobytes \<times> string)) io" where
  "fetchIgnitionData E ignitionSecret = do {
     got \<leftarrow> getSecret E ManagerClient ignitionSecret;
     ret (case got of
        Inl err \<Rightarrow> Inl (Some err)
      | Inr secretObj \<Rightarrow>
          (case secretData secretObj DefaultIgnitionKey of
             None \<Rightarrow> Inl None
           | Some ignitionData \<Rightarrow>
               Inr (ignitionData, bytesOf (dataIndex (secretData secretObj) DefaultFormatKey)))) }"

definition renderIgnition :: "lib \<Rightarrow> string \<Rightarrow> string + string" where
  "renderIgnition L yamlData =
     (case l_butaneTranslate L yamlData of
        Inl err \<Rightarrow> Inl (''translation error from butane '' @ err)
      | Inr jsonData \<Rightarrow> Inr jsonData)"

text \<open>
  The common end of both ignition handlers, \<open>handleIgnitionIPXEBoot\<close> (lines 216 to 261) and
  \<open>handleIgnitionHTTPBoot\<close> (lines 328 to 373), from the choice of the configuration on; the text of
  the two is the same but for the type of the configuration, which is passed as its
  metadata, its secret reference and its view as a \<open>client.Object\<close>.
\<close>

definition serveIgnition ::
  "lib \<Rightarrow> 's env \<Rightarrow> ('a \<Rightarrow> object_meta) \<Rightarrow> ('a \<Rightarrow> string option) \<Rightarrow> ('a \<Rightarrow> client_object) \<Rightarrow>
     'a list \<Rightarrow> response_writer \<Rightarrow> ('s, 'z, outcome) io" where
  "serveIgnition L E getMeta ignitionSecretRef toObject items w = do {
     sel \<leftarrow> selectBootConfig L E getMeta items;
     (case sel of
        Inl err \<Rightarrow> ret (Reply (httpError ''Internal Server Error'' 500 w))
      | Inr config \<Rightarrow>
          (case ignitionSecretRef config of
             None \<Rightarrow> ret Panic \<comment> \<open>\<open>config.Spec.IgnitionSecretRef.Name\<close> of a nil pointer\<close>
           | Some ref \<Rightarrow> do {
               fetched \<leftarrow> fetchIgnitionData E (NN (metaNamespace (getMeta config)) ref);
               (case fetched of
                  Inl err \<Rightarrow> ret (Reply (httpError ''Resource Not Found'' 404 w))
                | Inr (ignitionData, ignitionFormat) \<Rightarrow>
                    (case (if trimSpace ignitionFormat = FCOSFormat
                           then renderIgnition L (bytesOf ignitionData)
                           else Inr (bytesOf ignitionData)) of
                       Inl err \<Rightarrow> ret (Reply (httpError ''Internal Server Error'' 500 w))
                     | Inr ignitionJSONData \<Rightarrow> do {
                         (werr, w) \<leftarrow> rwWrite E (Text ignitionJSONData) (writeHeader 200 w);
                         (if werr \<noteq> None
                          then ret (Reply (httpError ''Internal Server Error'' 500 w))
                          else do {
                            SetStatusCondition E (toObject config) ''IgnitionDataFetched'';
                            ret (Reply w) }) })) })) }"

definition handleIgnitionIPXEBoot :: "lib \<Rightarrow> 's env \<Rightarrow> string \<Rightarrow> ('s, 'z, outcome) io" where
  "handleIgnitionIPXEBoot L E uuid =
     (let w = newResponse;
          serve = serveIgnition L E ipxeMeta (\<lambda>x. ipxeIgnitionSecretRef (ipxeSpec x)) IPXEObj
      in do {
        listed \<leftarrow> listIPXE E ManagerClient (MatchingFields SystemUUIDIndexKey uuid);
        (case listed of
           Inl err \<Rightarrow> ret (Reply (httpError ''Internal Server Error'' 500 w))
         | Inr items \<Rightarrow>
             if items \<noteq> [] then serve items w
             else do {
               listed \<leftarrow> listIPXE E ManagerClient (MatchingFields SystemUUIDIndexKey (toUpper uuid));
               (case listed of
                  Inl err \<Rightarrow> ret (Reply (httpError ''Internal Server Error'' 500 w))
                | Inr items \<Rightarrow>
                    if items \<noteq> [] then serve items w
                    else do {
                      listed \<leftarrow> listIPXE E ManagerClient
                        (MatchingFields SystemUUIDIndexKey (toLower uuid));
                      (case listed of
                         Inl err \<Rightarrow> ret (Reply (httpError ''Internal Server Error'' 500 w))
                       | Inr items \<Rightarrow>
                           if items = [] then ret (Reply (httpError ''Resource Not Found'' 404 w))
                           else serve items w) }) }) })"

definition handleIgnitionHTTPBoot :: "lib \<Rightarrow> 's env \<Rightarrow> string \<Rightarrow> ('s, 'z, outcome) io" where
  "handleIgnitionHTTPBoot L E uuid =
     (let w = newResponse;
          serve = serveIgnition L E httpMeta (\<lambda>x. httpIgnitionSecretRef (httpSpec x)) HTTPObj
      in do {
        listed \<leftarrow> listHTTP E ManagerClient (MatchingFields SystemUUIDIndexKey uuid);
        (case listed of
           Inl err \<Rightarrow> ret (Reply (httpError ''Resource Not Found'' 404 w))
         | Inr items \<Rightarrow>
             if items \<noteq> [] then serve items w
             else do {
               listed \<leftarrow> listHTTP E ManagerClient (MatchingFields SystemUUIDIndexKey (toUpper uuid));
               (case listed of
                  Inl err \<Rightarrow> ret (Reply (httpError ''Internal Server Error'' 500 w))
                | Inr items \<Rightarrow>
                    if items \<noteq> [] then serve items w
                    else do {
                      listed \<leftarrow> listHTTP E ManagerClient
                        (MatchingFields SystemUUIDIndexKey (toLower uuid));
                      (case listed of
                         Inl err \<Rightarrow> ret (Reply (httpError ''Internal Server Error'' 500 w))
                       | Inr items \<Rightarrow>
                           if items = [] then ret (Reply (httpError ''Resource Not Found'' 404 w))
                           else serve items w) }) }) })"

text \<open>The handler of \<open>/ignition/\<close> that \<open>RunBootServer\<close> registers.\<close>

definition ignitionRoute :: "lib \<Rightarrow> 's env \<Rightarrow> string \<Rightarrow> ('s, 'z, outcome) io" where
  "ignitionRoute L E path =
     (let w = newResponse; uuid = pathBase path in
      if uuid = [] then ret (Reply (httpError ''Bad Request: UUID is required'' 400 w))
      else do {
        listed \<leftarrow> listIPXE E ManagerClient (MatchingFields SystemUUIDIndexKey uuid);
        (if (case listed of Inl err \<Rightarrow> \<not> isNotFound err | Inr xs \<Rightarrow> False)
         then ret (Reply (httpError ''Internal Server Error'' 500 w))
         else if (case listed of Inl err \<Rightarrow> [] | Inr xs \<Rightarrow> xs) \<noteq> []
         then handleIgnitionIPXEBoot L E uuid
         else do {
           listed \<leftarrow> listIPXE E ManagerClient (MatchingFields SystemUUIDIndexKey (toUpper uuid));
           (if (case listed of Inl err \<Rightarrow> \<not> isNotFound err | Inr xs \<Rightarrow> False)
            then ret (Reply (httpError ''Internal Server Error'' 500 w))
            else if (case listed of Inl err \<Rightarrow> [] | Inr xs \<Rightarrow> xs) = []
            then handleIgnitionHTTPBoot L E uuid
            else handleIgnitionIPXEBoot L E uuid) }) })"

section \<open>GET /httpboot\<close>

definition parseForwardedFor :: "string \<Rightarrow> string list" where
  "parseForwardedFor xff =
     (if xff = [] then [] else filter (\<lambda>ip. ip \<noteq> []) (map trimSpace (splitOn (CHR '','') xff)))"

text \<open>The loop over the client addresses: a failed list is skipped, the first hit ends it.\<close>

primrec lookupByIPs :: "'s env \<Rightarrow> string list \<Rightarrow> ('s, 'z, http_boot_config list) io" where
  "lookupByIPs E [] = ret []"
| "lookupByIPs E (ip # ips) = do {
     listed \<leftarrow> listHTTP E ManagerClient (MatchingFields NetworkIdentifierIndexKey ip);
     (case listed of
        Inl err \<Rightarrow> lookupByIPs E ips
      | Inr items \<Rightarrow> if items \<noteq> [] then ret items else lookupByIPs E ips) }"

record boot_server_config =
  bsRegistryValidator :: "validator option"
  bsDefaultOCIImage :: string
  bsDefaultUKIURL :: string
  bsImageServerURL :: string
  bsArchitecture :: string

text \<open>The default answer: the status and message of an error, or the UKI URL.\<close>

definition defaultUKI :: "lib \<Rightarrow> 's env \<Rightarrow> boot_server_config \<Rightarrow> ('s, 'z, string + string) io" where
  "defaultUKI L E cfg =
     (if bsDefaultOCIImage cfg = [] \<and> bsDefaultUKIURL cfg = [] then
        ret (Inl ''HTTP boot is not configured (missing default UKI)'')
      else if bsDefaultOCIImage cfg \<noteq> [] then
        (if (case bsRegistryValidator cfg of
               Some v \<Rightarrow> ValidateImageRegistry L v (bsDefaultOCIImage cfg) \<noteq> None
             | None \<Rightarrow> False)
         then ret (Inl ''Internal Server Error'')
         else if trimSpace (bsImageServerURL cfg) = [] then ret (Inl ''Internal Server Error'')
         else do {
           constructed \<leftarrow> ConstructUKIURLFromOCI L E (bsDefaultOCIImage cfg)
             (bsImageServerURL cfg) (bsArchitecture cfg);
           ret (case constructed of
              Inl err \<Rightarrow> Inl ''Internal Server Error''
            | Inr constructedURL \<Rightarrow> Inr constructedURL) })
      else ret (Inr (bsDefaultUKIURL cfg)))"

definition handleHTTPBoot ::
  "lib \<Rightarrow> 's env \<Rightarrow> boot_server_config \<Rightarrow> string \<Rightarrow> ('s, 'z, outcome) io" where
  "handleHTTPBoot L E cfg xff =
     (let w = newResponse; clientIPs = parseForwardedFor xff in
      do {
        httpBootConfigs \<leftarrow> lookupByIPs E clientIPs;
        responseData \<leftarrow>
          (if httpBootConfigs = [] then do {
             u \<leftarrow> defaultUKI L E cfg;
             ret (case u of
                Inl msg \<Rightarrow> Inl msg
              | Inr ukiURL \<Rightarrow>
                  Inr [(''ClientIPs'', joinWith '','' clientIPs), (''UKIURL'', ukiURL)]) }
           else do {
             sel \<leftarrow> selectBootConfig L E httpMeta httpBootConfigs;
             ret (case sel of
                Inl err \<Rightarrow> Inl ''Internal Server Error''
              | Inr httpBootConfig \<Rightarrow>
                  Inr [(''ClientIPs'', joinWith '','' clientIPs),
                       (''SystemUUID'', httpSystemUUID (httpSpec httpBootConfig)),
                       (''UKIURL'', httpUKIURL (httpSpec httpBootConfig))]) });
        (case responseData of
           Inl msg \<Rightarrow> ret (Reply (httpError msg 500 w))
         | Inr obj \<Rightarrow> do {
             (werr, w) \<leftarrow> rwWrite E (JSONObject obj) (setContentType ''application/json'' w);
             ret (Reply (if werr \<noteq> None
               then httpError ''Internal Server Error'' 500 w else w)) }) })"

section \<open>Writing to the response\<close>

lemma emits_rwWrite [emits_rules]:
  assumes "\<And>err. R (err, let w' = writeHeader 200 w in
      if err = None then w'\<lparr>rwBody := rwBody w' @ [c]\<rparr> else w') [EWrite c err]"
  shows "emits (rwWrite E c w) R"
  unfolding rwWrite_def Let_def
  by (intro emits_rules) (use assms in \<open>simp add: Let_def\<close>)

lemma writeHeader_simps [simp]:
  "rwStatus (writeHeader c w) = (if rwStatus w = None then Some c else rwStatus w)"
  "rwBody (writeHeader c w) = rwBody w" "rwContentType (writeHeader c w) = rwContentType w"
  by (simp_all add: writeHeader_def)

lemma httpError_simps [simp]:
  "rwStatus (httpError m c w) = (if rwStatus w = None then Some c else rwStatus w)"
  "rwBody (httpError m c w) = rwBody w @ [Text (m @ [CHR 0x0A])]"
  by (simp_all add: httpError_def Let_def)

lemma newResponse_simps [simp]: "rwStatus newResponse = None" "rwBody newResponse = []"
  by (simp_all add: newResponse_def)

lemma predefinedConditions_Some [simp]:
  "predefinedConditions ''IgnitionDataFetched'' \<noteq> None"
  "predefinedConditions ''IPXEScriptFetched'' \<noteq> None"
  by (simp_all add: predefinedConditions_def)

section \<open>What the ignition endpoint delivers\<close>

definition ignitionPayload :: "lib \<Rightarrow> secret \<Rightarrow> string \<Rightarrow> bool" where
  "ignitionPayload L secret b \<longleftrightarrow>
     (\<exists>v. secretData secret DefaultIgnitionKey = Some v \<and>
        (if trimSpace (bytesOf (dataIndex (secretData secret) DefaultFormatKey)) = FCOSFormat
         then l_butaneTranslate L (bytesOf v) = Inr b else b = bytesOf v))"

text \<open>
  The complete behaviour of the ignition handlers once a configuration list is found: the
  calls they make, in order, and the answer.
\<close>

inductive ignitionServed ::
  "lib \<Rightarrow> ('a \<Rightarrow> object_meta) \<Rightarrow> ('a \<Rightarrow> string option) \<Rightarrow> ('a \<Rightarrow> client_object) \<Rightarrow> 'a list \<Rightarrow>
     outcome \<Rightarrow> event list \<Rightarrow> bool"
  for L getMeta ignitionSecretRef toObject items where
  not_selected:
    "list_all isOwnerLookup es \<Longrightarrow> selects L getMeta items es (Inl err) \<Longrightarrow>
       statusOf out = Some 500 \<Longrightarrow> ignitionServed L getMeta ignitionSecretRef toObject items out es"
| no_secret_ref:
    "list_all isOwnerLookup es \<Longrightarrow> selected L getMeta items es config \<Longrightarrow>
       ignitionSecretRef config = None \<Longrightarrow>
       ignitionServed L getMeta ignitionSecretRef toObject items Panic es"
| no_data:
    "list_all isOwnerLookup es \<Longrightarrow> selected L getMeta items es config \<Longrightarrow>
       ignitionSecretRef config = Some ref \<Longrightarrow>
       (\<nexists>secret v. got = Inr secret \<and> secretData secret DefaultIgnitionKey = Some v) \<Longrightarrow>
       statusOf out = Some 404 \<Longrightarrow>
       ignitionServed L getMeta ignitionSecretRef toObject items out
         (es @ [EGetSecret ManagerClient (NN (metaNamespace (getMeta config)) ref) got])"
| not_translated:
    "list_all isOwnerLookup es \<Longrightarrow> selected L getMeta items es config \<Longrightarrow>
       ignitionSecretRef config = Some ref \<Longrightarrow>
       secretData secret DefaultIgnitionKey = Some v \<Longrightarrow>
       (\<nexists>b. ignitionPayload L secret b) \<Longrightarrow> statusOf out = Some 500 \<Longrightarrow>
       ignitionServed L getMeta ignitionSecretRef toObject items out
         (es @ [EGetSecret ManagerClient (NN (metaNamespace (getMeta config)) ref) (Inr secret)])"
| write_failed:
    "list_all isOwnerLookup es \<Longrightarrow> selected L getMeta items es config \<Longrightarrow>
       ignitionSecretRef config = Some ref \<Longrightarrow> ignitionPayload L secret b \<Longrightarrow>
       statusOf out = Some 200 \<Longrightarrow>
       ignitionServed L getMeta ignitionSecretRef toObject items out
         (es @ [EGetSecret ManagerClient (NN (metaNamespace (getMeta config)) ref) (Inr secret),
                EWrite (Text b) (Some err)])"
| delivered:
    "list_all isOwnerLookup es \<Longrightarrow> selected L getMeta items es config \<Longrightarrow>
       ignitionSecretRef config = Some ref \<Longrightarrow> ignitionPayload L secret b \<Longrightarrow>
       conditionPatch (toObject config) ''IgnitionDataFetched'' p \<Longrightarrow>
       rwStatus w = Some 200 \<Longrightarrow> rwBody w = [Text b] \<Longrightarrow>
       ignitionServed L getMeta ignitionSecretRef toObject items (Reply w)
         (es @ [EGetSecret ManagerClient (NN (metaNamespace (getMeta config)) ref) (Inr secret),
                EWrite (Text b) None, ENow now, p])"

lemma emits_fetchIgnitionData [emits_rules]:
  assumes "\<And>got. (\<nexists>secret v. got = Inr secret \<and> secretData secret DefaultIgnitionKey = Some v) \<Longrightarrow>
      R (Inl (case got of Inl e \<Rightarrow> Some e | Inr _ \<Rightarrow> None)) [EGetSecret ManagerClient k got]"
    and "\<And>secret v. secretData secret DefaultIgnitionKey = Some v \<Longrightarrow>
      R (Inr (v, bytesOf (dataIndex (secretData secret) DefaultFormatKey)))
        [EGetSecret ManagerClient k (Inr secret)]"
  shows "emits (fetchIgnitionData E k) R"
  unfolding fetchIgnitionData_def
proof (intro emits_rules)
  fix got
  show "R (case got of Inl err \<Rightarrow> Inl (Some err)
      | Inr secretObj \<Rightarrow> (case secretData secretObj DefaultIgnitionKey of None \<Rightarrow> Inl None
        | Some d \<Rightarrow> Inr (d, bytesOf (dataIndex (secretData secretObj) DefaultFormatKey))))
      ([EGetSecret ManagerClient k got] @ [])"
    using assms(1) [of got] assms(2)
    by (cases got) (auto split: option.split)
qed

text \<open>
  The two kinds of boot configuration, for the code that is written once for each of them.
\<close>

locale boot_config_kind = object_metadata getMeta setMeta
  for getMeta :: "'a \<Rightarrow> object_meta" and setMeta +
  fixes ignitionSecretRef :: "'a \<Rightarrow> string option"
    and toObject :: "'a \<Rightarrow> client_object"
  assumes toObject_meta: "objectMeta (toObject x) = getMeta x"
    and toObject_boot: "toObject x \<noteq> SecretObj s"
begin

lemma emits_condition:
  assumes "predefinedConditions t \<noteq> None"
    and "\<And>now p err. conditionPatch (toObject x) t p \<Longrightarrow> R err [ENow now, p]"
  shows "emits (SetStatusCondition E (toObject x) t) R"
  using assms toObject_boot by (intro emits_SetStatusCondition) auto

lemma emits_serveIgnition:
  "emits (serveIgnition L E getMeta ignitionSecretRef toObject items newResponse)
    (ignitionServed L getMeta ignitionSecretRef toObject items)"
  unfolding serveIgnition_def
  apply (intro emits_rules emits_condition emits_select)
  apply (simp_all add: ignitionPayload_def renderIgnition_def predefinedConditions_def
      split: sum.splits if_splits)
  by (auto intro: ignitionServed.intros simp: ignitionPayload_def)

end

interpretation ipxe_kind: boot_config_kind ipxeMeta ipxeSetMeta
    "\<lambda>x. ipxeIgnitionSecretRef (ipxeSpec x)" IPXEObj
  by unfold_locales simp_all

interpretation http_kind: boot_config_kind httpMeta httpSetMeta
    "\<lambda>x. httpIgnitionSecretRef (httpSpec x)" HTTPObj
  by unfold_locales simp_all

text \<open>
  The lookups before it: the UUID as requested, in upper case and in lower case, each only
  when the one before found nothing.
\<close>

definition uuidQueries :: "string \<Rightarrow> string list" where
  "uuidQueries uuid = [uuid, toUpper uuid, toLower uuid]"

definition uuidLookup ::
  "(api_client \<Rightarrow> list_opts \<Rightarrow> api_error + 'a list \<Rightarrow> event) \<Rightarrow> string \<Rightarrow>
     api_error + 'a list \<Rightarrow> event" where
  "uuidLookup ev q = ev ManagerClient (MatchingFields SystemUUIDIndexKey q)"

definition misses ::
  "(api_client \<Rightarrow> list_opts \<Rightarrow> api_error + 'a list \<Rightarrow> event) \<Rightarrow> string \<Rightarrow> nat \<Rightarrow> event list" where
  "misses ev uuid k = map (\<lambda>q. uuidLookup ev q (Inr [])) (take k (uuidQueries uuid))"

inductive ignitionHandled ::
  "lib \<Rightarrow> ('a \<Rightarrow> object_meta) \<Rightarrow> ('a \<Rightarrow> string option) \<Rightarrow> ('a \<Rightarrow> client_object) \<Rightarrow>
     (api_client \<Rightarrow> list_opts \<Rightarrow> api_error + 'a list \<Rightarrow> event) \<Rightarrow> string \<Rightarrow>
     outcome \<Rightarrow> event list \<Rightarrow> bool"
  for L getMeta ignitionSecretRef toObject ev uuid where
  lookup_failed:
    "k < 3 \<Longrightarrow> statusOf out \<in> {Some 404, Some 500} \<Longrightarrow>
       ignitionHandled L getMeta ignitionSecretRef toObject ev uuid out
         (misses ev uuid k @ [uuidLookup ev (uuidQueries uuid ! k) (Inl err)])"
| no_config:
    "statusOf out = Some 404 \<Longrightarrow>
       ignitionHandled L getMeta ignitionSecretRef toObject ev uuid out (misses ev uuid 3)"
| found:
    "k < 3 \<Longrightarrow> items \<noteq> [] \<Longrightarrow>
       ignitionServed L getMeta ignitionSecretRef toObject items out es \<Longrightarrow>
       ignitionHandled L getMeta ignitionSecretRef toObject ev uuid out
         (misses ev uuid k @ [uuidLookup ev (uuidQueries uuid ! k) (Inr items)] @ es)"

lemma misses_simps [simp]:
  "misses ev uuid 0 = []"
  "misses ev uuid 1 = [uuidLookup ev uuid (Inr [])]"
  "misses ev uuid (Suc 0) = [uuidLookup ev uuid (Inr [])]"
  "misses ev uuid 2 = [uuidLookup ev uuid (Inr []), uuidLookup ev (toUpper uuid) (Inr [])]"
  "misses ev uuid 3 = [uuidLookup ev uuid (Inr []), uuidLookup ev (toUpper uuid) (Inr []),
     uuidLookup ev (toLower uuid) (Inr [])]"
  by (simp_all add: misses_def uuidQueries_def)

lemma uuidQueries_nth [simp]:
  "uuidQueries u ! 0 = u" "uuidQueries u ! 1 = toUpper u" "uuidQueries u ! Suc 0 = toUpper u"
  "uuidQueries u ! 2 = toLower u"
  by (simp_all add: uuidQueries_def)

lemmas ignitionHandled_steps =
  ignitionHandled.lookup_failed [where k = 0, simplified]
  ignitionHandled.lookup_failed [where k = 1, simplified]
  ignitionHandled.lookup_failed [where k = 2, simplified]
  ignitionHandled.no_config [simplified]
  ignitionHandled.found [where k = 0, simplified]
  ignitionHandled.found [where k = 1, simplified]
  ignitionHandled.found [where k = 2, simplified]

lemma emits_handleIgnitionIPXEBoot:
  "emits (handleIgnitionIPXEBoot L E uuid) (ignitionHandled L ipxeMeta
     (\<lambda>x. ipxeIgnitionSecretRef (ipxeSpec x)) IPXEObj EListIPXE uuid)"
  unfolding handleIgnitionIPXEBoot_def Let_def
  by (intro emits_rules emits_conseq [OF ipxe_kind.emits_serveIgnition])
    (simp_all add: ignitionHandled_steps [unfolded uuidLookup_def])

lemma emits_handleIgnitionHTTPBoot:
  "emits (handleIgnitionHTTPBoot L E uuid) (ignitionHandled L httpMeta
     (\<lambda>x. httpIgnitionSecretRef (httpSpec x)) HTTPObj EListHTTP uuid)"
  unfolding handleIgnitionHTTPBoot_def Let_def
  by (intro emits_rules emits_conseq [OF http_kind.emits_serveIgnition])
    (simp_all add: ignitionHandled_steps [unfolded uuidLookup_def])

section \<open>What the iPXE endpoint delivers\<close>

text \<open>Serving a template: the answer is the rendered script, or an internal error.\<close>

definition templateServed :: "string \<Rightarrow> string \<Rightarrow> response_writer \<Rightarrow> event list \<Rightarrow> bool" where
  "templateServed file script w es \<longleftrightarrow>
     (es = [EParseTemplate file None, EWrite (Text script) None] \<and>
        rwStatus w = Some 200 \<and> rwBody w = [Text script]) \<or>
     (\<exists>err. es = [EParseTemplate file None, EWrite (Text script) (Some err)]) \<or>
     (\<exists>err. es = [EParseTemplate file (Some err)] \<and> rwStatus w = Some 500)"

lemma emits_serveDefaultIPXETemplate:
  "emits (serveDefaultIPXETemplate E d newResponse)
    (templateServed ''templates/ipxe-script.tpl'' (renderIPXEScript d))"
  unfolding serveDefaultIPXETemplate_def
  by (intro emits_rules) (auto simp: templateServed_def Let_def)

lemma emits_serveDefaultIPXEChainTemplate:
  "emits (serveDefaultIPXEChainTemplate E d newResponse)
    (templateServed ''templates/ipxe-chainload.tpl'' (renderIPXEChain d))"
  unfolding serveDefaultIPXEChainTemplate_def
  by (intro emits_rules) (auto simp: templateServed_def Let_def)

definition scriptData :: "ipxe_boot_config \<Rightarrow> string \<Rightarrow> ipxe_template_data" where
  "scriptData config svc =
     \<lparr>tdKernelURL = ipxeKernelURL (ipxeSpec config), tdInitrdURL = ipxeInitrdURL (ipxeSpec config),
      tdSquashfsURL = ipxeSquashfsURL (ipxeSpec config), tdRegistryURL = [],
      tdIPXEServerURL = svc\<rparr>"

definition chainData :: "string \<Rightarrow> ipxe_template_data" where
  "chainData svc = \<lparr>tdKernelURL = [], tdInitrdURL = [], tdSquashfsURL = [], tdRegistryURL = [],
      tdIPXEServerURL = svc\<rparr>"

text \<open>The complete behaviour of the handler: the calls it makes, in order, and the answer.\<close>

inductive ipxeHandled :: "lib \<Rightarrow> string \<Rightarrow> string \<Rightarrow> outcome \<Rightarrow> event list \<Rightarrow> bool"
  for L path svc where
  disabled:
    "svc = [] \<Longrightarrow> statusOf out = Some 503 \<Longrightarrow> ipxeHandled L path svc out []"
| chain:
    "svc \<noteq> [] \<Longrightarrow> trimPrefix path ''/ipxe/'' = [] \<Longrightarrow>
       templateServed ''templates/ipxe-chainload.tpl'' (renderIPXEChain (chainData svc)) w es \<Longrightarrow>
       ipxeHandled L path svc (Reply w) es"
| no_config:
    "svc \<noteq> [] \<Longrightarrow> uuid = trimPrefix path ''/ipxe/'' \<Longrightarrow> uuid \<noteq> [] \<Longrightarrow>
       statusOf out = Some 404 \<Longrightarrow> (case listed of Inl err \<Rightarrow> isNotFound err | Inr xs \<Rightarrow> xs = []) \<Longrightarrow>
       ipxeHandled L path svc out [uuidLookup EListIPXE uuid listed]"
| list_failed:
    "svc \<noteq> [] \<Longrightarrow> uuid = trimPrefix path ''/ipxe/'' \<Longrightarrow> uuid \<noteq> [] \<Longrightarrow>
       statusOf out = Some 500 \<Longrightarrow> \<not> isNotFound err \<Longrightarrow>
       ipxeHandled L path svc out [uuidLookup EListIPXE uuid (Inl err)]"
| not_selected:
    "svc \<noteq> [] \<Longrightarrow> uuid = trimPrefix path ''/ipxe/'' \<Longrightarrow> uuid \<noteq> [] \<Longrightarrow> items \<noteq> [] \<Longrightarrow>
       list_all isOwnerLookup es \<Longrightarrow> selects L ipxeMeta items es (Inl e) \<Longrightarrow>
       statusOf out = Some 500 \<Longrightarrow>
       ipxeHandled L path svc out (uuidLookup EListIPXE uuid (Inr items) # es)"
| custom_failed:
    "svc \<noteq> [] \<Longrightarrow> uuid = trimPrefix path ''/ipxe/'' \<Longrightarrow> uuid \<noteq> [] \<Longrightarrow>
       list_all isOwnerLookup es \<Longrightarrow> selected L ipxeMeta items es config \<Longrightarrow>
       ipxeIPXEScriptSecretRef (ipxeSpec config) = Some ref \<Longrightarrow>
       (\<nexists>secret v. got = Inr secret \<and> secretData secret DefaultIPXEScriptKey = Some v) \<Longrightarrow>
       statusOf out = Some 500 \<Longrightarrow>
       ipxeHandled L path svc out (uuidLookup EListIPXE uuid (Inr items) # es @
         [EGetSecret ManagerClient (NN (metaNamespace (ipxeMeta config)) ref) got])"
| custom:
    "svc \<noteq> [] \<Longrightarrow> uuid = trimPrefix path ''/ipxe/'' \<Longrightarrow> uuid \<noteq> [] \<Longrightarrow>
       list_all isOwnerLookup es \<Longrightarrow> selected L ipxeMeta items es config \<Longrightarrow>
       ipxeIPXEScriptSecretRef (ipxeSpec config) = Some ref \<Longrightarrow>
       secretData secret DefaultIPXEScriptKey = Some v \<Longrightarrow>
       (err = None \<longrightarrow> rwStatus w = Some 200 \<and> rwBody w = [Text (bytesOf v)]) \<Longrightarrow>
       ipxeHandled L path svc (Reply w) (uuidLookup EListIPXE uuid (Inr items) # es @
         [EGetSecret ManagerClient (NN (metaNamespace (ipxeMeta config)) ref) (Inr secret),
          EWrite (Text (bytesOf v)) err])"
| default_script:
    "svc \<noteq> [] \<Longrightarrow> uuid = trimPrefix path ''/ipxe/'' \<Longrightarrow> uuid \<noteq> [] \<Longrightarrow>
       list_all isOwnerLookup es \<Longrightarrow> selected L ipxeMeta items es config \<Longrightarrow>
       ipxeIPXEScriptSecretRef (ipxeSpec config) = None \<Longrightarrow>
       templateServed ''templates/ipxe-script.tpl'' (renderIPXEScript (scriptData config svc)) w ts \<Longrightarrow>
       conditionPatch (IPXEObj config) ''IPXEScriptFetched'' p \<Longrightarrow>
       ipxeHandled L path svc (Reply w)
         (uuidLookup EListIPXE uuid (Inr items) # es @ ts @ [ENow now, p])"

lemmas ipxeHandled_steps = ipxeHandled.intros [unfolded uuidLookup_def]

lemma emits_handleIPXE:
  "emits (handleIPXE L E path svc) (ipxeHandled L path svc)"
proof (cases "svc = []")
  case True
  then show ?thesis
    by (auto simp: handleIPXE_def Let_def intro!: emits_rules ipxeHandled.disabled)
next
  case svc: False
  show ?thesis
  proof (cases "trimPrefix path ''/ipxe/'' = []")
    case True
    with svc show ?thesis
      unfolding handleIPXE_def Let_def chainData_def [symmetric]
      by (simp, intro emits_rules emits_conseq [OF emits_serveDefaultIPXEChainTemplate])
        (simp add: ipxeHandled.chain)
  next
    case False
    with svc show ?thesis
      unfolding handleIPXE_def Let_def scriptData_def [symmetric]
      by (simp, intro emits_rules emits_select ipxe_kind.emits_condition
          emits_conseq [OF emits_serveDefaultIPXETemplate])
        (auto intro: ipxeHandled_steps simp: Let_def split: sum.splits if_splits)
  qed
qed

section \<open>What the HTTP boot endpoint delivers\<close>

definition missedIP :: "string \<Rightarrow> event \<Rightarrow> bool" where
  "missedIP ip e \<longleftrightarrow>
     (\<exists>a. e = EListHTTP ManagerClient (MatchingFields NetworkIdentifierIndexKey ip) a \<and>
        (case a of Inl _ \<Rightarrow> True | Inr xs \<Rightarrow> xs = []))"

text \<open>The lookups by client address: in order, up to the first one that finds something.\<close>

definition lookedUp :: "string list \<Rightarrow> http_boot_config list \<Rightarrow> event list \<Rightarrow> bool" where
  "lookedUp ips items es \<longleftrightarrow>
     (if items = [] then list_all2 missedIP ips es
      else \<exists>pre ip post es'. ips = pre @ ip # post \<and> list_all2 missedIP pre es' \<and>
        es = es' @ [EListHTTP ManagerClient (MatchingFields NetworkIdentifierIndexKey ip) (Inr items)])"

lemma lookedUp_skip:
  assumes "lookedUp ips items es" "missedIP ip e"
  shows "lookedUp (ip # ips) items (e # es)"
proof (cases "items = []")
  case False
  with assms(1) obtain pre ip' post es' where "ips = pre @ ip' # post" "list_all2 missedIP pre es'"
    "es = es' @ [EListHTTP ManagerClient (MatchingFields NetworkIdentifierIndexKey ip') (Inr items)]"
    by (auto simp: lookedUp_def)
  with False assms(2) show ?thesis
    by (simp add: lookedUp_def)
      (intro exI [of _ "ip # pre"] exI [of _ ip'] exI [of _ post] exI [of _ "e # es'"], simp)
qed (use assms in \<open>simp add: lookedUp_def\<close>)

lemma lookedUp_hit:
  "items \<noteq> [] \<Longrightarrow> lookedUp (ip # ips) items
     [EListHTTP ManagerClient (MatchingFields NetworkIdentifierIndexKey ip) (Inr items)]"
  by (force simp: lookedUp_def)

lemma emits_lookupByIPs:
  "emits (lookupByIPs E ips :: ('s, 'z, _) io) (lookedUp ips)"
proof (induction ips)
  case Nil
  show ?case by (auto intro!: emits_rules simp: lookedUp_def)
next
  case (Cons ip ips)
  show ?case
    unfolding lookupByIPs.simps
    by (intro emits_rules emits_conseq [OF Cons.IH])
      (auto intro!: lookedUp_skip lookedUp_hit simp: missedIP_def)
qed

definition admittedBy :: "lib \<Rightarrow> validator option \<Rightarrow> string \<Rightarrow> bool" where
  "admittedBy L v img \<longleftrightarrow> (\<forall>v'. v = Some v' \<longrightarrow> ValidateImageRegistry L v' img = None)"

text \<open>
  The default answer: the default URL if no default image is configured, else the URL of the
  UKI layer of that image. No registry is contacted unless the image passes the allow list, an
  image server is configured and the reference is one; it fails only if nothing is configured,
  one of these conditions does not hold, or the image does not resolve to a UKI layer.
\<close>

definition imageUsable :: "lib \<Rightarrow> boot_server_config \<Rightarrow> bool" where
  "imageUsable L cfg \<longleftrightarrow> admittedBy L (bsRegistryValidator cfg) (bsDefaultOCIImage cfg) \<and>
     trimSpace (bsImageServerURL cfg) \<noteq> []"

inductive defaultServed ::
  "lib \<Rightarrow> boot_server_config \<Rightarrow> string + string \<Rightarrow> event list \<Rightarrow> bool"
  for L cfg where
  not_configured:
    "bsDefaultOCIImage cfg = [] \<Longrightarrow> bsDefaultUKIURL cfg = [] \<Longrightarrow> defaultServed L cfg (Inl msg) []"
| default_url:
    "bsDefaultOCIImage cfg = [] \<Longrightarrow> bsDefaultUKIURL cfg \<noteq> [] \<Longrightarrow>
       defaultServed L cfg (Inr (bsDefaultUKIURL cfg)) []"
| not_usable:
    "bsDefaultOCIImage cfg \<noteq> [] \<Longrightarrow> \<not> imageUsable L cfg \<Longrightarrow> defaultServed L cfg (Inl msg) []"
| not_a_reference:
    "bsDefaultOCIImage cfg \<noteq> [] \<Longrightarrow> imageUsable L cfg \<Longrightarrow>
       parseOCIReferenceForUKI (bsDefaultOCIImage cfg) = Inl err \<Longrightarrow> defaultServed L cfg (Inl msg) []"
| no_uki:
    "bsDefaultOCIImage cfg \<noteq> [] \<Longrightarrow> imageUsable L cfg \<Longrightarrow>
       parseOCIReferenceForUKI (bsDefaultOCIImage cfg) = Inr (repo, ref) \<Longrightarrow>
       ukiDigestFailed L ref (bsArchitecture cfg) es \<Longrightarrow> list_all isRegistryRead es \<Longrightarrow>
       defaultServed L cfg (Inl msg) es"
| image_url:
    "bsDefaultOCIImage cfg \<noteq> [] \<Longrightarrow> imageUsable L cfg \<Longrightarrow>
       parseOCIReferenceForUKI (bsDefaultOCIImage cfg) = Inr (repo, ref) \<Longrightarrow>
       ukiDigestFound L ref (bsArchitecture cfg) d es \<Longrightarrow> list_all isRegistryRead es \<Longrightarrow>
       defaultServed L cfg (Inr (ukiFileURL (bsImageServerURL cfg) repo d)) es"

lemma emits_defaultUKI: "emits (defaultUKI L E cfg) (defaultServed L cfg)"
  unfolding defaultUKI_def
  by (intro emits_rules emits_ConstructUKIURLFromOCI)
    (auto intro: defaultServed.intros simp: imageUsable_def admittedBy_def split: option.splits)

text \<open>
  The answer to an error, or to a JSON object: 500 without a body but the message, or the
  object with status 200, which is also the status when writing it fails.
\<close>

fun answered :: "(string \<times> string) list option \<Rightarrow> outcome \<Rightarrow> event list \<Rightarrow> bool" where
  "answered None out ws \<longleftrightarrow> ws = [] \<and> statusOf out = Some 500"
| "answered (Some obj) out ws \<longleftrightarrow>
     (\<exists>err w. ws = [EWrite (JSONObject obj) err] \<and> out = Reply w \<and> rwStatus w = Some 200 \<and>
        (err = None \<longrightarrow>
           rwContentType w = ''application/json'' \<and> rwBody w = [JSONObject obj]))"

definition httpBootServed ::
  "lib \<Rightarrow> boot_server_config \<Rightarrow> string list \<Rightarrow> http_boot_config list \<Rightarrow> outcome \<Rightarrow>
     event list \<Rightarrow> event list \<Rightarrow> bool" where
  "httpBootServed L cfg ips items out rs ws \<longleftrightarrow>
     (if items = [] then
        \<exists>d. defaultServed L cfg d rs \<and>
          answered (case d of Inl _ \<Rightarrow> None
            | Inr u \<Rightarrow> Some [(''ClientIPs'', joinWith '','' ips), (''UKIURL'', u)]) out ws
      else list_all isOwnerLookup rs \<and>
        (\<exists>r. selects L httpMeta items rs r \<and>
           answered (case r of Inl _ \<Rightarrow> None
             | Inr config \<Rightarrow> Some [(''ClientIPs'', joinWith '','' ips),
                 (''SystemUUID'', httpSystemUUID (httpSpec config)),
                 (''UKIURL'', httpUKIURL (httpSpec config))]) out ws))"

lemma httpBootServedI:
  "lookedUp ips items ls \<Longrightarrow> httpBootServed L cfg ips items out rs ws \<Longrightarrow>
     \<exists>items' ls' rs' ws'. ls @ (rs @ []) @ ws = ls' @ rs' @ ws' \<and> lookedUp ips items' ls' \<and>
       httpBootServed L cfg ips items' out rs' ws'"
  by auto

lemma httpBootServed_selects:
  "items \<noteq> [] \<Longrightarrow> list_all isOwnerLookup rs \<Longrightarrow> selects L httpMeta items rs r \<Longrightarrow>
     answered (case r of Inl _ \<Rightarrow> None
       | Inr config \<Rightarrow> Some [(''ClientIPs'', joinWith '','' ips),
           (''SystemUUID'', httpSystemUUID (httpSpec config)),
           (''UKIURL'', httpUKIURL (httpSpec config))]) out ws \<Longrightarrow>
     httpBootServed L cfg ips items out rs ws"
  by (auto simp: httpBootServed_def)

lemma httpBootServed_default:
  "defaultServed L cfg d rs \<Longrightarrow>
     answered (case d of Inl _ \<Rightarrow> None
       | Inr u \<Rightarrow> Some [(''ClientIPs'', joinWith '','' ips), (''UKIURL'', u)]) out ws \<Longrightarrow>
     httpBootServed L cfg ips [] out rs ws"
  by (auto simp: httpBootServed_def)

lemma emits_handleHTTPBoot:
  "emits (handleHTTPBoot L E cfg xff) (\<lambda>out es. \<exists>items ls rs ws. es = ls @ rs @ ws \<and>
     lookedUp (parseForwardedFor xff) items ls \<and>
     httpBootServed L cfg (parseForwardedFor xff) items out rs ws)"
  unfolding handleHTTPBoot_def Let_def
  apply ((intro emits_rules emits_conseq [OF emits_lookupByIPs] emits_conseq [OF emits_defaultUKI]
      emits_select); erule httpBootServedI)
  by (auto intro: httpBootServed_default httpBootServed_selects simp: Let_def setContentType_def
      split: sum.splits)

section \<open>The choice between the ignition handlers\<close>

text \<open>
  The complete behaviour of the endpoint: a lookup finds nothing when it returns the empty list
  or \<open>NotFound\<close>; any other error ends the request; a configuration found by the UUID as
  requested or in upper case hands the request to the iPXE handler, anything else to the HTTP
  one.
\<close>

definition foundNone :: "api_error + 'a list \<Rightarrow> bool" where
  "foundNone a \<longleftrightarrow> (case a of Inl err \<Rightarrow> isNotFound err | Inr xs \<Rightarrow> xs = [])"

abbreviation ipxeIgnition :: "lib \<Rightarrow> string \<Rightarrow> outcome \<Rightarrow> event list \<Rightarrow> bool" where
  "ipxeIgnition L \<equiv>
     ignitionHandled L ipxeMeta (\<lambda>x. ipxeIgnitionSecretRef (ipxeSpec x)) IPXEObj EListIPXE"

abbreviation httpIgnition :: "lib \<Rightarrow> string \<Rightarrow> outcome \<Rightarrow> event list \<Rightarrow> bool" where
  "httpIgnition L \<equiv>
     ignitionHandled L httpMeta (\<lambda>x. httpIgnitionSecretRef (httpSpec x)) HTTPObj EListHTTP"

inductive ignitionRouted :: "lib \<Rightarrow> string \<Rightarrow> outcome \<Rightarrow> event list \<Rightarrow> bool"
  for L uuid where
  list_failed:
    "\<not> isNotFound err \<Longrightarrow> statusOf out = Some 500 \<Longrightarrow>
       ignitionRouted L uuid out [uuidLookup EListIPXE uuid (Inl err)]"
| found:
    "items \<noteq> [] \<Longrightarrow> ipxeIgnition L uuid out es \<Longrightarrow>
       ignitionRouted L uuid out (uuidLookup EListIPXE uuid (Inr items) # es)"
| upper_case_list_failed:
    "foundNone a \<Longrightarrow> \<not> isNotFound err \<Longrightarrow> statusOf out = Some 500 \<Longrightarrow>
       ignitionRouted L uuid out
         [uuidLookup EListIPXE uuid a, uuidLookup EListIPXE (toUpper uuid) (Inl err)]"
| upper_case_found:
    "foundNone a \<Longrightarrow> items \<noteq> [] \<Longrightarrow> ipxeIgnition L uuid out es \<Longrightarrow>
       ignitionRouted L uuid out
         (uuidLookup EListIPXE uuid a # uuidLookup EListIPXE (toUpper uuid) (Inr items) # es)"
| left_to_http:
    "foundNone a \<Longrightarrow> foundNone b \<Longrightarrow> httpIgnition L uuid out es \<Longrightarrow>
       ignitionRouted L uuid out
         (uuidLookup EListIPXE uuid a # uuidLookup EListIPXE (toUpper uuid) b # es)"

lemmas ignitionRouted_steps = ignitionRouted.intros [unfolded uuidLookup_def foundNone_def]

lemma emits_ignitionRoute:
  "emits (ignitionRoute L E path) (ignitionRouted L (pathBase path))"
  unfolding ignitionRoute_def Let_def
  by (simp, intro emits_rules emits_conseq [OF emits_handleIgnitionIPXEBoot]
      emits_conseq [OF emits_handleIgnitionHTTPBoot])
    (auto intro: ignitionRouted_steps split: sum.splits)

section \<open>Properties\<close>

text \<open>C3: The iPXE handler of an existing configuration list looks up the UUID as requested, then
  in upper and in lower case, and stops at the first hit; the ignition it delivers is the payload
  of the secret that the selected configuration names, read in that configuration's own namespace
  and translated when its format says so; \<open>IgnitionDataFetched\<close> is recorded only after the payload
  was written; the handler dies exactly when the selected configuration names no secret.\<close>

theorem handleIgnitionIPXEBoot_correct:
  "emits (handleIgnitionIPXEBoot L E uuid) (ignitionHandled L ipxeMeta
     (\<lambda>x. ipxeIgnitionSecretRef (ipxeSpec x)) IPXEObj EListIPXE uuid)"
  by (rule emits_handleIgnitionIPXEBoot)

text \<open>C19: The ignition endpoint as a whole: it lists the IPXE configurations of the UUID as
  requested and, only if there are none, of its upper case; as soon as one of the two lookups
  finds a configuration the request goes to the IPXE handler, and when neither does to the HTTP
  one, and either handler behaves as specified for its kind of configuration. It answers 500
  itself exactly when one of its own lookups fails with an error other than \<open>NotFound\<close>.\<close>

theorem ignitionRoute_correct:
  "emits (ignitionRoute L E path) (ignitionRouted L (pathBase path))"
  by (rule emits_ignitionRoute)

text \<open>C20: With a stable index, a request in upper case for a UUID that an IPXE configuration
  stores in lower case is answered 404 by the ignition endpoint, whatever that configuration is:
  the endpoint tries only the spelling of the request and its upper case before it leaves IPXE
  configurations for HTTP ones, so the lower-case lookup of the IPXE handler is not reached.\<close>

theorem ignitionRoute_lower_case_missed:
  assumes "\<And>c q s. e_listIPXE E c (MatchingFields SystemUUIDIndexKey q) s = (Inr (ipxes q), s)"
    and "\<And>c q s. e_listHTTP E c (MatchingFields SystemUUIDIndexKey q) s = (Inr [], s)"
    and "ipxes (pathBase path) = []" "ipxes (toUpper (pathBase path)) = []"
  shows "statusOf (fst (run_state (ignitionRoute L E path) w)) = Some 404"
  using assms
  by (simp add: ignitionRoute_def handleIgnitionHTTPBoot_def Let_def split_beta)

definition lowerCaseIndex :: "string \<Rightarrow> ipxe_boot_config list" where
  "lowerCaseIndex q = (if q = ''4c4c'' then [emptyIPXE ''ns'' ''boot''] else [])"

definition lowerCaseEnv :: "unit env" where
  "lowerCaseEnv = offlineEnv\<lparr>
     e_listIPXE := \<lambda>_ q s. (Inr (case q of MatchingFields _ v \<Rightarrow> lowerCaseIndex v | _ \<Rightarrow> []), s),
     e_listHTTP := \<lambda>_ _ s. (Inr [], s)\<rparr>"

lemma ignitionRoute_lower_case_missed_witness:
  "lowerCaseIndex (toLower (pathBase ''/ignition/4C4C'')) \<noteq> [] \<and>
   statusOf (fst (run_state (ignitionRoute sampleLib lowerCaseEnv ''/ignition/4C4C'')
     (startWorld ()))) = Some 404"
proof
  have base: "pathBase ''/ignition/4C4C'' = ''4C4C''" "toUpper ''4C4C'' = ''4C4C''"
    "toLower ''4C4C'' = ''4c4c''"
    by code_simp+
  then show "lowerCaseIndex (toLower (pathBase ''/ignition/4C4C'')) \<noteq> []"
    by (simp add: lowerCaseIndex_def)
  show "statusOf (fst (run_state (ignitionRoute sampleLib lowerCaseEnv ''/ignition/4C4C'')
     (startWorld ()))) = Some 404"
    by (rule ignitionRoute_lower_case_missed [where ipxes = lowerCaseIndex])
      (simp_all add: lowerCaseEnv_def lowerCaseIndex_def base)
qed

text \<open>C18: The HTTP ignition handler meets the same specification as the IPXE one, on HTTP boot
  configurations.\<close>

theorem handleIgnitionHTTPBoot_correct:
  "emits (handleIgnitionHTTPBoot L E uuid) (ignitionHandled L httpMeta
     (\<lambda>x. httpIgnitionSecretRef (httpSpec x)) HTTPObj EListHTTP uuid)"
  by (rule emits_handleIgnitionHTTPBoot)

text \<open>C14: The iPXE endpoint answers 503 without any call when iPXE is disabled, the chain-loading
  script without a lookup when no UUID is given, 404 exactly when nothing is found, and otherwise
  the custom script of the selected configuration, read in its namespace, or the default script
  rendered from its specification; \<open>IPXEScriptFetched\<close> is recorded after a default script, even
  when serving it failed, and never after a custom one.\<close>

theorem handleIPXE_correct:
  "emits (handleIPXE L E path svc) (ipxeHandled L path svc)"
  by (rule emits_handleIPXE)

text \<open>C13: The HTTP boot endpoint takes the first client address with a configuration and answers
  with the UKI URL and UUID of the configuration that \<open>selects\<close> determines among those found, or
  500 when that selection fails; it falls back to the default UKI only when no address matches.
  The default image's registry is contacted only if the allow list admits the image, an image
  server is configured and the reference parses; the default answer is the default URL or that of
  the image's UKI layer, and 500 only when nothing is configured, one of these conditions does not
  hold or the image does not resolve to a UKI layer.\<close>

theorem handleHTTPBoot_correct:
  "emits (handleHTTPBoot L E cfg xff) (\<lambda>out es. \<exists>items ls rs ws. es = ls @ rs @ ws \<and>
     lookedUp (parseForwardedFor xff) items ls \<and>
     httpBootServed L cfg (parseForwardedFor xff) items out rs ws)"
  by (rule emits_handleHTTPBoot)

end
