(* ===== verification/ImageProxy.thy ===== *)
theory ImageProxy
  imports RegistryCache Headers BootServer
begin

text \<open>
  The image proxy, \<^verbatim>\<open>server/imageproxyserver.go\<close>: parsing of its two URL forms, the
  probe of a registry's authentication through the shared cache, the bearer token, the
  proxied blob request and the treatment of redirects. \<open>ReverseProxy.ServeHTTP\<close> is modelled
  as far as the program relies on it; the transport and the HTTP client are calls.
\<close>

section \<open>Requests\<close>

definition imageKey :: string where "imageKey = ''imageName''"
definition layerDigestKey :: string where "layerDigestKey = ''layerDigest''"
definition versionKey :: string where "versionKey = ''version''"

record image_details =
  idOCIImageName :: string
  idRegistryDomain :: string
  idRepositoryName :: string
  idLayerDigest :: string
  idVersion :: string

text \<open>The common end of both parsers: domain and repository of the image name.\<close>

definition imageRepository :: "lib \<Rightarrow> string \<Rightarrow> string + (string \<times> string)" where
  "imageRepository L imageName =
     (case ExtractRegistryDomain L imageName of
        Inl err \<Rightarrow> Inl err
      | Inr registryDomain \<Rightarrow>
          (case l_parseNormalizedNamed L imageName of
             Inl err \<Rightarrow> Inl (''invalid image reference: '' @ err)
           | Inr named \<Rightarrow> Inr (registryDomain, refPath named)))"

definition parseHttpBootImagePath :: "lib \<Rightarrow> string \<Rightarrow> string + image_details" where
  "parseHttpBootImagePath L path =
     (let trimmed = trimPrefix path ''/httpboot/''; segments = splitOn (CHR ''/'') trimmed in
      if length segments < 2 then Inl ''invalid path: too few segments''
      else let imageName = joinWith ''/'' (take (length segments - 1) segments);
               digestSegment = segments ! (length segments - 1)
           in case imageRepository L imageName of
                Inl err \<Rightarrow> Inl err
              | Inr (registryDomain, repositoryName) \<Rightarrow>
                  (let digestSegment = trimSuffix digestSegment ''.efi'' in
                   if \<not> hasPrefix digestSegment ''sha256-'' then Inl ''invalid digest format''
                   else Inr \<lparr>idOCIImageName = imageName, idRegistryDomain = registryDomain,
                     idRepositoryName = repositoryName,
                     idLayerDigest = ''sha256:'' @ trimPrefix digestSegment ''sha256-'',
                     idVersion = []\<rparr>))"

abbreviation quoted :: "string \<Rightarrow> string" where "quoted s \<equiv> [CHR 0x27] @ s @ [CHR 0x27]"

definition parseImageURL :: "lib \<Rightarrow> url_values \<Rightarrow> string + image_details" where
  "parseImageURL L queries =
     (let ociImageName = valuesGet queries imageKey;
          layerDigest = valuesGet queries layerDigestKey;
          version = valuesGet queries versionKey
      in if ociImageName = [] \<or> layerDigest = [] \<or> version = [] then
           Inl (''missing required query parameters '' @ quoted ''imageName'' @ '', ''
             @ quoted ''layerDigest'' @ '', or '' @ quoted ''version'')
         else let ociImageName = trimSuffix ociImageName ''.efi'' in
           case imageRepository L ociImageName of
             Inl err \<Rightarrow> Inl err
           | Inr (registryDomain, repositoryName) \<Rightarrow>
               Inr \<lparr>idOCIImageName = ociImageName, idRegistryDomain = registryDomain,
                 idRepositoryName = repositoryName, idLayerDigest = layerDigest,
                 idVersion = version\<rparr>)"

section \<open>Authentication\<close>

definition extractParam :: "string \<Rightarrow> string \<Rightarrow> string" where
  "extractParam header param =
     (case index header (param @ ''='' @ [CHR 0x22]) of
        None \<Rightarrow> []
      | Some i \<Rightarrow>
          (let start = i + length param + 2 in
           case index (drop start header) [CHR 0x22] of
             None \<Rightarrow> []
           | Some end' \<Rightarrow> take end' (drop start header)))"

definition extractTokenURL :: "string \<Rightarrow> string \<Rightarrow> string" where
  "extractTokenURL authHeader repository =
     (let realm = extractParam authHeader ''realm''; service = extractParam authHeader ''service'' in
      if realm = [] then []
      else let scope = ''repository:'' @ repository @ '':pull'' in
        if service \<noteq> [] then realm @ ''?service='' @ service @ ''&scope='' @ scope
        else realm @ ''?scope='' @ scope)"

datatype proxy_error =
    RegistryUnreachable string
  | UnauthorizedWithoutHeader
  | UnsupportedAuth string
  | UnexpectedStatus nat
  | TokenRequestError string
  | TokenRequestStatus nat string
  | TokenParseError string
  | TokenMissing

definition classifyProbe :: "string \<Rightarrow> string \<Rightarrow> http_response \<Rightarrow> proxy_error + registry_info" where
  "classifyProbe registryDomain repository resp =
     (if respStatusCode resp = 200 then
        Inr \<lparr>riDomain = registryDomain, riAuthMethod = AuthNone, riTokenURL = []\<rparr>
      else if respStatusCode resp = 401 then
        (let authHeader = headerGet (respHeader resp) ''WWW-Authenticate'' in
         if authHeader = [] then Inl UnauthorizedWithoutHeader
         else if length authHeader > 7 \<and> equalFold (take 7 authHeader) ''bearer '' then
           Inr \<lparr>riDomain = registryDomain, riAuthMethod = AuthBearer,
             riTokenURL = extractTokenURL authHeader repository\<rparr>
         else Inl (UnsupportedAuth authHeader))
      else Inl (UnexpectedStatus (respStatusCode resp)))"

definition detectRegistryAuth ::
  "'s env \<Rightarrow> string \<Rightarrow> string \<Rightarrow> ('s, 'z, proxy_error + registry_info) io" where
  "detectRegistryAuth E registryDomain repository = do {
     got \<leftarrow> httpGet E (''https://'' @ registryDomain @ ''/v2/'');
     (case got of
        Inl err \<Rightarrow> ret (Inl (RegistryUnreachable err))
      | Inr resp \<Rightarrow> do {
          closeBody E (respBody resp);
          ret (classifyProbe registryDomain repository resp) }) }"

text \<open>The world of the image proxy adds the cache of the process.\<close>

record 's proxy_world = "'s world" +
  registryCache :: registry_cache

type_synonym ('s, 'z, 'a) proxy_io = "('s, \<lparr>registryCache :: registry_cache, \<dots> :: 'z\<rparr>, 'a) io"

definition readCache :: "string \<Rightarrow> ('s, 'z, registry_cache_entry option) proxy_io" where
  "readCache key = State (\<lambda>w. (registryCache w key, w))"

definition writeCache :: "int \<Rightarrow> string \<Rightarrow> registry_info \<Rightarrow> ('s, 'z, unit) proxy_io" where
  "writeCache now key info =
     State (\<lambda>w. ((), w\<lparr>registryCache := cacheStore (registryCache w) now key info\<rparr>))"

definition detectAndCache ::
  "'s env \<Rightarrow> string \<Rightarrow> string \<Rightarrow> ('s, 'z, proxy_error + registry_info) proxy_io" where
  "detectAndCache E registry repository = do {
     detected \<leftarrow> detectRegistryAuth E registry repository;
     (case detected of
        Inl err \<Rightarrow> ret (Inl err)
      | Inr info \<Rightarrow> do {
          now \<leftarrow> timeNow E;
          writeCache now (cacheKey registry repository) info;
          ret (Inr info) }) }"

definition getOrDetectRegistry ::
  "'s env \<Rightarrow> string \<Rightarrow> string \<Rightarrow> ('s, 'z, proxy_error + registry_info) proxy_io" where
  "getOrDetectRegistry E registry repository = do {
     entry \<leftarrow> readCache (cacheKey registry repository);
     (case entry of
        None \<Rightarrow> detectAndCache E registry repository
      | Some entry \<Rightarrow> do {
          now \<leftarrow> timeNow E;
          (if now < ceExpiresAt entry then ret (Inr (ceInfo entry))
           else detectAndCache E registry repository) }) }"

definition maxErrorResponseSize :: nat where "maxErrorResponseSize = 4 * 1024"
definition maxTokenResponseSize :: nat where "maxTokenResponseSize = 64 * 1024"

text \<open>\<open>io.ReadAll(io.LimitReader(body, n))\<close>: the bytes read, and an error met before the limit.\<close>

definition readLimited :: "nat \<Rightarrow> http_body \<Rightarrow> string \<times> string option" where
  "readLimited n b =
     (take n (bodyContent b), if length (bodyContent b) < n then bodyError b else None)"

definition tokenOf :: "lib \<Rightarrow> http_response \<Rightarrow> proxy_error + string" where
  "tokenOf L resp =
     (if respStatusCode resp \<noteq> 200 then
        Inl (TokenRequestStatus (respStatusCode resp)
          (fst (readLimited maxErrorResponseSize (respBody resp))))
      else case readLimited maxTokenResponseSize (respBody resp) of
        (_, Some err) \<Rightarrow> Inl (TokenRequestError err)
      | (body, None) \<Rightarrow>
          (case l_decodeToken L body of
             Inl err \<Rightarrow> Inl (TokenParseError err)
           | Inr tokenResponse \<Rightarrow>
               if tokAccessToken tokenResponse \<noteq> [] then Inr (tokAccessToken tokenResponse)
               else if tokToken tokenResponse \<noteq> [] then Inr (tokToken tokenResponse)
               else Inl TokenMissing))"

definition getBearerToken :: "lib \<Rightarrow> 's env \<Rightarrow> string \<Rightarrow> ('s, 'z, proxy_error + string) io" where
  "getBearerToken L E tokenURL = do {
     got \<leftarrow> httpGet E tokenURL;
     (case got of
        Inl err \<Rightarrow> ret (Inl (TokenRequestError err))
      | Inr resp \<Rightarrow> do {
          closeBody E (respBody resp);
          ret (tokenOf L resp) }) }"

section \<open>Redirects\<close>

definition isSameHost :: "url \<Rightarrow> url \<Rightarrow> bool" where
  "isSameHost url1 url2 = equalFold (urlHost url1) (urlHost url2)"

definition replaceResponse :: "http_response \<Rightarrow> http_response \<Rightarrow> http_response" where
  "replaceResponse originalResp redirectResp =
     originalResp\<lparr>respStatus := respStatus redirectResp,
       respStatusCode := respStatusCode redirectResp,
       respProto := respProto redirectResp,
       respProtoMajor := respProtoMajor redirectResp,
       respProtoMinor := respProtoMinor redirectResp,
       respHeader := respHeader redirectResp,
       respBody := respBody redirectResp,
       respContentLength := respContentLength redirectResp,
       respTransferEncoding := respTransferEncoding redirectResp,
       respClose := respClose redirectResp,
       respUncompressed := respUncompressed redirectResp,
       respTrailer := respTrailer redirectResp,
       respTLS := respTLS redirectResp\<rparr>"

definition sensitiveHeaders :: "string list" where
  "sensitiveHeaders = [''Authorization'', ''Cookie'', ''Proxy-Authorization'']"

definition isRedirect :: "nat \<Rightarrow> bool" where
  "isRedirect code \<longleftrightarrow> code = 307 \<or> code = 308 \<or> code = 301 \<or> code = 302 \<or> code = 303"

definition redirectRequest :: "http_request \<Rightarrow> url \<Rightarrow> http_request" where
  "redirectRequest original location =
     (let isSchemeDowngrade = urlScheme (reqURL original) = ''https'' \<and> urlScheme location = ''http''
      in \<lparr>reqMethod = ''GET'', reqURL = location, reqHost = urlHost location,
          reqHeader =
            (if isSameHost (reqURL original) location \<and> \<not> isSchemeDowngrade
             then copyHeaders (reqHeader original) []
             else copyHeadersExcluding (reqHeader original) [] sensitiveHeaders),
          reqRemoteIP = None\<rparr>)"

text \<open>The changes to the final response.\<close>

definition rewriteResponse :: "http_response \<Rightarrow> http_response" where
  "rewriteResponse resp =
     (let h = respHeader resp;
          h = (if headerGet h ''Content-Type'' = MediaTypeUKI
               then headerSet h ''Content-Type'' ''application/efi'' else h);
          h = (if headerGet h ''Content-Length'' = [] \<and> respContentLength resp > 0
               then headerSet h ''Content-Length'' (itoaInt (respContentLength resp)) else h)
      in if respTransferEncoding resp \<noteq> []
         then resp\<lparr>respTransferEncoding := [], respHeader := headerDel h ''Transfer-Encoding''\<rparr>
         else resp\<lparr>respHeader := h\<rparr>)"

definition modifyResponse ::
  "lib \<Rightarrow> 's env \<Rightarrow> http_response \<Rightarrow> ('s, 'z, string + http_response) io" where
  "modifyResponse L E resp =
     (if isRedirect (respStatusCode resp) then
        (case l_location L resp of
           Inl err \<Rightarrow> ret (Inl err)
         | Inr location \<Rightarrow>
             (case l_newRequest L location of
                Some err \<Rightarrow> ret (Inl err)
              | None \<Rightarrow> do {
                  done' \<leftarrow> httpDo E (redirectRequest (respRequest resp) location);
                  (case done' of
                     Inl err \<Rightarrow> ret (Inl err)
                   | Inr redirectResp \<Rightarrow> do {
                       closeBody E (respBody resp);
                       ret (Inr (rewriteResponse (replaceResponse resp redirectResp))) }) }))
      else ret (Inr (rewriteResponse resp)))"

section \<open>The proxied request\<close>

definition blobPath :: "string \<Rightarrow> string \<Rightarrow> string" where
  "blobPath repository digest = ''/v2/'' @ repository @ ''/blobs/'' @ digest"

definition director ::
  "url \<Rightarrow> string \<Rightarrow> string \<Rightarrow> string \<Rightarrow> http_request \<Rightarrow> http_request" where
  "director proxyURL bearerToken repository digest req =
     req\<lparr>reqURL := (reqURL req)\<lparr>urlScheme := urlScheme proxyURL, urlHost := urlHost proxyURL,
           urlPath := blobPath repository digest\<rparr>,
         reqHeader := (if bearerToken \<noteq> []
           then headerSet (reqHeader req) ''Authorization'' (''Bearer '' @ bearerToken)
           else reqHeader req)\<rparr>"

datatype proxy_outcome = Answered response_writer | Proxied http_response

text \<open>\<open>ReverseProxy.ServeHTTP\<close>; its default error handler answers 502.\<close>

definition proxyServeHTTP ::
  "lib \<Rightarrow> 's env \<Rightarrow> (http_request \<Rightarrow> http_request) \<Rightarrow> http_request \<Rightarrow>
     ('s, 'z, proxy_outcome) io" where
  "proxyServeHTTP L E dir req =
     (let outreq = outgoingRequest req (dir req) in do {
        got \<leftarrow> roundTrip E outreq;
        (case got of
           Inl err \<Rightarrow> ret (Answered (writeHeader 502 newResponse))
         | Inr resp \<Rightarrow>
             (let resp = resp\<lparr>respRequest := outreq,
                    respHeader := removeHopByHopHeaders (respHeader resp)\<rparr>
              in do {
                modified \<leftarrow> modifyResponse L E resp;
                (case modified of
                   Inl err \<Rightarrow> do {
                     closeBody E (respBody resp);
                     ret (Answered (writeHeader 502 newResponse)) }
                 | Inr resp \<Rightarrow> ret (Proxied resp)) })) })"

definition handleDockerRegistry ::
  "lib \<Rightarrow> 's env \<Rightarrow> http_request \<Rightarrow> image_details \<Rightarrow> validator \<Rightarrow>
     ('s, 'z, proxy_outcome) proxy_io" where
  "handleDockerRegistry L E r imageDetails v =
     (let w = newResponse;
          registryDomain = idRegistryDomain imageDetails;
          repository = idRepositoryName imageDetails
      in if \<not> IsRegistryAllowed v registryDomain then
           ret (Answered (httpError ''Forbidden: Registry not allowed'' 403 w))
         else do {
           info \<leftarrow> getOrDetectRegistry E registryDomain repository;
           (case info of
              Inl err \<Rightarrow> ret (Answered (httpError ''Registry detection failed'' 502 w))
            | Inr registryInfo \<Rightarrow> do {
                token \<leftarrow> (case riAuthMethod registryInfo of
                   AuthBearer \<Rightarrow> getBearerToken L E (riTokenURL registryInfo)
                 | AuthNone \<Rightarrow> ret (Inr []));
                (case token of
                   Inl err \<Rightarrow> ret (Answered (httpError ''Authentication failed'' 401 w))
                 | Inr authToken \<Rightarrow>
                     (let digest = idLayerDigest imageDetails;
                          proxyURL = \<lparr>urlScheme = ''https'', urlHost = registryDomain,
                            urlPath = blobPath repository digest, urlRawQuery = []\<rparr>;
                          r = r\<lparr>reqURL := (reqURL r)\<lparr>urlHost := urlHost proxyURL,
                                  urlScheme := urlScheme proxyURL\<rparr>,
                                reqHost := urlHost proxyURL\<rparr>
                      in proxyServeHTTP L E (director proxyURL authToken repository digest) r)) }) })"

text \<open>The handlers of \<open>/image\<close> and \<open>/httpboot/\<close> that \<open>RunImageProxyServer\<close> registers.\<close>

definition handleImage ::
  "lib \<Rightarrow> 's env \<Rightarrow> validator \<Rightarrow> http_request \<Rightarrow> ('s, 'z, proxy_outcome) proxy_io" where
  "handleImage L E v r =
     (case parseImageURL L (parseQuery (urlRawQuery (reqURL r))) of
        Inl err \<Rightarrow> ret (Answered (httpError ''Resource Not Found'' 404 newResponse))
      | Inr imageDetails \<Rightarrow> handleDockerRegistry L E r imageDetails v)"

definition handleHTTPBootImage ::
  "lib \<Rightarrow> 's env \<Rightarrow> validator \<Rightarrow> http_request \<Rightarrow> ('s, 'z, proxy_outcome) proxy_io" where
  "handleHTTPBootImage L E v r =
     (case parseHttpBootImagePath L (urlPath (reqURL r)) of
        Inl err \<Rightarrow> ret (Answered (httpError ''Resource Not Found'' 404 newResponse))
      | Inr imageDetails \<Rightarrow> handleDockerRegistry L E r imageDetails v)"

section \<open>Redirects forward no credentials\<close>

definition isSensitive :: "string \<Rightarrow> bool" where
  "isSensitive k \<longleftrightarrow> toLower k \<in> {''authorization'', ''cookie'', ''proxy-authorization''}"

definition trustedRedirect :: "url \<Rightarrow> url \<Rightarrow> bool" where
  "trustedRedirect from to \<longleftrightarrow> toLower (urlHost from) = toLower (urlHost to) \<and>
     \<not> (urlScheme from = ''https'' \<and> urlScheme to = ''http'')"

text \<open>All values a header has under any spelling of a key.\<close>

definition allValues :: "header \<Rightarrow> string \<Rightarrow> string list" where
  "allValues h k = concat (map snd (filter (\<lambda>e. canonicalKey (fst e) = canonicalKey k) h))"

text \<open>
  The headers of a redirected request: to a trusted target all values of the original
  request; to any other all but the sensitive ones, of which not even a key is left.
\<close>

definition forwardsSafely :: "http_request \<Rightarrow> http_request \<Rightarrow> bool" where
  "forwardsSafely original q \<longleftrightarrow>
     (if trustedRedirect (reqURL original) (reqURL q)
      then \<forall>k. headerValues (reqHeader q) k = allValues (reqHeader original) k
      else (\<forall>k. headerValues (reqHeader q) k =
              (if isSensitive k then [] else allValues (reqHeader original) k)) \<and>
           (\<forall>e\<in>set (reqHeader q). \<not> isSensitive (fst e)))"

lemma isSensitive_list: "toLower k \<in> toLower ` set sensitiveHeaders \<longleftrightarrow> isSensitive k"
proof -
  have "toLower ''Authorization'' = ''authorization''" "toLower ''Cookie'' = ''cookie''"
    "toLower ''Proxy-Authorization'' = ''proxy-authorization''"
    by code_simp+
  then show ?thesis by (simp add: isSensitive_def sensitiveHeaders_def)
qed

lemma isSensitive_canonicalKey [simp]: "isSensitive (canonicalKey k) = isSensitive k"
  by (simp add: isSensitive_def)

lemma headerValues_Nil [simp]: "headerValues [] k = []"
  by (simp add: headerValues_def)

lemma forwardsSafely_redirectRequest: "forwardsSafely original (redirectRequest original loc)"
proof (cases "trustedRedirect (reqURL original) loc")
  case True
  then show ?thesis
    by (simp add: forwardsSafely_def redirectRequest_def trustedRedirect_def isSameHost_def
        equalFold_def values_copyHeaders allValues_def)
next
  case False
  let ?h = "copyHeadersExcluding (reqHeader original) [] sensitiveHeaders"
  have h: "reqHeader (redirectRequest original loc) = ?h" "reqURL (redirectRequest original loc) = loc"
    using False by (auto simp: redirectRequest_def trustedRedirect_def isSameHost_def equalFold_def Let_def)
  have key: "\<not> isSensitive (fst e)" if "e \<in> set ?h" for e
    using that keys_copyHeadersExcluding [of "fst e" "snd e" "reqHeader original" sensitiveHeaders]
    by (simp add: isSensitive_list)
  have "headerValues ?h k = []" if "isSensitive k" for k
  proof -
    have "canonicalKey k \<notin> fst ` set ?h" using key that isSensitive_canonicalKey by fastforce
    then have "map_of ?h (canonicalKey k) = None" by (simp add: map_of_eq_None_iff)
    then show ?thesis by (simp add: headerValues_def)
  qed
  moreover have "headerValues ?h k = allValues (reqHeader original) k" if "\<not> isSensitive k" for k
    using values_copyHeadersExcluding [of k sensitiveHeaders "reqHeader original"] that
    by (simp add: isSensitive_list values_copyHeaders allValues_def)
  ultimately show ?thesis using False key h by (simp add: forwardsSafely_def)
qed

text \<open>The complete behaviour of the response hook.\<close>

definition replacedBy :: "http_response \<Rightarrow> http_response \<Rightarrow> http_response \<Rightarrow> bool" where
  "replacedBy resp redirected final \<longleftrightarrow>
     respRequest final = respRequest resp \<and> respStatusCode final = respStatusCode redirected \<and>
     respBody final = respBody redirected \<and> respContentLength final = respContentLength redirected"

inductive responseModified ::
  "lib \<Rightarrow> http_response \<Rightarrow> string + http_response \<Rightarrow> event list \<Rightarrow> bool"
  for L resp where
  direct:
    "\<not> isRedirect (respStatusCode resp) \<Longrightarrow> replacedBy resp resp final \<Longrightarrow>
       responseModified L resp (Inr final) []"
| bad_location:
    "isRedirect (respStatusCode resp) \<Longrightarrow>
       (\<forall>loc. l_location L resp = Inr loc \<longrightarrow> l_newRequest L loc \<noteq> None) \<Longrightarrow>
       responseModified L resp (Inl err) []"
| redirect_failed:
    "isRedirect (respStatusCode resp) \<Longrightarrow> l_location L resp = Inr (reqURL q) \<Longrightarrow>
       reqMethod q = ''GET'' \<Longrightarrow> forwardsSafely (respRequest resp) q \<Longrightarrow>
       responseModified L resp (Inl err) [EHTTPDo q (Inl err)]"
| redirected:
    "isRedirect (respStatusCode resp) \<Longrightarrow> l_location L resp = Inr (reqURL q) \<Longrightarrow>
       reqMethod q = ''GET'' \<Longrightarrow> forwardsSafely (respRequest resp) q \<Longrightarrow>
       replacedBy resp redirectResp final \<Longrightarrow>
       responseModified L resp (Inr final)
         [EHTTPDo q (Inr redirectResp), ECloseBody (respBody resp)]"

lemma rewriteResponse_simps [simp]:
  "respRequest (rewriteResponse r) = respRequest r"
  "respStatusCode (rewriteResponse r) = respStatusCode r"
  "respBody (rewriteResponse r) = respBody r"
  "respContentLength (rewriteResponse r) = respContentLength r"
  "respTransferEncoding (rewriteResponse r) = []"
  by (simp_all add: rewriteResponse_def Let_def)

lemma redirectRequest_simps [simp]:
  "reqURL (redirectRequest q loc) = loc" "reqMethod (redirectRequest q loc) = ''GET''"
  by (simp_all add: redirectRequest_def Let_def)

lemma emits_modifyResponse: "emits (modifyResponse L E resp) (responseModified L resp)"
  unfolding modifyResponse_def
  by (intro emits_rules)
    (auto intro!: responseModified.intros simp: replacedBy_def replaceResponse_def
      forwardsSafely_redirectRequest)

section \<open>Authentication\<close>

text \<open>A probe of a registry, and the lookup through the cache: calls and results.\<close>

definition probed :: "string \<Rightarrow> string \<Rightarrow> proxy_error + registry_info \<Rightarrow> event list \<Rightarrow> bool" where
  "probed domain repository r es \<longleftrightarrow>
     (\<exists>err. es = [EHTTPGet (''https://'' @ domain @ ''/v2/'') (Inl err)] \<and>
        r = Inl (RegistryUnreachable err)) \<or>
     (\<exists>resp. es = [EHTTPGet (''https://'' @ domain @ ''/v2/'') (Inr resp), ECloseBody (respBody resp)] \<and>
        r = classifyProbe domain repository resp)"

lemma emits_detectRegistryAuth: "emits (detectRegistryAuth E domain repository) (probed domain repository)"
  unfolding detectRegistryAuth_def by (intro emits_rules) (auto simp: probed_def)

definition infoObtained :: "string \<Rightarrow> string \<Rightarrow> proxy_error + registry_info \<Rightarrow> event list \<Rightarrow> bool" where
  "infoObtained domain repository r es \<longleftrightarrow>
     (\<exists>now info. es = [ENow now] \<and> r = Inr info) \<or>
     (\<exists>pre ps post. es = pre @ ps @ post \<and> (pre = [] \<or> (\<exists>t. pre = [ENow t])) \<and>
        probed domain repository r ps \<and>
        (case r of Inl _ \<Rightarrow> post = [] | Inr _ \<Rightarrow> \<exists>t. post = [ENow t]))"

lemma run_readCache [simp]: "run_state (readCache key) w = (registryCache w key, w)"
  by (simp add: readCache_def)

lemma run_writeCache [simp]:
  "run_state (writeCache now key info) w =
     ((), w\<lparr>registryCache := cacheStore (registryCache w) now key info\<rparr>)"
  by (simp add: writeCache_def)

lemma emits_readCache [emits_rules]: "(\<And>e. R e []) \<Longrightarrow> emits (readCache key) R"
  by (simp add: emits_def)

lemma emits_writeCache [emits_rules]: "R () [] \<Longrightarrow> emits (writeCache now key info) R"
  by (simp add: emits_def)

lemma infoObtained_cached: "infoObtained domain repository (Inr info) [ENow t]"
  by (simp add: infoObtained_def)

lemma infoObtainedI:
  assumes "probed domain repository r ps" "pre = [] \<or> (\<exists>t. pre = [ENow t])"
    and "case r of Inl _ \<Rightarrow> post = [] | Inr _ \<Rightarrow> \<exists>t. post = [ENow t]"
  shows "infoObtained domain repository r (pre @ ps @ post)"
  unfolding infoObtained_def using assms by blast

lemmas infoObtained_failed =
  infoObtainedI [where r = "Inl e" and pre = "[]" and post = "[]" for e, simplified]
  infoObtainedI [where r = "Inl e" and pre = "[ENow t]" and post = "[]" for e t, simplified]

lemmas infoObtained_probed =
  infoObtainedI [where r = "Inr i" and pre = "[]" and post = "[ENow t]" for i t, simplified]
  infoObtainedI [where r = "Inr i" and pre = "[ENow t']" and post = "[ENow t]" for i t t', simplified]

lemma emits_detectAndCache:
  assumes "\<And>err ps. probed domain repository (Inl err) ps \<Longrightarrow> R (Inl err) ps"
    and "\<And>info ps t. probed domain repository (Inr info) ps \<Longrightarrow> R (Inr info) (ps @ [ENow t])"
  shows "emits (detectAndCache E domain repository) R"
  unfolding detectAndCache_def
  by (intro emits_rules emits_conseq [OF emits_detectRegistryAuth]) (auto intro: assms)

lemma emits_getOrDetectRegistry:
  "emits (getOrDetectRegistry E domain repository) (infoObtained domain repository)"
  unfolding getOrDetectRegistry_def
  by (intro emits_rules emits_detectAndCache)
    (simp_all add: infoObtained_cached infoObtained_failed infoObtained_probed)

definition tokenFetched :: "lib \<Rightarrow> string \<Rightarrow> proxy_error + string \<Rightarrow> event list \<Rightarrow> bool" where
  "tokenFetched L tokenURL r es \<longleftrightarrow>
     (\<exists>err. es = [EHTTPGet tokenURL (Inl err)] \<and> r = Inl (TokenRequestError err)) \<or>
     (\<exists>resp. es = [EHTTPGet tokenURL (Inr resp), ECloseBody (respBody resp)] \<and> r = tokenOf L resp)"

lemma emits_getBearerToken: "emits (getBearerToken L E tokenURL) (tokenFetched L tokenURL)"
  unfolding getBearerToken_def by (intro emits_rules) (auto simp: tokenFetched_def)

definition authFetched :: "lib \<Rightarrow> registry_info \<Rightarrow> proxy_error + string \<Rightarrow> event list \<Rightarrow> bool" where
  "authFetched L info r es \<longleftrightarrow>
     (case riAuthMethod info of
        AuthNone \<Rightarrow> r = Inr [] \<and> es = []
      | AuthBearer \<Rightarrow> tokenFetched L (riTokenURL info) r es)"

section \<open>The proxied request\<close>

text \<open>
  The request sent upstream: for the blob, at the registry of the image, over HTTPS, with
  the token obtained (or, without one, no other credentials than the client's own).
\<close>

definition blobRequest :: "image_details \<Rightarrow> http_request \<Rightarrow> string \<Rightarrow> http_request \<Rightarrow> bool" where
  "blobRequest d r token q \<longleftrightarrow>
     urlScheme (reqURL q) = ''https'' \<and> urlHost (reqURL q) = idRegistryDomain d \<and>
     urlPath (reqURL q) = blobPath (idRepositoryName d) (idLayerDigest d) \<and>
     headerValues (reqHeader q) ''Authorization'' \<in>
       {[], if token \<noteq> [] then [''Bearer '' @ token] else headerValues (reqHeader r) ''Authorization''}"

inductive registryHandled ::
  "lib \<Rightarrow> validator \<Rightarrow> image_details \<Rightarrow> http_request \<Rightarrow> proxy_outcome \<Rightarrow> event list \<Rightarrow> bool"
  for L v d r where
  forbidden:
    "\<not> IsRegistryAllowed v (idRegistryDomain d) \<Longrightarrow> rwStatus w = Some 403 \<Longrightarrow>
       registryHandled L v d r (Answered w) []"
| undetected:
    "IsRegistryAllowed v (idRegistryDomain d) \<Longrightarrow>
       infoObtained (idRegistryDomain d) (idRepositoryName d) (Inl err) es \<Longrightarrow>
       rwStatus w = Some 502 \<Longrightarrow> registryHandled L v d r (Answered w) es"
| unauthenticated:
    "IsRegistryAllowed v (idRegistryDomain d) \<Longrightarrow>
       infoObtained (idRegistryDomain d) (idRepositoryName d) (Inr info) es \<Longrightarrow>
       authFetched L info (Inl err) ts \<Longrightarrow>
       rwStatus w = Some 401 \<Longrightarrow> registryHandled L v d r (Answered w) (es @ ts)"
| unreachable:
    "IsRegistryAllowed v (idRegistryDomain d) \<Longrightarrow>
       infoObtained (idRegistryDomain d) (idRepositoryName d) (Inr info) es \<Longrightarrow>
       authFetched L info (Inr token) ts \<Longrightarrow> blobRequest d r token q \<Longrightarrow>
       rwStatus w = Some 502 \<Longrightarrow>
       registryHandled L v d r (Answered w) (es @ ts @ [ERoundTrip q (Inl err)])"
| bad_redirect:
    "IsRegistryAllowed v (idRegistryDomain d) \<Longrightarrow>
       infoObtained (idRegistryDomain d) (idRepositoryName d) (Inr info) es \<Longrightarrow>
       authFetched L info (Inr token) ts \<Longrightarrow> blobRequest d r token q \<Longrightarrow>
       respRequest resp' = q \<Longrightarrow> respStatusCode resp' = respStatusCode resp \<Longrightarrow>
       responseModified L resp' (Inl err) ms \<Longrightarrow> rwStatus w = Some 502 \<Longrightarrow>
       registryHandled L v d r (Answered w)
         (es @ ts @ [ERoundTrip q (Inr resp)] @ ms @ [ECloseBody (respBody resp)])"
| proxied:
    "IsRegistryAllowed v (idRegistryDomain d) \<Longrightarrow>
       infoObtained (idRegistryDomain d) (idRepositoryName d) (Inr info) es \<Longrightarrow>
       authFetched L info (Inr token) ts \<Longrightarrow> blobRequest d r token q \<Longrightarrow>
       respRequest resp' = q \<Longrightarrow> respStatusCode resp' = respStatusCode resp \<Longrightarrow>
       responseModified L resp' (Inr final) ms \<Longrightarrow>
       registryHandled L v d r (Proxied final) (es @ ts @ [ERoundTrip q (Inr resp)] @ ms)"

lemma canonicalKey_simps [simp]:
  "canonicalKey ''Authorization'' = ''Authorization''" "canonicalKey ''Te'' = ''Te''"
  "canonicalKey ''Connection'' = ''Connection''" "canonicalKey ''Upgrade'' = ''Upgrade''"
  "canonicalKey ''X-Forwarded-For'' = ''X-Forwarded-For''"
  "canonicalKey ''User-Agent'' = ''User-Agent''" "canonicalKey ''Content-Type'' = ''Content-Type''"
  "canonicalKey ''Content-Length'' = ''Content-Length''"
  "canonicalKey ''Transfer-Encoding'' = ''Transfer-Encoding''"
  by code_simp+

lemma outgoingRequest_authorization:
  "headerValues (reqHeader (outgoingRequest req out)) ''Authorization''
     \<in> {[], headerValues (reqHeader out) ''Authorization''}"
  using values_removeHopByHop_incl [of "reqHeader out" "''Authorization''"]
  by (auto simp: outgoingRequest_def Let_def split: option.split)

lemma blobRequest_director:
  "blobRequest d r token (outgoingRequest req
     (director \<lparr>urlScheme = ''https'', urlHost = idRegistryDomain d, urlPath = p, urlRawQuery = q\<rparr>
       token (idRepositoryName d) (idLayerDigest d) (r\<lparr>reqURL := u, reqHost := h\<rparr>)))"
  using outgoingRequest_authorization [of req "director
      \<lparr>urlScheme = ''https'', urlHost = idRegistryDomain d, urlPath = p, urlRawQuery = q\<rparr>
       token (idRepositoryName d) (idLayerDigest d) (r\<lparr>reqURL := u, reqHost := h\<rparr>)"]
  by (auto simp: blobRequest_def director_def)

lemma emits_proxyServeHTTP:
  assumes "\<And>err w. rwStatus w = Some 502 \<Longrightarrow>
      R (Answered w) [ERoundTrip (outgoingRequest req (dir req)) (Inl err)]"
    and "\<And>resp resp' err ms w. respRequest resp' = outgoingRequest req (dir req) \<Longrightarrow>
      respStatusCode resp' = respStatusCode resp \<Longrightarrow> responseModified L resp' (Inl err) ms \<Longrightarrow>
      rwStatus w = Some 502 \<Longrightarrow> R (Answered w)
        ([ERoundTrip (outgoingRequest req (dir req)) (Inr resp)] @ ms @ [ECloseBody (respBody resp)])"
    and "\<And>resp resp' final ms. respRequest resp' = outgoingRequest req (dir req) \<Longrightarrow>
      respStatusCode resp' = respStatusCode resp \<Longrightarrow> responseModified L resp' (Inr final) ms \<Longrightarrow>
      R (Proxied final) ([ERoundTrip (outgoingRequest req (dir req)) (Inr resp)] @ ms)"
  shows "emits (proxyServeHTTP L E dir req) R"
  unfolding proxyServeHTTP_def Let_def
  by (intro emits_rules emits_conseq [OF emits_modifyResponse])
    (auto intro: assms(1) assms(2) [simplified, rotated 2] assms(3) [simplified, rotated 2])

lemma emits_handleDockerRegistry:
  "emits (handleDockerRegistry L E r d v) (registryHandled L v d r)"
proof (cases "IsRegistryAllowed v (idRegistryDomain d)")
  case False
  then show ?thesis
    unfolding handleDockerRegistry_def Let_def
    by (intro emits_rules) (simp_all add: registryHandled.forbidden)
next
  case True
  have token: "emits (case riAuthMethod info of AuthBearer \<Rightarrow> getBearerToken L E (riTokenURL info)
      | AuthNone \<Rightarrow> ret (Inr [])) (authFetched L info)" for info
    using emits_getBearerToken [of L E "riTokenURL info"]
    by (cases "riAuthMethod info") (auto simp: authFetched_def emits_def)
  from True show ?thesis
    unfolding handleDockerRegistry_def Let_def
    by (simp, intro emits_rules emits_conseq [OF emits_getOrDetectRegistry] emits_conseq [OF token]
        emits_proxyServeHTTP)
      (simp_all add: registryHandled.undetected registryHandled.unauthenticated
        registryHandled.unreachable [OF _ _ _ blobRequest_director]
        registryHandled.bad_redirect [OF _ _ _ blobRequest_director, simplified]
        registryHandled.proxied [OF _ _ _ blobRequest_director, simplified])
qed

lemma detectRegistryAuth_cache:
  "registryCache (snd (run_state (detectRegistryAuth E domain repository) w)) = registryCache w"
  by (simp add: detectRegistryAuth_def split_beta split: sum.split)

lemma probed_domain: "probed domain repository (Inr info) es \<Longrightarrow> riDomain info = domain"
  by (auto simp: probed_def classifyProbe_def Let_def split: if_splits)

text \<open>What the lookup does to the cache, and that a live entry is served without a probe.\<close>

definition cacheStep ::
  "string \<Rightarrow> string \<Rightarrow> int \<Rightarrow> registry_cache \<Rightarrow> proxy_error + registry_info \<Rightarrow> registry_cache \<Rightarrow>
     event list \<Rightarrow> bool" where
  "cacheStep domain repository now c r c' es \<longleftrightarrow>
     (case cacheLookup c now (cacheKey domain repository) of
        Some info \<Rightarrow> r = Inr info \<and> c' = c \<and> es = [ENow now]
      | None \<Rightarrow>
          (\<exists>pre ps post. es = pre @ ps @ post \<and> probed domain repository r ps \<and>
             set pre \<subseteq> {ENow now} \<and>
             (case r of
                Inl _ \<Rightarrow> c' = c \<and> post = []
              | Inr info \<Rightarrow> \<exists>t. post = [ENow t] \<and>
                  c' = cacheStore c t (cacheKey domain repository) info)))"

lemma run_detectAndCache:
  assumes "run_state (detectAndCache E domain repository) w = (r, w')"
  obtains ps post where "trace w' = trace w @ ps @ post" "probed domain repository r ps"
    "case r of Inl _ \<Rightarrow> registryCache w' = registryCache w \<and> post = []
     | Inr info \<Rightarrow> \<exists>t. post = [ENow t] \<and>
         registryCache w' = cacheStore (registryCache w) t (cacheKey domain repository) info"
proof -
  obtain d w1 where d: "run_state (detectRegistryAuth E domain repository) w = (d, w1)" by fastforce
  have cache: "registryCache w1 = registryCache w"
    using detectRegistryAuth_cache [of E domain repository w] d by simp
  obtain ps where ps: "trace w1 = trace w @ ps" "probed domain repository d ps"
    using emitsD [OF emits_detectRegistryAuth d] by blast
  show thesis
  proof (cases d)
    case (Inl e)
    with assms d ps cache show thesis by (intro that [of ps "[]"]) (auto simp: detectAndCache_def)
  next
    case (Inr info)
    with assms d ps cache show thesis
      by (intro that [of ps "[ENow (fst (e_now E (ext w1)))]"]) (auto simp: detectAndCache_def)
  qed
qed

lemma run_getOrDetectRegistry:
  assumes "run_state (getOrDetectRegistry E domain repository) w = (r, w')"
  shows "\<exists>es. trace w' = trace w @ es \<and>
    cacheStep domain repository (fst (e_now E (ext w))) (registryCache w) r (registryCache w') es"
proof (cases "cacheLookup (registryCache w) (fst (e_now E (ext w))) (cacheKey domain repository)")
  case (Some info)
  then obtain e where "registryCache w (cacheKey domain repository) = Some e" "ceInfo e = info"
    "fst (e_now E (ext w)) < ceExpiresAt e"
    by (auto simp: cacheLookup_Some)
  with Some assms show ?thesis by (auto simp: getOrDetectRegistry_def cacheStep_def)
next
  case None
  let ?now = "fst (e_now E (ext w))"
  obtain w1 pre where w1: "run_state (detectAndCache E domain repository) w1 = (r, w')"
    "trace w1 = trace w @ pre" "set pre \<subseteq> {ENow ?now}" "registryCache w1 = registryCache w"
  proof (cases "registryCache w (cacheKey domain repository)")
    case None
    then show thesis using assms that [of w "[]"] by (simp add: getOrDetectRegistry_def)
  next
    case (Some e)
    moreover have "\<not> ?now < ceExpiresAt e" using None Some by (simp add: cacheLookup_def split: if_splits)
    ultimately show thesis
      using assms that [of "w\<lparr>ext := snd (e_now E (ext w)), trace := trace w @ [ENow ?now]\<rparr>" "[ENow ?now]"]
      by (simp add: getOrDetectRegistry_def)
  qed
  obtain ps post where "trace w' = trace w1 @ ps @ post" "probed domain repository r ps"
    "case r of Inl _ \<Rightarrow> registryCache w' = registryCache w1 \<and> post = []
     | Inr info \<Rightarrow> \<exists>t. post = [ENow t] \<and>
         registryCache w' = cacheStore (registryCache w1) t (cacheKey domain repository) info"
    by (rule run_detectAndCache [OF w1(1)])
  note run = this [unfolded w1(2,4)]
  show ?thesis
    unfolding cacheStep_def
    by (rule exI [of _ "pre @ ps @ post"]) (use run w1(3) None in auto)
qed

section \<open>Properties\<close>

text \<open>C16: A response that is not a redirect causes no call; a redirect causes one GET request to its
  location. If the location has the host of the original request (ports included, case ignored)
  and is not a downgrade from HTTPS to HTTP, that request carries all header values of the
  original; otherwise it carries all but \<open>Authorization\<close>, \<open>Cookie\<close> and \<open>Proxy-Authorization\<close>, in
  any spelling. The client gets the redirected response, and the first body is closed.\<close>

theorem modifyResponse_correct:
  "emits (modifyResponse L E resp) (responseModified L resp)"
  by (rule emits_modifyResponse)

text \<open>C15: The proxy contacts nobody for a registry the allow list does not admit (403). For an
  admitted one it obtains the authentication method, a token if needed (401 without one), and
  sends one request, over HTTPS, to that registry, for exactly the requested blob, with no
  credentials but that token or the client's own; failures upstream are answered 502.\<close>

theorem handleDockerRegistry_correct:
  "emits (handleDockerRegistry L E r d v) (registryHandled L v d r)"
  by (rule emits_handleDockerRegistry)

text \<open>The registry lookup serves a live cache entry without any request and without changing the
  cache; otherwise it probes the registry once and caches exactly the outcome of a successful
  probe under the key of registry and repository; a failed probe leaves the cache as it was.\<close>

theorem getOrDetectRegistry_correct:
  "case run_state (getOrDetectRegistry E domain repository) w of (r, w') \<Rightarrow>
     \<exists>es. trace w' = trace w @ es \<and>
       cacheStep domain repository (fst (e_now E (ext w))) (registryCache w) r (registryCache w') es"
  by (auto split: prod.split intro!: run_getOrDetectRegistry)

text \<open>A token is returned exactly when the token endpoint answers 200, the first 64 KiB of its
  body can be read and decode, and one of the two token fields is not empty; the OAuth2 field
  takes precedence. The answer does not depend on what follows the first 64 KiB.\<close>

theorem tokenOf_correct:
  "tokenOf L resp = Inr t \<longleftrightarrow>
     t \<noteq> [] \<and> respStatusCode resp = 200 \<and>
     (bodyError (respBody resp) = None \<or> 65536 \<le> length (bodyContent (respBody resp))) \<and>
     (\<exists>tr. l_decodeToken L (take 65536 (bodyContent (respBody resp))) = Inr tr \<and>
        t = (if tokAccessToken tr \<noteq> [] then tokAccessToken tr else tokToken tr))"
  by (auto simp: tokenOf_def readLimited_def maxTokenResponseSize_def split: sum.split option.split)

text \<open>The final response has no transfer encoding left, presents a UKI as an EFI application,
  has its length filled in when the header lacked it, and every other header unchanged.\<close>

lemma rewriteResponse_correct:
  "respTransferEncoding (rewriteResponse resp) = [] \<and>
   headerGet (respHeader (rewriteResponse resp)) ''Content-Type'' =
     (if headerGet (respHeader resp) ''Content-Type'' = MediaTypeUKI then ''application/efi''
      else headerGet (respHeader resp) ''Content-Type'') \<and>
   headerGet (respHeader (rewriteResponse resp)) ''Content-Length'' =
     (if headerGet (respHeader resp) ''Content-Length'' = [] \<and> respContentLength resp > 0
      then itoaInt (respContentLength resp)
      else headerGet (respHeader resp) ''Content-Length'') \<and>
   headerValues (respHeader (rewriteResponse resp)) ''Transfer-Encoding'' =
     (if respTransferEncoding resp \<noteq> [] then []
      else headerValues (respHeader resp) ''Transfer-Encoding'') \<and>
   {k. headerValues (respHeader (rewriteResponse resp)) k \<noteq> headerValues (respHeader resp) k}
     \<subseteq> {k. canonicalKey k \<in> {''Content-Type'', ''Content-Length'', ''Transfer-Encoding''}}"
  by (auto simp: rewriteResponse_def Let_def headerGet_def)

end
