(* ===== verification/ControllerHelpers.thy ===== *)
theory ControllerHelpers
  imports Conditions
begin

text \<open>
  The helpers that both \<open>ServerBootConfiguration\<close> reconcilers share,
  \<^verbatim>\<open>internal/controller/serverbootconfig_helpers.go\<close> and \<^verbatim>\<open>helper.go\<close>: image
  references and image proxy URLs, the network identifiers of a server, the requests that a
  changed secret triggers and the error status.
\<close>

section \<open>The code\<close>

definition fieldOwner :: string where "fieldOwner = ''boot.ironcore.dev/controller-manager''"

text \<open>The pair is the image name and its version: the tag, else the digest, else \<open>latest\<close>.\<close>

definition ParseImageReference :: "lib \<Rightarrow> string \<Rightarrow> string + (string \<times> string)" where
  "ParseImageReference L img =
     (case l_parseNormalizedNamed L img of
        Inl err \<Rightarrow> Inl (''invalid image reference: '' @ err)
      | Inr named \<Rightarrow>
          (case refTag named of
             Some t \<Rightarrow> Inr (refFamiliarName named, t)
           | None \<Rightarrow>
               (case refDigest named of
                  Some d \<Rightarrow> Inr (refFamiliarName named, d)
                | None \<Rightarrow> Inr (refFamiliarName named, ''latest''))))"

definition BuildImageReference :: "string \<Rightarrow> string \<Rightarrow> string" where
  "BuildImageReference imageName imageVersion =
     (if hasPrefix imageVersion ''sha256:'' \<or> hasPrefix imageVersion ''sha512:''
      then imageName @ ''@'' @ imageVersion
      else imageName @ '':'' @ imageVersion)"

definition buildImageURL :: "string \<Rightarrow> string \<Rightarrow> string \<Rightarrow> string \<Rightarrow> string" where
  "buildImageURL serviceURL imageName imageVersion layerDigest =
     (let params = [];
          params = valuesSet params ''imageName'' imageName;
          params = valuesSet params ''version'' imageVersion;
          params = valuesSet params ''layerDigest'' layerDigest
      in serviceURL @ ''/image?'' @ valuesEncode params)"

definition nicAddresses :: "network_interface \<Rightarrow> string list" where
  "nicAddresses nic =
     (if nicIPs nic \<noteq> [] then map ipString (nicIPs nic)
      else case nicIP nic of
        Some ip \<Rightarrow> if \<not> ipIsZero ip then [ipString ip] else []
      | None \<Rightarrow> [])"

definition ExtractServerNetworkIDs :: "server \<Rightarrow> bool \<Rightarrow> string list" where
  "ExtractServerNetworkIDs srv includeMACAddresses =
     foldl (\<lambda>ids nic. ids @ nicAddresses nic @
       (if includeMACAddresses \<and> nicMACAddress nic \<noteq> [] then [nicMACAddress nic] else []))
       [] (serverNetworkInterfaces srv)"

definition EnqueueServerBootConfigsReferencingSecret ::
  "'s env \<Rightarrow> client_object \<Rightarrow> ('s, 'z, namespaced_name list) io" where
  "EnqueueServerBootConfigsReferencingSecret E obj =
     (case obj of
        SecretObj secretObj \<Rightarrow> do {
          listed \<leftarrow> listSBC E ManagerClient (InNamespace (metaNamespace (secretMeta secretObj)));
          ret (case listed of
             Inl err \<Rightarrow> []
           | Inr items \<Rightarrow>
               map (\<lambda>bc. NN (metaNamespace (sbcMeta bc)) (metaName (sbcMeta bc)))
                 (filter (\<lambda>bc. sbcIgnitionSecretRef bc = Some (metaName (secretMeta secretObj))) items)) }
      | _ \<Rightarrow> ret [])"

definition validationFailed :: "server_boot_config \<Rightarrow> string \<Rightarrow> condition" where
  "validationFailed cur msg =
     \<lparr>condType = ''ImageValidation'', condStatus = ConditionFalse,
      condReason = ''ValidationFailed'', condMessage = msg,
      condObservedGeneration = metaGeneration (sbcMeta cur), condLastTransitionTime = 0\<rparr>"

datatype patch_error = FetchFailed api_error | PatchFailed api_error

definition PatchServerBootConfigWithError ::
  "lib \<Rightarrow> 's env \<Rightarrow> namespaced_name \<Rightarrow> string \<Rightarrow> ('s, 'z, patch_error option) io" where
  "PatchServerBootConfigWithError L E namespacedName msg = do {
     got \<leftarrow> getSBC E ManagerClient namespacedName;
     (case got of
        Inl err \<Rightarrow> ret (Some (FetchFailed err))
      | Inr cur \<Rightarrow> do {
          now \<leftarrow> timeNow E;
          err \<leftarrow> patchSBCStatus E cur (cur\<lparr>sbcState := SBCStateError,
            sbcConditions := l_setStatusCondition L now (sbcConditions cur) (validationFailed cur msg)\<rparr>);
          ret (map_option PatchFailed err) }) }"

section \<open>URLs and references\<close>

definition proxyQuery :: "string \<Rightarrow> string \<Rightarrow> string \<Rightarrow> url_values" where
  "proxyQuery imageName version layerDigest =
     [(''imageName'', imageName), (''layerDigest'', layerDigest), (''version'', version)]"

text \<open>The query string of an image proxy URL: its parameters, in the order of their keys.\<close>

lemma buildImageURL_query:
  "buildImageURL svc name version digest = svc @ ''/image?'' @ encodePairs (proxyQuery name version digest)"
proof -
  have le: "''imageName'' \<le> ''layerDigest''" "''layerDigest'' \<le> ''version''" "''imageName'' \<le> ''version''"
    "\<not> ''version'' \<le> ''layerDigest''"
    by (simp_all add: less_char_def)
  then show ?thesis
    by (simp add: buildImageURL_def valuesSet_def valuesEncode_def proxyQuery_def)
qed

lemma parseQuery_proxyQuery: "parseQuery (encodePairs (proxyQuery n v d)) = proxyQuery n v d"
  by (rule parseQuery_encodePairs) (simp add: proxyQuery_def)

lemma valuesGet_proxyQuery [simp]:
  "valuesGet (proxyQuery n v d) ''imageName'' = n"
  "valuesGet (proxyQuery n v d) ''layerDigest'' = d"
  "valuesGet (proxyQuery n v d) ''version'' = v"
  by (simp_all add: proxyQuery_def valuesGet_def)

section \<open>Network identifiers\<close>

lemma foldl_append_concat: "foldl (\<lambda>acc x. acc @ f x) acc xs = acc @ concat (map f xs)"
  by (induction xs arbitrary: acc) simp_all

lemma ExtractServerNetworkIDs_concat:
  "ExtractServerNetworkIDs srv m = concat (map (\<lambda>nic. nicAddresses nic @
     (if m \<and> nicMACAddress nic \<noteq> [] then [nicMACAddress nic] else [])) (serverNetworkInterfaces srv))"
  unfolding ExtractServerNetworkIDs_def by (simp add: foldl_append_concat)

end
