(* ===== verification/BootControllers.thy ===== *)
theory BootControllers
  imports ControllerHelpers
begin

text \<open>
  The reconcilers of the two boot resources, \<^verbatim>\<open>internal/controller/httpbootconfig_controller.go\<close>
  and \<^verbatim>\<open>ipxebootconfig_controller.go\<close>: the check of the ignition secret and the status
  it results in. What the two have in common is the locale \<open>status_reconciler\<close>; they differ
  in when they patch and in which errors they return.
\<close>

section \<open>HTTPBootConfigReconciler\<close>

datatype ignition_error = IgnitionGetFailed api_error | IgnitionDataMissing

datatype reconcile_error =
    ReconcileGetFailed api_error
  | EnsureIgnitionFailed ignition_error
  | PatchStatusFailed api_error

definition httpEnsureIgnition ::
  "'s env \<Rightarrow> http_boot_config \<Rightarrow> ('s, 'z, string \<times> ignition_error option) io" where
  "httpEnsureIgnition E config =
     (case httpIgnitionSecretRef (httpSpec config) of
        Some ref \<Rightarrow> do {
          got \<leftarrow> getSecret E ManagerClient (NN (metaNamespace (httpMeta config)) ref);
          ret (case got of
             Inl err \<Rightarrow> (HTTPBootConfigStateError, Some (IgnitionGetFailed err))
           | Inr ignitionSecret \<Rightarrow>
               if dataIndex (secretData ignitionSecret) DefaultIgnitionKey = NilBytes
               then (HTTPBootConfigStateError, Some IgnitionDataMissing)
               else (HTTPBootConfigStateReady, None)) }
      | None \<Rightarrow> ret (HTTPBootConfigStateReady, None))"

definition httpPatchStatus ::
  "'s env \<Rightarrow> http_boot_config \<Rightarrow> string \<Rightarrow> ('s, 'z, api_error option) io" where
  "httpPatchStatus E config st =
     (if httpState (httpStatus config) = st then ret None
      else patchHTTPStatus E config (config\<lparr>httpStatus := (httpStatus config)\<lparr>httpState := st\<rparr>\<rparr>))"

definition httpReconcile ::
  "'s env \<Rightarrow> http_boot_config \<Rightarrow> ('s, 'z, reconcile_error option) io" where
  "httpReconcile E config = do {
     (st, err) \<leftarrow> httpEnsureIgnition E config;
     (case err of
        Some _ \<Rightarrow> do {
          perr \<leftarrow> httpPatchStatus E config st;
          ret (case perr of Some err \<Rightarrow> Some (PatchStatusFailed err) | None \<Rightarrow> None) }
      | None \<Rightarrow> do {
          perr \<leftarrow> httpPatchStatus E config st;
          ret (case perr of Some err \<Rightarrow> Some (PatchStatusFailed err) | None \<Rightarrow> None) }) }"

definition httpDelete :: "http_boot_config \<Rightarrow> ('s, 'z, reconcile_error option) io" where
  "httpDelete config = ret None"

definition httpReconcileExists ::
  "'s env \<Rightarrow> http_boot_config \<Rightarrow> ('s, 'z, reconcile_error option) io" where
  "httpReconcileExists E config =
     (if metaDeletionTimestamp (httpMeta config) \<noteq> None then httpDelete config
      else httpReconcile E config)"

definition HTTPBootConfig_Reconcile ::
  "'s env \<Rightarrow> namespaced_name \<Rightarrow> ('s, 'z, reconcile_error option) io" where
  "HTTPBootConfig_Reconcile E req = do {
     got \<leftarrow> getHTTP E ManagerClient req;
     (case got of
        Inl err \<Rightarrow> ret (if isNotFound err then None else Some (ReconcileGetFailed err))
      | Inr config \<Rightarrow> httpReconcileExists E config) }"

definition enqueueHTTPBootConfigReferencingIgnitionSecret ::
  "'s env \<Rightarrow> client_object \<Rightarrow> ('s, 'z, namespaced_name list) io" where
  "enqueueHTTPBootConfigReferencingIgnitionSecret E obj =
     (case obj of
        SecretObj secretObj \<Rightarrow> do {
          listed \<leftarrow> listHTTP E ManagerClient (InNamespace (metaNamespace (secretMeta secretObj)));
          ret (case listed of
             Inl err \<Rightarrow> []
           | Inr items \<Rightarrow>
               map (\<lambda>c. NN (metaNamespace (httpMeta c)) (metaName (httpMeta c)))
                 (filter (\<lambda>c. httpIgnitionSecretRef (httpSpec c) = Some (metaName (secretMeta secretObj)))
                   items)) }
      | _ \<Rightarrow> ret [])"

section \<open>IPXEBootConfigReconciler\<close>

definition ipxeEnsureIgnition ::
  "'s env \<Rightarrow> ipxe_boot_config \<Rightarrow> ('s, 'z, string \<times> ignition_error option) io" where
  "ipxeEnsureIgnition E config =
     (case ipxeIgnitionSecretRef (ipxeSpec config) of
        Some ref \<Rightarrow> do {
          got \<leftarrow> getSecret E ManagerClient (NN (metaNamespace (ipxeMeta config)) ref);
          ret (case got of
             Inl err \<Rightarrow> (IPXEBootConfigStateError, Some (IgnitionGetFailed err))
           | Inr ignitionSecret \<Rightarrow>
               if dataIndex (secretData ignitionSecret) DefaultIgnitionKey = NilBytes
               then (IPXEBootConfigStateError, Some IgnitionDataMissing)
               else (IPXEBootConfigStateReady, None)) }
      | None \<Rightarrow> ret (IPXEBootConfigStateReady, None))"

definition ipxePatchStatus ::
  "'s env \<Rightarrow> ipxe_boot_config \<Rightarrow> string \<Rightarrow> ('s, 'z, api_error option) io" where
  "ipxePatchStatus E config st =
     patchIPXEStatus E config (config\<lparr>ipxeStatus := (ipxeStatus config)\<lparr>ipxeState := st\<rparr>\<rparr>)"

definition ipxeReconcile ::
  "'s env \<Rightarrow> ipxe_boot_config \<Rightarrow> ('s, 'z, reconcile_error option) io" where
  "ipxeReconcile E config = do {
     (st, err) \<leftarrow> ipxeEnsureIgnition E config;
     (case err of
        Some err \<Rightarrow> do {
          perr \<leftarrow> ipxePatchStatus E config st;
          ret (case perr of Some err \<Rightarrow> Some (PatchStatusFailed err)
            | None \<Rightarrow> Some (EnsureIgnitionFailed err)) }
      | None \<Rightarrow> do {
          perr \<leftarrow> ipxePatchStatus E config st;
          ret (case perr of Some err \<Rightarrow> Some (PatchStatusFailed err) | None \<Rightarrow> None) }) }"

definition ipxeDelete :: "ipxe_boot_config \<Rightarrow> ('s, 'z, reconcile_error option) io" where
  "ipxeDelete config = ret None"

definition ipxeReconcileExists ::
  "'s env \<Rightarrow> ipxe_boot_config \<Rightarrow> ('s, 'z, reconcile_error option) io" where
  "ipxeReconcileExists E config =
     (if metaDeletionTimestamp (ipxeMeta config) \<noteq> None then ipxeDelete config
      else ipxeReconcile E config)"

definition IPXEBootConfig_Reconcile ::
  "'s env \<Rightarrow> namespaced_name \<Rightarrow> ('s, 'z, reconcile_error option) io" where
  "IPXEBootConfig_Reconcile E req = do {
     got \<leftarrow> getIPXE E ManagerClient req;
     (case got of
        Inl err \<Rightarrow> ret (if isNotFound err then None else Some (ReconcileGetFailed err))
      | Inr config \<Rightarrow> ipxeReconcileExists E config) }"

definition enqueueIPXEBootConfigReferencingIgnitionSecret ::
  "'s env \<Rightarrow> client_object \<Rightarrow> ('s, 'z, namespaced_name list) io" where
  "enqueueIPXEBootConfigReferencingIgnitionSecret E obj =
     (case obj of
        SecretObj secretObj \<Rightarrow> do {
          listed \<leftarrow> listIPXE E ManagerClient (InNamespace (metaNamespace (secretMeta secretObj)));
          ret (case listed of
             Inl err \<Rightarrow> []
           | Inr items \<Rightarrow>
               map (\<lambda>c. NN (metaNamespace (ipxeMeta c)) (metaName (ipxeMeta c)))
                 (filter (\<lambda>c. ipxeIgnitionSecretRef (ipxeSpec c) = Some (metaName (secretMeta secretObj)))
                   items)) }
      | _ \<Rightarrow> ret [])"

section \<open>The contract of both reconcilers\<close>

text \<open>
  The check of the ignition secret \<open>key\<close> of a resource (\<open>None\<close>: the resource names none):
  its calls, the state it asks for and its error.
\<close>

definition secretUsable :: "secret \<Rightarrow> bool" where
  "secretUsable s \<longleftrightarrow> (\<exists>d. secretData s DefaultIgnitionKey = Some (Bytes d))"

inductive ignitionChecked ::
  "namespaced_name option \<Rightarrow> string \<times> ignition_error option \<Rightarrow> event list \<Rightarrow> bool" where
  no_secret: "ignitionChecked None (''Ready'', None) []"
| usable: "secretUsable s \<Longrightarrow>
    ignitionChecked (Some key) (''Ready'', None) [EGetSecret ManagerClient key (Inr s)]"
| unusable: "\<not> secretUsable s \<Longrightarrow>
    ignitionChecked (Some key) (''Error'', Some IgnitionDataMissing) [EGetSecret ManagerClient key (Inr s)]"
| absent:
    "ignitionChecked (Some key) (''Error'', Some (IgnitionGetFailed err)) [EGetSecret ManagerClient key (Inl err)]"

inductive_cases ignitionChecked_elims: "ignitionChecked key r es"

lemma dataIndex_NilBytes:
  "dataIndex (secretData s) DefaultIgnitionKey = NilBytes \<longleftrightarrow> \<not> secretUsable s"
  by (auto simp: dataIndex_def secretUsable_def split: option.split) (metis bytesOf.cases)

lemma ignitionChecked_ready:
  assumes "ignitionChecked key (st, err) es"
  shows "st = ''Ready'' \<longleftrightarrow> err = None"
  using assms by cases auto

text \<open>
  A reconciler that derives a status from a check and patches it. \<open>statusPatched\<close> says that the
  patch sets the state and nothing else, and exactly when it is made: by a reconciler that
  \<open>always\<close> patches in every run, by the other one unless the resource has that state already.
\<close>

definition statusPatched ::
  "bool \<Rightarrow> ('a \<Rightarrow> string) \<Rightarrow> (string \<Rightarrow> 'a \<Rightarrow> 'a) \<Rightarrow> ('a \<Rightarrow> 'a \<Rightarrow> api_error option \<Rightarrow> event) \<Rightarrow>
     'a \<Rightarrow> string \<Rightarrow> api_error option \<Rightarrow> event list \<Rightarrow> bool" where
  "statusPatched always stateOf withState patchEvent x st err es \<longleftrightarrow>
     (if always \<or> stateOf x \<noteq> st then es = [patchEvent x (withState st x) err]
      else es = [] \<and> err = None)"

text \<open>A complete run: the check, then the patch with the state it asked for.\<close>

definition reconciled ::
  "namespaced_name option \<Rightarrow> (string \<Rightarrow> api_error option \<Rightarrow> event list \<Rightarrow> bool) \<Rightarrow>
     (ignition_error option \<Rightarrow> api_error option \<Rightarrow> 'r) \<Rightarrow> 'r \<Rightarrow> event list \<Rightarrow> bool" where
  "reconciled key patched result r es \<longleftrightarrow>
     (\<exists>st ierr perr es1 es2. es = es1 @ es2 \<and> ignitionChecked key (st, ierr) es1 \<and>
        patched st perr es2 \<and> r = result ierr perr)"

lemma reconciledI:
  "ignitionChecked key (st, ierr) es1 \<Longrightarrow> patched st perr es2 \<Longrightarrow>
     reconciled key patched result (result ierr perr) (es1 @ es2)"
  unfolding reconciled_def by blast

locale status_reconciler =
  fixes ensure :: "'a \<Rightarrow> ('s, 'z, string \<times> ignition_error option) io"
    and patch :: "'a \<Rightarrow> string \<Rightarrow> ('s, 'z, api_error option) io"
    and stateOf :: "'a \<Rightarrow> string"
    and withState :: "string \<Rightarrow> 'a \<Rightarrow> 'a"
    and patchEvent :: "'a \<Rightarrow> 'a \<Rightarrow> api_error option \<Rightarrow> event"
    and secretKey :: "'a \<Rightarrow> namespaced_name option"
    and always :: bool
  assumes ensure_spec: "emits (ensure x) (ignitionChecked (secretKey x))"
    and patch_spec: "emits (patch x st) (statusPatched always stateOf withState patchEvent x st)"
begin

lemma emits_reconcile:
  "emits (do { (st, ierr) \<leftarrow> ensure x; perr \<leftarrow> patch x st; ret (result ierr perr) })
    (reconciled (secretKey x) (statusPatched always stateOf withState patchEvent x) result)"
  by (intro emits_rules emits_conseq [OF ensure_spec] emits_conseq [OF patch_spec])
    (simp add: reconciledI)

text \<open>Without a usable secret the resource never stays, nor becomes, anything but \<open>Error\<close>.\<close>

lemma reconciled_error:
  assumes "reconciled (secretKey x) (statusPatched always stateOf withState patchEvent x) result r es"
    and "secretKey x = Some key" "\<nexists>s. EGetSecret ManagerClient key (Inr s) \<in> set es \<and> secretUsable s"
  shows "stateOf x = ''Error'' \<or> (\<exists>perr. last es = patchEvent x (withState ''Error'' x) perr)"
proof -
  obtain st ierr perr es1 es2 where *: "es = es1 @ es2" "ignitionChecked (secretKey x) (st, ierr) es1"
    "statusPatched always stateOf withState patchEvent x st perr es2"
    using assms(1) unfolding reconciled_def by blast
  have "st = ''Error''"
    using *(2) assms(2,3) *(1) by cases auto
  with *(1,3) show ?thesis by (auto simp: statusPatched_def split: if_splits)
qed

end

definition httpWithState :: "string \<Rightarrow> http_boot_config \<Rightarrow> http_boot_config" where
  "httpWithState st x = x\<lparr>httpStatus := (httpStatus x)\<lparr>httpState := st\<rparr>\<rparr>"

definition ipxeWithState :: "string \<Rightarrow> ipxe_boot_config \<Rightarrow> ipxe_boot_config" where
  "ipxeWithState st x = x\<lparr>ipxeStatus := (ipxeStatus x)\<lparr>ipxeState := st\<rparr>\<rparr>"

definition httpSecretKey :: "http_boot_config \<Rightarrow> namespaced_name option" where
  "httpSecretKey x = map_option (NN (metaNamespace (httpMeta x))) (httpIgnitionSecretRef (httpSpec x))"

definition ipxeSecretKey :: "ipxe_boot_config \<Rightarrow> namespaced_name option" where
  "ipxeSecretKey x = map_option (NN (metaNamespace (ipxeMeta x))) (ipxeIgnitionSecretRef (ipxeSpec x))"

lemmas boot_states = HTTPBootConfigStateReady_def HTTPBootConfigStateError_def
  IPXEBootConfigStateReady_def IPXEBootConfigStateError_def

interpretation http_status: status_reconciler "httpEnsureIgnition E" "httpPatchStatus E"
    "\<lambda>x. httpState (httpStatus x)" httpWithState EPatchHTTPStatus httpSecretKey False for E
proof unfold_locales
  fix x :: http_boot_config and st
  show "emits (httpEnsureIgnition E x) (ignitionChecked (httpSecretKey x))"
    unfolding httpEnsureIgnition_def
    by (intro emits_rules) (auto simp: httpSecretKey_def dataIndex_NilBytes boot_states
      intro: ignitionChecked.intros split: sum.split)
  show "emits (httpPatchStatus E x st)
      (statusPatched False (\<lambda>x. httpState (httpStatus x)) httpWithState EPatchHTTPStatus x st)"
    unfolding httpPatchStatus_def
    by (intro emits_rules) (auto simp: statusPatched_def httpWithState_def)
qed

interpretation ipxe_status: status_reconciler "ipxeEnsureIgnition E" "ipxePatchStatus E"
    "\<lambda>x. ipxeState (ipxeStatus x)" ipxeWithState EPatchIPXEStatus ipxeSecretKey True for E
proof unfold_locales
  fix x :: ipxe_boot_config and st
  show "emits (ipxeEnsureIgnition E x) (ignitionChecked (ipxeSecretKey x))"
    unfolding ipxeEnsureIgnition_def
    by (intro emits_rules) (auto simp: ipxeSecretKey_def dataIndex_NilBytes boot_states
      intro: ignitionChecked.intros split: sum.split)
  show "emits (ipxePatchStatus E x st)
      (statusPatched True (\<lambda>x. ipxeState (ipxeStatus x)) ipxeWithState EPatchIPXEStatus x st)"
    unfolding ipxePatchStatus_def
    by (intro emits_rules) (auto simp: statusPatched_def ipxeWithState_def)
qed

section \<open>The reconcilers\<close>

lemma httpReconcile_alt:
  "httpReconcile E config = do {
     (st, ierr) \<leftarrow> httpEnsureIgnition E config;
     perr \<leftarrow> httpPatchStatus E config st;
     ret (map_option PatchStatusFailed perr) }"
  unfolding httpReconcile_def
  by (intro arg_cong2 [where f = State_Monad.bind] refl ext)
    (auto simp: map_option_case split: option.split)

lemma ipxeReconcile_alt:
  "ipxeReconcile E config = do {
     (st, ierr) \<leftarrow> ipxeEnsureIgnition E config;
     perr \<leftarrow> ipxePatchStatus E config st;
     ret (case perr of Some err \<Rightarrow> Some (PatchStatusFailed err)
       | None \<Rightarrow> map_option EnsureIgnitionFailed ierr) }"
  unfolding ipxeReconcile_def
  by (intro arg_cong2 [where f = State_Monad.bind] refl ext)
    (auto split: option.split cong: option.case_cong)

definition httpReconciled ::
  "namespaced_name \<Rightarrow> reconcile_error option \<Rightarrow> event list \<Rightarrow> bool" where
  "httpReconciled req r es \<longleftrightarrow>
     (\<exists>got rest. es = EGetHTTP ManagerClient req got # rest \<and>
        (case got of
           Inl err \<Rightarrow> rest = [] \<and> r = (if isNotFound err then None else Some (ReconcileGetFailed err))
         | Inr config \<Rightarrow>
             if metaDeletionTimestamp (httpMeta config) \<noteq> None then rest = [] \<and> r = None
             else reconciled (httpSecretKey config)
               (statusPatched False (\<lambda>x. httpState (httpStatus x)) httpWithState EPatchHTTPStatus config)
               (\<lambda>ierr perr. map_option PatchStatusFailed perr) r rest))"

definition ipxeReconciled ::
  "namespaced_name \<Rightarrow> reconcile_error option \<Rightarrow> event list \<Rightarrow> bool" where
  "ipxeReconciled req r es \<longleftrightarrow>
     (\<exists>got rest. es = EGetIPXE ManagerClient req got # rest \<and>
        (case got of
           Inl err \<Rightarrow> rest = [] \<and> r = (if isNotFound err then None else Some (ReconcileGetFailed err))
         | Inr config \<Rightarrow>
             if metaDeletionTimestamp (ipxeMeta config) \<noteq> None then rest = [] \<and> r = None
             else reconciled (ipxeSecretKey config)
               (statusPatched True (\<lambda>x. ipxeState (ipxeStatus x)) ipxeWithState EPatchIPXEStatus config)
               (\<lambda>ierr perr. case perr of Some err \<Rightarrow> Some (PatchStatusFailed err)
                 | None \<Rightarrow> map_option EnsureIgnitionFailed ierr) r rest))"

section \<open>Properties\<close>

text \<open>C22: Reconciling an \<open>HTTPBootConfig\<close> leaves a missing or deleted one alone. Otherwise it reads the
  ignition secret the resource names, in the resource's namespace, and derives \<open>Ready\<close> (no secret
  named, or one that holds ignition data) or \<open>Error\<close>. It then patches exactly the state if, and only
  if, the resource does not have it already; an ignition problem is not an error of the reconciler,
  so it is not retried until the secret changes.\<close>

theorem HTTPBootConfig_Reconcile_correct:
  "emits (HTTPBootConfig_Reconcile E req) (httpReconciled req)"
  unfolding HTTPBootConfig_Reconcile_def httpReconcileExists_def httpDelete_def httpReconcile_alt
  by (intro emits_rules emits_conseq [OF http_status.emits_reconcile])
    (auto simp: httpReconciled_def)

text \<open>C23: Reconciling an \<open>IPXEBootConfig\<close> does the same, but it patches the state in every run, also
  when it is unchanged, and returns an ignition problem as an error, so that it is retried.\<close>

theorem IPXEBootConfig_Reconcile_correct:
  "emits (IPXEBootConfig_Reconcile E req) (ipxeReconciled req)"
  unfolding IPXEBootConfig_Reconcile_def ipxeReconcileExists_def ipxeDelete_def ipxeReconcile_alt
  by (intro emits_rules emits_conseq [OF ipxe_status.emits_reconcile])
    (auto simp: ipxeReconciled_def)

text \<open>The requests that a change of the secret \<open>s\<close> should cause.\<close>

definition enqueued :: "secret \<Rightarrow> ('a \<Rightarrow> object_meta) \<Rightarrow> ('a \<Rightarrow> string option) \<Rightarrow>
    api_error + 'a list \<Rightarrow> namespaced_name set" where
  "enqueued s getMeta ref listed =
     (case listed of Inl _ \<Rightarrow> {}
      | Inr items \<Rightarrow> {objectKey (getMeta c) |c. c \<in> set items \<and> ref c = Some (metaName (secretMeta s))})"

text \<open>C37: A change of a secret enqueues exactly the boot configurations of its namespace that the
  list answers and that name it as their ignition secret; anything but a secret enqueues
  nothing.\<close>

theorem enqueue_correct:
  "emits (enqueueHTTPBootConfigReferencingIgnitionSecret E (SecretObj s)) (\<lambda>r es.
     \<exists>listed. es = [EListHTTP ManagerClient (InNamespace (metaNamespace (secretMeta s))) listed] \<and>
       set r = enqueued s httpMeta (\<lambda>c. httpIgnitionSecretRef (httpSpec c)) listed) \<and>
   emits (enqueueIPXEBootConfigReferencingIgnitionSecret E (SecretObj s)) (\<lambda>r es.
     \<exists>listed. es = [EListIPXE ManagerClient (InNamespace (metaNamespace (secretMeta s))) listed] \<and>
       set r = enqueued s ipxeMeta (\<lambda>c. ipxeIgnitionSecretRef (ipxeSpec c)) listed) \<and>
   emits (EnqueueServerBootConfigsReferencingSecret E (SecretObj s)) (\<lambda>r es.
     \<exists>listed. es = [EListSBC ManagerClient (InNamespace (metaNamespace (secretMeta s))) listed] \<and>
       set r = enqueued s sbcMeta sbcIgnitionSecretRef listed)"
proof (intro conjI)
  show "emits (enqueueHTTPBootConfigReferencingIgnitionSecret E (SecretObj s)) (\<lambda>r es.
     \<exists>listed. es = [EListHTTP ManagerClient (InNamespace (metaNamespace (secretMeta s))) listed] \<and>
       set r = enqueued s httpMeta (\<lambda>c. httpIgnitionSecretRef (httpSpec c)) listed)"
    unfolding enqueueHTTPBootConfigReferencingIgnitionSecret_def client_object.case
    by (intro emits_rules) (auto simp: enqueued_def objectKey_def split: sum.split)
  show "emits (enqueueIPXEBootConfigReferencingIgnitionSecret E (SecretObj s)) (\<lambda>r es.
     \<exists>listed. es = [EListIPXE ManagerClient (InNamespace (metaNamespace (secretMeta s))) listed] \<and>
       set r = enqueued s ipxeMeta (\<lambda>c. ipxeIgnitionSecretRef (ipxeSpec c)) listed)"
    unfolding enqueueIPXEBootConfigReferencingIgnitionSecret_def client_object.case
    by (intro emits_rules) (auto simp: enqueued_def objectKey_def split: sum.split)
  show "emits (EnqueueServerBootConfigsReferencingSecret E (SecretObj s)) (\<lambda>r es.
     \<exists>listed. es = [EListSBC ManagerClient (InNamespace (metaNamespace (secretMeta s))) listed] \<and>
       set r = enqueued s sbcMeta sbcIgnitionSecretRef listed)"
    unfolding EnqueueServerBootConfigsReferencingSecret_def client_object.case
    by (intro emits_rules) (auto simp: enqueued_def objectKey_def split: sum.split)
qed

end
