(* ===== verification/ServerBootControllers.thy ===== *)
theory ServerBootControllers
  imports BootControllers Uki Registry Samples
begin

text \<open>
  The two reconcilers of \<open>ServerBootConfiguration\<close>,
  \<^verbatim>\<open>internal/controller/serverbootconfiguration_pxe_controller.go\<close> and
  \<^verbatim>\<open>serverbootconfiguration_http_controller.go\<close>: from the server and the image of a boot
  configuration they compute an \<open>IPXEBootConfig\<close> or \<open>HTTPBootConfig\<close>, apply it under the name
  of the boot configuration, and copy its state and conditions back.
\<close>

section \<open>Shared steps\<close>

datatype sbc_error =
    SBCGetFailed api_error
  | SystemUUIDFailed api_error
  | NetworkIDsFailed api_error
  | ImageFailed string
  | PatchErrorFailed patch_error string
  | ControllerReferenceFailed string
  | ApplyFailed api_error
  | GetConfigFailed api_error
  | PatchStateFailed api_error

definition getSystemUUID ::
  "'s env \<Rightarrow> server_boot_config \<Rightarrow> ('s, 'z, api_error + string) io" where
  "getSystemUUID E config = do {
     got \<leftarrow> getServer E ManagerClient (sbcServerRef config);
     ret (case got of Inl err \<Rightarrow> Inl err | Inr srv \<Rightarrow> Inr (serverSystemUUID srv)) }"

definition getSystemNetworkIDs ::
  "'s env \<Rightarrow> bool \<Rightarrow> server_boot_config \<Rightarrow> ('s, 'z, api_error + string list) io" where
  "getSystemNetworkIDs E macs config = do {
     got \<leftarrow> getServer E ManagerClient (sbcServerRef config);
     ret (case got of Inl err \<Rightarrow> Inl err | Inr srv \<Rightarrow> Inr (ExtractServerNetworkIDs srv macs)) }"

text \<open>
  The loop over the conditions of the boot resource. \<open>apimeta.SetStatusCondition\<close> reads the clock
  itself, when the condition is new without a time or changes its status; here it is handed the
  time at which it is called, whether it uses it or not, so that an event \<open>ENow\<close> of this loop stands
  for a call and not for a reading of the clock.
\<close>

primrec setStatusConditions ::
  "lib \<Rightarrow> 's env \<Rightarrow> condition list \<Rightarrow> condition list \<Rightarrow> ('s, 'z, condition list) io" where
  "setStatusConditions L E cs [] = ret cs"
| "setStatusConditions L E cs (c # new) = do {
     now \<leftarrow> timeNow E;
     setStatusConditions L E (l_setStatusCondition L now cs c) new }"

text \<open>The new state and conditions of a boot configuration, before the copied conditions.\<close>

definition transferState :: "lib \<Rightarrow> string \<Rightarrow> server_boot_config \<Rightarrow> server_boot_config" where
  "transferState L st cur =
     (if st = ''Ready'' then
        cur\<lparr>sbcState := SBCStateReady,
            sbcConditions := l_removeStatusCondition L (sbcConditions cur) ''ImageValidation''\<rparr>
      else if st = ''Error'' then cur\<lparr>sbcState := SBCStateError\<rparr>
      else cur)"

definition configMeta :: "server_boot_config \<Rightarrow> object_meta" where
  "configMeta sbc = newMeta (metaNamespace (sbcMeta sbc)) (metaName (sbcMeta sbc))"

definition sbcKeyOf :: "server_boot_config \<Rightarrow> namespaced_name" where
  "sbcKeyOf sbc = objectKey (sbcMeta sbc)"

section \<open>ServerBootConfigurationPXEReconciler\<close>

definition MediaTypeKernel :: string where
  "MediaTypeKernel = ''application/vnd.ironcore.image.kernel''"
definition MediaTypeInitrd :: string where
  "MediaTypeInitrd = ''application/vnd.ironcore.image.initramfs''"
definition MediaTypeSquashFS :: string where
  "MediaTypeSquashFS = ''application/vnd.ironcore.image.squashfs''"
definition MediaTypeKernelOld :: string where
  "MediaTypeKernelOld = ''application/io.gardenlinux.kernel''"
definition MediaTypeInitrdOld :: string where
  "MediaTypeInitrdOld = ''application/io.gardenlinux.initrd''"
definition MediaTypeSquashFSOld :: string where
  "MediaTypeSquashFSOld = ''application/io.gardenlinux.squashfs''"
definition CNAMEPrefixMetalPXE :: string where "CNAMEPrefixMetalPXE = ''metal_pxe''"

record pxe_reconciler =
  pxeIPXEServiceURL :: string
  pxeArchitecture :: string
  pxeRegistryValidator :: validator

text \<open>Kernel, initrd and squashfs digest; a later layer overrides an earlier one.\<close>

type_synonym layer_digests = "string \<times> string \<times> string"

definition layerStep :: "layer_digests \<Rightarrow> descriptor \<Rightarrow> layer_digests" where
  "layerStep ds layer =
     (case ds of (k, i, s) \<Rightarrow>
        if descMediaType layer = MediaTypeKernel then (descDigest layer, i, s)
        else if descMediaType layer = MediaTypeInitrd then (k, descDigest layer, s)
        else if descMediaType layer = MediaTypeSquashFS then (k, i, descDigest layer)
        else if descMediaType layer = MediaTypeKernelOld then (descDigest layer, i, s)
        else if descMediaType layer = MediaTypeInitrdOld then (k, descDigest layer, s)
        else if descMediaType layer = MediaTypeSquashFSOld then (k, i, descDigest layer)
        else (k, i, s))"

definition pxeOptions :: find_manifest_options where
  "pxeOptions = \<lparr>EnableCNAMECompat = True, CNAMEPrefix = CNAMEPrefixMetalPXE\<rparr>"

definition getLayerDigestsFromNestedManifest ::
  "lib \<Rightarrow> 's env \<Rightarrow> pxe_reconciler \<Rightarrow> string \<Rightarrow> string \<Rightarrow> ('s, 'z, string + layer_digests) io" where
  "getLayerDigestsFromNestedManifest L E r imageName imageVersion =
     (let imageRef = BuildImageReference imageName imageVersion in
      case ValidateImageRegistry L (pxeRegistryValidator r) imageRef of
        Some err \<Rightarrow> ret (Inl (''registry validation failed: '' @ err))
      | None \<Rightarrow> do {
          resolved \<leftarrow> resolveRef E imageRef;
          (case resolved of
             Inl err \<Rightarrow> ret (Inl (''failed to resolve image reference: '' @ err))
           | Inr (name, desc) \<Rightarrow> do {
               manifest \<leftarrow> FindManifestByArchitecture L E name desc (pxeArchitecture r) pxeOptions;
               ret (case manifest of
                  Inl err \<Rightarrow> Inl err
                | Inr layers \<Rightarrow> Inr (foldl layerStep ([], [], []) layers)) }) })"

definition pxeURL :: "pxe_reconciler \<Rightarrow> string \<Rightarrow> string \<Rightarrow> string \<Rightarrow> string" where
  "pxeURL r imageName imageVersion digest =
     (if digest \<noteq> [] then buildImageURL (pxeIPXEServiceURL r) imageName imageVersion digest else [])"

definition getImageDetailsFromConfig ::
  "lib \<Rightarrow> 's env \<Rightarrow> pxe_reconciler \<Rightarrow> server_boot_config \<Rightarrow>
     ('s, 'z, string + (string \<times> string \<times> string)) io" where
  "getImageDetailsFromConfig L E r config =
     (case ParseImageReference L (sbcImage config) of
        Inl err \<Rightarrow> ret (Inl err)
      | Inr (imageName, imageVersion) \<Rightarrow> do {
          digests \<leftarrow> getLayerDigestsFromNestedManifest L E r imageName imageVersion;
          ret (case digests of
             Inl err \<Rightarrow> Inl (''failed to fetch layer digests: '' @ err)
           | Inr (kernelDigest, initrdDigest, squashFSDigest) \<Rightarrow>
               Inr (pxeURL r imageName imageVersion kernelDigest,
                    pxeURL r imageName imageVersion initrdDigest,
                    pxeURL r imageName imageVersion squashFSDigest)) })"

definition patchConfigStateFromIPXEState ::
  "lib \<Rightarrow> 's env \<Rightarrow> ipxe_boot_config \<Rightarrow> server_boot_config \<Rightarrow> ('s, 'z, api_error option) io" where
  "patchConfigStateFromIPXEState L E config bootConfig =
     (let new = transferState L (ipxeState (ipxeStatus config)) bootConfig in do {
        cs \<leftarrow> setStatusConditions L E (sbcConditions new) (ipxeConditions (ipxeStatus config));
        patchSBCStatus E bootConfig (new\<lparr>sbcConditions := cs\<rparr>) })"

definition newIPXEBootConfig ::
  "server_boot_config \<Rightarrow> string \<Rightarrow> string list \<Rightarrow> string \<times> string \<times> string \<Rightarrow> ipxe_boot_config" where
  "newIPXEBootConfig sbc uuid ips urls =
     (case urls of (kernelURL, initrdURL, squashFSURL) \<Rightarrow>
      \<lparr>ipxeType = \<lparr>gvkGroup = ''boot.ironcore.dev'', gvkVersion = ''v1alpha1'', gvkKind = ''IPXEBootConfig''\<rparr>,
       ipxeMeta = configMeta sbc,
       ipxeSpec = \<lparr>ipxeSystemUUID = uuid, ipxeSystemIPs = ips, ipxeImage = [],
         ipxeKernelURL = kernelURL, ipxeInitrdURL = initrdURL, ipxeSquashfsURL = squashFSURL,
         ipxeIPXEServerURL = [], ipxeIgnitionSecretRef = sbcIgnitionSecretRef sbc,
         ipxeIPXEScriptSecretRef = None\<rparr>,
       ipxeStatus = \<lparr>ipxeState = [], ipxeConditions = []\<rparr>\<rparr>)"

definition pxeReconcile ::
  "lib \<Rightarrow> 's env \<Rightarrow> pxe_reconciler \<Rightarrow> server_boot_config \<Rightarrow> ('s, 'z, sbc_error option) io" where
  "pxeReconcile L E r bootConfig = do {
     uuid \<leftarrow> getSystemUUID E bootConfig;
     (case uuid of
        Inl err \<Rightarrow> ret (Some (SystemUUIDFailed err))
      | Inr systemUUID \<Rightarrow> do {
     ips \<leftarrow> getSystemNetworkIDs E False bootConfig;
     (case ips of
        Inl err \<Rightarrow> ret (Some (NetworkIDsFailed err))
      | Inr systemIPs \<Rightarrow> do {
     details \<leftarrow> getImageDetailsFromConfig L E r bootConfig;
     (case details of
        Inl err \<Rightarrow> do {
          patchErr \<leftarrow> PatchServerBootConfigWithError L E (sbcKeyOf bootConfig) err;
          ret (Some (case patchErr of Some p \<Rightarrow> PatchErrorFailed p err | None \<Rightarrow> ImageFailed err)) }
      | Inr urls \<Rightarrow>
          (let config = newIPXEBootConfig bootConfig systemUUID systemIPs urls in
           case l_setControllerReference L bootConfig (ipxeMeta config) of
             Inl err \<Rightarrow> ret (Some (ControllerReferenceFailed err))
           | Inr meta \<Rightarrow> do {
     aerr \<leftarrow> applyIPXE E fieldOwner (config\<lparr>ipxeMeta := meta\<rparr>);
     (case aerr of
        Some err \<Rightarrow> ret (Some (ApplyFailed err))
      | None \<Rightarrow> do {
     got \<leftarrow> getIPXE E ManagerClient (sbcKeyOf bootConfig);
     (case got of
        Inl err \<Rightarrow> ret (Some (GetConfigFailed err))
      | Inr config \<Rightarrow> do {
     perr \<leftarrow> patchConfigStateFromIPXEState L E config bootConfig;
     ret (map_option PatchStateFailed perr) }) }) })) }) }) }"

definition ServerBootConfigurationPXE_Reconcile ::
  "lib \<Rightarrow> 's env \<Rightarrow> pxe_reconciler \<Rightarrow> namespaced_name \<Rightarrow> ('s, 'z, sbc_error option) io" where
  "ServerBootConfigurationPXE_Reconcile L E r req = do {
     got \<leftarrow> getSBC E ManagerClient req;
     (case got of
        Inl err \<Rightarrow> ret (if isNotFound err then None else Some (SBCGetFailed err))
      | Inr bootConfig \<Rightarrow>
          if metaDeletionTimestamp (sbcMeta bootConfig) \<noteq> None then ret None
          else pxeReconcile L E r bootConfig) }"

section \<open>ServerBootConfigurationHTTPReconciler\<close>

record http_reconciler =
  hrImageServerURL :: string
  hrArchitecture :: string
  hrRegistryValidator :: validator

definition httpUKIDigest ::
  "lib \<Rightarrow> 's env \<Rightarrow> http_reconciler \<Rightarrow> string \<Rightarrow> string \<Rightarrow> ('s, 'z, string + string) io" where
  "httpUKIDigest L E r imageName imageVersion =
     (let imageRef = BuildImageReference imageName imageVersion in
      case ValidateImageRegistry L (hrRegistryValidator r) imageRef of
        Some err \<Rightarrow> ret (Inl (''registry validation failed: '' @ err))
      | None \<Rightarrow> do {
          resolved \<leftarrow> resolveRef E imageRef;
          (case resolved of
             Inl err \<Rightarrow> ret (Inl (''failed to resolve image reference: '' @ err))
           | Inr (name, desc) \<Rightarrow> do {
               manifest \<leftarrow> FindManifestByArchitecture L E name desc (hrArchitecture r) noOptions;
               ret (case manifest of Inl err \<Rightarrow> Inl err | Inr layers \<Rightarrow> findUKILayer layers) }) })"

definition constructUKIURL ::
  "lib \<Rightarrow> 's env \<Rightarrow> http_reconciler \<Rightarrow> string \<Rightarrow> ('s, 'z, string + string) io" where
  "constructUKIURL L E r img =
     (case ParseImageReference L img of
        Inl err \<Rightarrow> ret (Inl err)
      | Inr (imageName, imageVersion) \<Rightarrow> do {
          digest \<leftarrow> httpUKIDigest L E r imageName imageVersion;
          ret (case digest of
             Inl err \<Rightarrow> Inl (''failed to fetch UKI layer digest: '' @ err)
           | Inr ukiDigest \<Rightarrow>
               Inr (hrImageServerURL r @ ''/'' @ imageName @ ''/sha256-''
                 @ trimPrefix ukiDigest ''sha256:'' @ ''.efi'')) })"

definition patchConfigStateFromHTTPState ::
  "lib \<Rightarrow> 's env \<Rightarrow> http_boot_config \<Rightarrow> server_boot_config \<Rightarrow> ('s, 'z, api_error option) io" where
  "patchConfigStateFromHTTPState L E config cfg = do {
     got \<leftarrow> getSBC E ManagerClient (sbcKeyOf cfg);
     (case got of
        Inl err \<Rightarrow> ret (Some err)
      | Inr cur \<Rightarrow>
          (let new = transferState L (httpState (httpStatus config)) cur in do {
             cs \<leftarrow> setStatusConditions L E (sbcConditions new) (httpConditions (httpStatus config));
             patchSBCStatus E cur (new\<lparr>sbcConditions := cs\<rparr>) })) }"

definition newHTTPBootConfig ::
  "server_boot_config \<Rightarrow> string \<Rightarrow> string list \<Rightarrow> string \<Rightarrow> http_boot_config" where
  "newHTTPBootConfig sbc uuid ids ukiURL =
     \<lparr>httpType = \<lparr>gvkGroup = ''boot.ironcore.dev'', gvkVersion = ''v1alpha1'', gvkKind = ''HTTPBootConfig''\<rparr>,
      httpMeta = configMeta sbc,
      httpSpec = \<lparr>httpSystemUUID = uuid, httpIgnitionSecretRef = sbcIgnitionSecretRef sbc,
        httpNetworkIdentifiers = ids, httpUKIURL = ukiURL\<rparr>,
      httpStatus = \<lparr>httpState = [], httpConditions = []\<rparr>\<rparr>"

definition httpBootReconcile ::
  "lib \<Rightarrow> 's env \<Rightarrow> http_reconciler \<Rightarrow> server_boot_config \<Rightarrow> ('s, 'z, sbc_error option) io" where
  "httpBootReconcile L E r config = do {
     uuid \<leftarrow> getSystemUUID E config;
     (case uuid of
        Inl err \<Rightarrow> ret (Some (SystemUUIDFailed err))
      | Inr systemUUID \<Rightarrow> do {
     ids \<leftarrow> getSystemNetworkIDs E True config;
     (case ids of
        Inl err \<Rightarrow> ret (Some (NetworkIDsFailed err))
      | Inr networkIdentifiers \<Rightarrow> do {
     constructed \<leftarrow> constructUKIURL L E r (sbcImage config);
     (case constructed of
        Inl err \<Rightarrow> do {
          patchErr \<leftarrow> PatchServerBootConfigWithError L E (sbcKeyOf config) err;
          ret (Some (case patchErr of Some p \<Rightarrow> PatchErrorFailed p err | None \<Rightarrow> ImageFailed err)) }
      | Inr ukiURL \<Rightarrow>
          (let httpBootConfig = newHTTPBootConfig config systemUUID networkIdentifiers ukiURL in
           case l_setControllerReference L config (httpMeta httpBootConfig) of
             Inl err \<Rightarrow> ret (Some (ControllerReferenceFailed err))
           | Inr meta \<Rightarrow> do {
     aerr \<leftarrow> applyHTTP E ''server-boot-controller'' (httpBootConfig\<lparr>httpMeta := meta\<rparr>);
     (case aerr of
        Some err \<Rightarrow> ret (Some (ApplyFailed err))
      | None \<Rightarrow> do {
     got \<leftarrow> getHTTP E ManagerClient (sbcKeyOf config);
     (case got of
        Inl err \<Rightarrow> ret (Some (GetConfigFailed err))
      | Inr httpBootConfig \<Rightarrow> do {
     perr \<leftarrow> patchConfigStateFromHTTPState L E httpBootConfig config;
     ret (map_option PatchStateFailed perr) }) }) })) }) }) }"

definition ServerBootConfigurationHTTP_Reconcile ::
  "lib \<Rightarrow> 's env \<Rightarrow> http_reconciler \<Rightarrow> namespaced_name \<Rightarrow> ('s, 'z, sbc_error option) io" where
  "ServerBootConfigurationHTTP_Reconcile L E r req = do {
     got \<leftarrow> getSBC E ManagerClient req;
     (case got of
        Inl err \<Rightarrow> ret (if isNotFound err then None else Some (SBCGetFailed err))
      | Inr bootConfig \<Rightarrow>
          if metaDeletionTimestamp (sbcMeta bootConfig) \<noteq> None then ret None
          else httpBootReconcile L E r bootConfig) }"

section \<open>The layers of an image\<close>

definition lastDigest :: "string set \<Rightarrow> manifest \<Rightarrow> string" where
  "lastDigest types layers =
     (case List.find (\<lambda>l. descMediaType l \<in> types) (rev layers) of
        Some l \<Rightarrow> descDigest l | None \<Rightarrow> [])"

lemmas media_types = MediaTypeKernel_def MediaTypeInitrd_def MediaTypeSquashFS_def
  MediaTypeKernelOld_def MediaTypeInitrdOld_def MediaTypeSquashFSOld_def

lemma lastDigest_snoc:
  "lastDigest ts (ls @ [l]) = (if descMediaType l \<in> ts then descDigest l else lastDigest ts ls)"
  by (simp add: lastDigest_def)

lemma foldl_layerStep:
  "foldl layerStep ([], [], []) layers =
     (lastDigest {MediaTypeKernel, MediaTypeKernelOld} layers,
      lastDigest {MediaTypeInitrd, MediaTypeInitrdOld} layers,
      lastDigest {MediaTypeSquashFS, MediaTypeSquashFSOld} layers)"
proof (induction layers rule: rev_induct)
  case Nil
  show ?case by (simp add: lastDigest_def)
next
  case (snoc l ls)
  then show ?case by (auto simp: lastDigest_snoc layerStep_def media_types)
qed

section \<open>Resolving the image\<close>

text \<open>
  The image step of a reconciler: what it reads, that it contacts no registry for an image
  that the allow list does not admit, the manifest behind a success, and the reason of a failure:
  an image that is no reference, is not admitted, cannot be resolved or has no manifest, or whose
  manifest does not give the result.
\<close>

definition imageMissed ::
  "lib \<Rightarrow> validator \<Rightarrow> string \<Rightarrow> find_manifest_options \<Rightarrow> string \<Rightarrow> event list \<Rightarrow> bool" where
  "imageMissed L v arch opts imageRef es \<longleftrightarrow>
     (if ValidateImageRegistry L v imageRef \<noteq> None then es = []
      else (\<exists>err. es = [EResolve imageRef (Inl err)]) \<or>
        (\<exists>resolved desc rest. es = EResolve imageRef (Inr (resolved, desc)) # rest \<and>
           manifestFailed L resolved desc arch opts rest))"

definition imageRead ::
  "lib \<Rightarrow> validator \<Rightarrow> string \<Rightarrow> string \<Rightarrow> find_manifest_options \<Rightarrow>
     (string \<Rightarrow> string \<Rightarrow> manifest \<Rightarrow> 'u \<Rightarrow> bool) \<Rightarrow> string + 'u \<Rightarrow> event list \<Rightarrow> bool" where
  "imageRead L v img arch opts result res es \<longleftrightarrow> list_all isRegistryRead es \<and>
     (es \<noteq> [] \<longrightarrow> (\<exists>name version. ParseImageReference L img = Inr (name, version) \<and>
        ValidateImageRegistry L v (BuildImageReference name version) = None)) \<and>
     (case res of
        Inl _ \<Rightarrow> (\<exists>err. ParseImageReference L img = Inl err \<and> es = []) \<or>
          (\<exists>name version. ParseImageReference L img = Inr (name, version) \<and>
             (imageMissed L v arch opts (BuildImageReference name version) es \<or>
              (\<exists>resolved desc rest m.
                 es = EResolve (BuildImageReference name version) (Inr (resolved, desc)) # rest \<and>
                 manifestFetched L resolved desc arch opts m rest \<and>
                 (\<nexists>u. result name version m u))))
      | Inr u \<Rightarrow> \<exists>name version resolved desc rest m.
          ParseImageReference L img = Inr (name, version) \<and>
          es = EResolve (BuildImageReference name version) (Inr (resolved, desc)) # rest \<and>
          manifestFetched L resolved desc arch opts m rest \<and> result name version m u)"

lemma emits_getLayerDigests:
  assumes "\<And>err es. list_all isRegistryRead es \<Longrightarrow>
      (es \<noteq> [] \<longrightarrow> ValidateImageRegistry L (pxeRegistryValidator r) (BuildImageReference name version) = None) \<Longrightarrow>
      imageMissed L (pxeRegistryValidator r) (pxeArchitecture r) pxeOptions (BuildImageReference name version) es \<Longrightarrow>
      R (Inl err) es"
    and "\<And>resolved desc m rest. manifestFetched L resolved desc (pxeArchitecture r) pxeOptions m rest \<Longrightarrow>
      list_all isRegistryRead rest \<Longrightarrow>
      ValidateImageRegistry L (pxeRegistryValidator r) (BuildImageReference name version) = None \<Longrightarrow>
      R (Inr (foldl layerStep ([], [], []) m))
        (EResolve (BuildImageReference name version) (Inr (resolved, desc)) # rest)"
  shows "emits (getLayerDigestsFromNestedManifest L E r name version) R"
  unfolding getLayerDigestsFromNestedManifest_def Let_def
  by (intro emits_rules emits_FindManifestByArchitecture)
    (auto intro!: assms simp: imageMissed_def dest: contentReads_registryRead)

lemma emits_httpUKIDigest:
  assumes "\<And>err es. list_all isRegistryRead es \<Longrightarrow>
      (es \<noteq> [] \<longrightarrow> ValidateImageRegistry L (hrRegistryValidator r) (BuildImageReference name version) = None) \<Longrightarrow>
      imageMissed L (hrRegistryValidator r) (hrArchitecture r) noOptions (BuildImageReference name version) es \<Longrightarrow>
      R (Inl err) es"
    and "\<And>resolved desc m rest. manifestFetched L resolved desc (hrArchitecture r) noOptions m rest \<Longrightarrow>
      list_all isRegistryRead rest \<Longrightarrow>
      ValidateImageRegistry L (hrRegistryValidator r) (BuildImageReference name version) = None \<Longrightarrow>
      R (findUKILayer m) (EResolve (BuildImageReference name version) (Inr (resolved, desc)) # rest)"
  shows "emits (httpUKIDigest L E r name version) R"
  unfolding httpUKIDigest_def Let_def
  by (intro emits_rules emits_FindManifestByArchitecture)
    (auto intro!: assms simp: imageMissed_def dest: contentReads_registryRead split: sum.split)

definition pxeURLs ::
  "pxe_reconciler \<Rightarrow> string \<Rightarrow> string \<Rightarrow> manifest \<Rightarrow> string \<times> string \<times> string \<Rightarrow> bool" where
  "pxeURLs r name version m urls \<longleftrightarrow> urls =
     (pxeURL r name version (lastDigest {MediaTypeKernel, MediaTypeKernelOld} m),
      pxeURL r name version (lastDigest {MediaTypeInitrd, MediaTypeInitrdOld} m),
      pxeURL r name version (lastDigest {MediaTypeSquashFS, MediaTypeSquashFSOld} m))"

definition ukiURLOf :: "http_reconciler \<Rightarrow> string \<Rightarrow> string \<Rightarrow> manifest \<Rightarrow> string \<Rightarrow> bool" where
  "ukiURLOf r name version m u \<longleftrightarrow>
     (\<exists>layer. List.find (\<lambda>layer. descMediaType layer = MediaTypeUKI) m = Some layer \<and>
        u = ukiFileURL (hrImageServerURL r) name (descDigest layer))"

lemma emits_getImageDetails:
  "emits (getImageDetailsFromConfig L E r sbc)
    (imageRead L (pxeRegistryValidator r) (sbcImage sbc) (pxeArchitecture r) pxeOptions (pxeURLs r))"
  unfolding getImageDetailsFromConfig_def
  by (intro emits_rules emits_getLayerDigests)
    (auto simp: imageRead_def pxeURLs_def foldl_layerStep)

lemma emits_constructUKIURL:
  "emits (constructUKIURL L E r img)
    (imageRead L (hrRegistryValidator r) img (hrArchitecture r) noOptions (ukiURLOf r))"
  unfolding constructUKIURL_def
  by (intro emits_rules emits_httpUKIDigest)
    (auto simp: imageRead_def ukiURLOf_def ukiFileURL_def findUKILayer_def split: option.splits)

section \<open>Reconciling\<close>

text \<open>The error status of a boot configuration, and its result.\<close>

definition errorPatched ::
  "lib \<Rightarrow> server_boot_config \<Rightarrow> string \<Rightarrow> sbc_error option \<Rightarrow> event list \<Rightarrow> bool" where
  "errorPatched L sbc msg r es \<longleftrightarrow>
     (\<exists>err. es = [EGetSBC ManagerClient (sbcKeyOf sbc) (Inl err)] \<and>
        r = Some (PatchErrorFailed (FetchFailed err) msg)) \<or>
     (\<exists>cur now perr. es = [EGetSBC ManagerClient (sbcKeyOf sbc) (Inr cur), ENow now,
          EPatchSBCStatus cur (cur\<lparr>sbcState := SBCStateError, sbcConditions :=
            l_setStatusCondition L now (sbcConditions cur) (validationFailed cur msg)\<rparr>) perr] \<and>
        r = Some (case perr of Some err \<Rightarrow> PatchErrorFailed (PatchFailed err) msg | None \<Rightarrow> ImageFailed msg))"

lemma emits_patchError [emits_rules]:
  assumes "\<And>err. R (Some (FetchFailed err)) [EGetSBC ManagerClient key (Inl err)]"
    and "\<And>cur now perr. R (map_option PatchFailed perr)
      [EGetSBC ManagerClient key (Inr cur), ENow now,
       EPatchSBCStatus cur (cur\<lparr>sbcState := SBCStateError, sbcConditions :=
         l_setStatusCondition L now (sbcConditions cur) (validationFailed cur msg)\<rparr>) perr]"
  shows "emits (PatchServerBootConfigWithError L E key msg) R"
  unfolding PatchServerBootConfigWithError_def
  by (intro emits_rules) (auto intro: assms)

lemma errorPatched_steps:
  "errorPatched L sbc msg (Some (PatchErrorFailed (FetchFailed err) msg))
     [EGetSBC ManagerClient (sbcKeyOf sbc) (Inl err)]"
  "errorPatched L sbc msg
     (Some (case map_option PatchFailed perr of None \<Rightarrow> ImageFailed msg | Some p \<Rightarrow> PatchErrorFailed p msg))
     [EGetSBC ManagerClient (sbcKeyOf sbc) (Inr cur), ENow now,
      EPatchSBCStatus cur (cur\<lparr>sbcState := SBCStateError, sbcConditions :=
        l_setStatusCondition L now (sbcConditions cur) (validationFailed cur msg)\<rparr>) perr]"
  by (auto simp: errorPatched_def split: option.split)

text \<open>
  The status of the boot configuration \<open>cur\<close> after copying a state and conditions: each
  condition is set at some time, in order.
\<close>

definition statusCopied ::
  "lib \<Rightarrow> string \<Rightarrow> condition list \<Rightarrow> server_boot_config \<Rightarrow> api_error option \<Rightarrow> event list \<Rightarrow> bool" where
  "statusCopied L st conditions cur err es \<longleftrightarrow>
     (\<exists>times. length times = length conditions \<and>
        es = map ENow times @ [EPatchSBCStatus cur ((transferState L st cur)\<lparr>sbcConditions :=
          foldl (\<lambda>cs tc. l_setStatusCondition L (fst tc) cs (snd tc))
            (sbcConditions (transferState L st cur)) (zip times conditions)\<rparr>) err])"

lemma emits_setStatusConditions:
  "emits (setStatusConditions L E cs new :: ('s, 'z, _) io) (\<lambda>r es. \<exists>times.
     length times = length new \<and> es = map ENow times \<and>
     r = foldl (\<lambda>cs tc. l_setStatusCondition L (fst tc) cs (snd tc)) cs (zip times new))"
proof (induction new arbitrary: cs)
  case Nil
  show ?case by (auto intro!: emits_rules)
next
  case (Cons c new)
  show ?case
    unfolding setStatusConditions.simps
  proof (intro emits_rules emits_conseq [OF Cons.IH])
    fix t r es
    assume "\<exists>times. length times = length new \<and> es = map ENow times \<and>
      r = foldl (\<lambda>cs tc. l_setStatusCondition L (fst tc) cs (snd tc))
        (l_setStatusCondition L t cs c) (zip times new)"
    then obtain times where "length times = length new" "es = map ENow times"
      "r = foldl (\<lambda>cs tc. l_setStatusCondition L (fst tc) cs (snd tc))
        (l_setStatusCondition L t cs c) (zip times new)"
      by blast
    then show "\<exists>times. length times = length (c # new) \<and> [ENow t] @ es = map ENow times \<and>
      r = foldl (\<lambda>cs tc. l_setStatusCondition L (fst tc) cs (snd tc)) cs (zip times (c # new))"
      by (intro exI [of _ "t # times"]) simp
  qed
qed

lemma emits_patchIPXEState:
  "emits (patchConfigStateFromIPXEState L E config sbc)
    (statusCopied L (ipxeState (ipxeStatus config)) (ipxeConditions (ipxeStatus config)) sbc)"
  unfolding patchConfigStateFromIPXEState_def Let_def
  by (intro emits_rules emits_conseq [OF emits_setStatusConditions]) (auto simp: statusCopied_def)

definition httpStatusCopied ::
  "lib \<Rightarrow> http_boot_config \<Rightarrow> server_boot_config \<Rightarrow> api_error option \<Rightarrow> event list \<Rightarrow> bool" where
  "httpStatusCopied L config sbc r es \<longleftrightarrow>
     (\<exists>got rest. es = EGetSBC ManagerClient (sbcKeyOf sbc) got # rest \<and>
        (case got of Inl err \<Rightarrow> rest = [] \<and> r = Some err
         | Inr cur \<Rightarrow> statusCopied L (httpState (httpStatus config))
             (httpConditions (httpStatus config)) cur r rest))"

lemma emits_patchHTTPState:
  "emits (patchConfigStateFromHTTPState L E config sbc) (httpStatusCopied L config sbc)"
  unfolding patchConfigStateFromHTTPState_def Let_def
  by (intro emits_rules emits_conseq [OF emits_setStatusConditions])
    (auto simp: httpStatusCopied_def statusCopied_def)

text \<open>
  A complete run for an existing boot configuration \<open>sbc\<close>. The parameters are what the two
  reconcilers differ in: whether MAC addresses count, the image step, the application of the
  boot resource built from UUID, addresses, image and metadata, its read back, and the copy of
  its status.
\<close>

inductive sbcReconciled ::
  "lib \<Rightarrow> bool \<Rightarrow> (string + 'u \<Rightarrow> event list \<Rightarrow> bool) \<Rightarrow>
     (string \<Rightarrow> string list \<Rightarrow> 'u \<Rightarrow> object_meta \<Rightarrow> api_error option \<Rightarrow> event) \<Rightarrow>
     (api_error + 'c \<Rightarrow> event) \<Rightarrow> ('c \<Rightarrow> api_error option \<Rightarrow> event list \<Rightarrow> bool) \<Rightarrow>
     server_boot_config \<Rightarrow> sbc_error option \<Rightarrow> event list \<Rightarrow> bool"
  for L macs imageSpec applied readBack copied sbc where
  no_uuid:
    "sbcReconciled L macs imageSpec applied readBack copied sbc (Some (SystemUUIDFailed err))
       [EGetServer ManagerClient (sbcServerRef sbc) (Inl err)]"
| no_addresses:
    "sbcReconciled L macs imageSpec applied readBack copied sbc (Some (NetworkIDsFailed err))
       [EGetServer ManagerClient (sbcServerRef sbc) (Inr srv),
        EGetServer ManagerClient (sbcServerRef sbc) (Inl err)]"
| image_failed:
    "imageSpec (Inl msg) ims \<Longrightarrow> errorPatched L sbc msg r eps \<Longrightarrow>
     sbcReconciled L macs imageSpec applied readBack copied sbc r
       ([EGetServer ManagerClient (sbcServerRef sbc) (Inr srv),
         EGetServer ManagerClient (sbcServerRef sbc) (Inr srv')] @ ims @ eps)"
| not_owned:
    "imageSpec (Inr u) ims \<Longrightarrow> l_setControllerReference L sbc (configMeta sbc) = Inl msg \<Longrightarrow>
     sbcReconciled L macs imageSpec applied readBack copied sbc (Some (ControllerReferenceFailed msg))
       ([EGetServer ManagerClient (sbcServerRef sbc) (Inr srv),
         EGetServer ManagerClient (sbcServerRef sbc) (Inr srv')] @ ims)"
| not_applied:
    "imageSpec (Inr u) ims \<Longrightarrow> l_setControllerReference L sbc (configMeta sbc) = Inr meta \<Longrightarrow>
     sbcReconciled L macs imageSpec applied readBack copied sbc (Some (ApplyFailed err))
       ([EGetServer ManagerClient (sbcServerRef sbc) (Inr srv),
         EGetServer ManagerClient (sbcServerRef sbc) (Inr srv')] @ ims
        @ [applied (serverSystemUUID srv) (ExtractServerNetworkIDs srv' macs) u meta (Some err)])"
| not_read:
    "imageSpec (Inr u) ims \<Longrightarrow> l_setControllerReference L sbc (configMeta sbc) = Inr meta \<Longrightarrow>
     sbcReconciled L macs imageSpec applied readBack copied sbc (Some (GetConfigFailed err))
       ([EGetServer ManagerClient (sbcServerRef sbc) (Inr srv),
         EGetServer ManagerClient (sbcServerRef sbc) (Inr srv')] @ ims
        @ [applied (serverSystemUUID srv) (ExtractServerNetworkIDs srv' macs) u meta None,
           readBack (Inl err)])"
| completed:
    "imageSpec (Inr u) ims \<Longrightarrow> l_setControllerReference L sbc (configMeta sbc) = Inr meta \<Longrightarrow>
     copied config perr cs \<Longrightarrow>
     sbcReconciled L macs imageSpec applied readBack copied sbc (map_option PatchStateFailed perr)
       ([EGetServer ManagerClient (sbcServerRef sbc) (Inr srv),
         EGetServer ManagerClient (sbcServerRef sbc) (Inr srv')] @ ims
        @ [applied (serverSystemUUID srv) (ExtractServerNetworkIDs srv' macs) u meta None,
           readBack (Inr config)] @ cs)"

lemma emits_getSystemUUID:
  assumes "\<And>err. R (Inl err) [EGetServer ManagerClient (sbcServerRef sbc) (Inl err)]"
    and "\<And>srv. R (Inr (serverSystemUUID srv)) [EGetServer ManagerClient (sbcServerRef sbc) (Inr srv)]"
  shows "emits (getSystemUUID E sbc) R"
  unfolding getSystemUUID_def by (intro emits_rules) (auto intro: assms split: sum.split)

lemma emits_getSystemNetworkIDs:
  assumes "\<And>err. R (Inl err) [EGetServer ManagerClient (sbcServerRef sbc) (Inl err)]"
    and "\<And>srv. R (Inr (ExtractServerNetworkIDs srv macs))
      [EGetServer ManagerClient (sbcServerRef sbc) (Inr srv)]"
  shows "emits (getSystemNetworkIDs E macs sbc) R"
  unfolding getSystemNetworkIDs_def by (intro emits_rules) (auto intro: assms split: sum.split)

definition pxeReconciled ::
  "lib \<Rightarrow> pxe_reconciler \<Rightarrow> server_boot_config \<Rightarrow> sbc_error option \<Rightarrow> event list \<Rightarrow> bool" where
  "pxeReconciled L r sbc = sbcReconciled L False
     (imageRead L (pxeRegistryValidator r) (sbcImage sbc) (pxeArchitecture r) pxeOptions (pxeURLs r))
     (\<lambda>uuid ips urls meta. EApplyIPXE fieldOwner ((newIPXEBootConfig sbc uuid ips urls)\<lparr>ipxeMeta := meta\<rparr>))
     (EGetIPXE ManagerClient (sbcKeyOf sbc))
     (\<lambda>config. statusCopied L (ipxeState (ipxeStatus config)) (ipxeConditions (ipxeStatus config)) sbc)
     sbc"

definition httpBootReconciled ::
  "lib \<Rightarrow> http_reconciler \<Rightarrow> server_boot_config \<Rightarrow> sbc_error option \<Rightarrow> event list \<Rightarrow> bool" where
  "httpBootReconciled L r sbc = sbcReconciled L True
     (imageRead L (hrRegistryValidator r) (sbcImage sbc) (hrArchitecture r) noOptions (ukiURLOf r))
     (\<lambda>uuid ids url meta. EApplyHTTP ''server-boot-controller''
        ((newHTTPBootConfig sbc uuid ids url)\<lparr>httpMeta := meta\<rparr>))
     (EGetHTTP ManagerClient (sbcKeyOf sbc))
     (\<lambda>config. httpStatusCopied L config sbc) sbc"

lemma newConfig_meta [simp]:
  "ipxeMeta (newIPXEBootConfig sbc uuid ips urls) = configMeta sbc"
  "httpMeta (newHTTPBootConfig sbc uuid ids url) = configMeta sbc"
  by (simp_all add: newIPXEBootConfig_def newHTTPBootConfig_def split: prod.split)

lemmas pxe_steps = sbcReconciled.intros [where macs = False and readBack = "EGetIPXE ManagerClient k"
    and applied = "\<lambda>uuid ips urls meta. EApplyIPXE fieldOwner
      ((newIPXEBootConfig sbc uuid ips urls)\<lparr>ipxeMeta := meta\<rparr>)" for k sbc,
  simplified append_Cons append_Nil]

lemmas http_steps = sbcReconciled.intros [where macs = True and readBack = "EGetHTTP ManagerClient k"
    and applied = "\<lambda>uuid ids url meta. EApplyHTTP ''server-boot-controller''
      ((newHTTPBootConfig sbc uuid ids url)\<lparr>httpMeta := meta\<rparr>)" for k sbc,
  simplified append_Cons append_Nil]

lemma emits_pxeReconcile: "emits (pxeReconcile L E r sbc) (pxeReconciled L r sbc)"
  unfolding pxeReconcile_def Let_def pxeReconciled_def
  by (intro emits_rules emits_getSystemUUID emits_getSystemNetworkIDs
      emits_conseq [OF emits_getImageDetails] emits_conseq [OF emits_patchIPXEState])
    (auto intro: pxe_steps errorPatched_steps errorPatched_steps(2) [simplified])

lemma emits_httpBootReconcile: "emits (httpBootReconcile L E r sbc) (httpBootReconciled L r sbc)"
  unfolding httpBootReconcile_def Let_def httpBootReconciled_def
  by (intro emits_rules emits_getSystemUUID emits_getSystemNetworkIDs
      emits_conseq [OF emits_constructUKIURL] emits_conseq [OF emits_patchHTTPState])
    (auto intro: http_steps errorPatched_steps errorPatched_steps(2) [simplified])

section \<open>Copying conditions\<close>

text \<open>
  The documented behaviour of \<open>apimeta.SetStatusCondition\<close> is the contract
  \<open>condition_upsert\<close>, whatever the time; that of \<open>RemoveStatusCondition\<close> is \<open>removes\<close>.
\<close>

definition removes :: "(condition list \<Rightarrow> string \<Rightarrow> condition list) \<Rightarrow> bool" where
  "removes rm \<longleftrightarrow> (\<forall>cs t t'. findCondition (rm cs t) t' = (if t' = t then None else findCondition cs t'))"

text \<open>The condition of a type that the copied list ends up setting.\<close>

definition lastCondition :: "condition list \<Rightarrow> string \<Rightarrow> condition_view option" where
  "lastCondition cs t = map_option condView (List.find (\<lambda>c. condType c = t) (rev cs))"

lemma find_copied:
  assumes "\<And>now. condition_upsert (f now)" "length stamps = length new"
  shows "findCondition (foldl (\<lambda>cs tc. f (fst tc) cs (snd tc)) cs (zip stamps new)) t =
    (case lastCondition new t of Some v \<Rightarrow> Some v | None \<Rightarrow> findCondition cs t)"
  using assms(2)
proof (induction new arbitrary: stamps rule: rev_induct)
  case Nil
  then show ?case by (simp add: lastCondition_def)
next
  case (snoc c new)
  then obtain ts t' where "stamps = ts @ [t']" "length ts = length new"
    by (cases stamps rule: rev_cases) auto
  with snoc.IH [of ts] show ?case
    by (simp add: condition_upsert.find_setCond [OF assms(1)] lastCondition_def split: option.split)
qed

definition copiedStatus ::
  "string \<Rightarrow> condition list \<Rightarrow> server_boot_config \<Rightarrow> server_boot_config \<Rightarrow> bool" where
  "copiedStatus st conditions cur new \<longleftrightarrow>
     sbcMeta new = sbcMeta cur \<and> sbcServerRef new = sbcServerRef cur \<and> sbcImage new = sbcImage cur \<and>
     sbcIgnitionSecretRef new = sbcIgnitionSecretRef cur \<and>
     sbcState new = (if st = ''Ready'' then SBCStateReady else if st = ''Error'' then SBCStateError
       else sbcState cur) \<and>
     (\<forall>t. findCondition (sbcConditions new) t =
        (case lastCondition conditions t of
           Some v \<Rightarrow> Some v
         | None \<Rightarrow> if st = ''Ready'' \<and> t = ''ImageValidation'' then None
             else findCondition (sbcConditions cur) t))"

lemma transferState_simps [simp]:
  "sbcMeta (transferState L st cur) = sbcMeta cur"
  "sbcServerRef (transferState L st cur) = sbcServerRef cur"
  "sbcImage (transferState L st cur) = sbcImage cur"
  "sbcIgnitionSecretRef (transferState L st cur) = sbcIgnitionSecretRef cur"
  "sbcState (transferState L st cur) =
     (if st = ''Ready'' then SBCStateReady else if st = ''Error'' then SBCStateError else sbcState cur)"
  "sbcConditions (transferState L st cur) =
     (if st = ''Ready'' then l_removeStatusCondition L (sbcConditions cur) ''ImageValidation''
      else sbcConditions cur)"
  by (simp_all add: transferState_def)

text \<open>
  The calls of a copy onto \<open>cur\<close>: the setting of each condition, and one patch of the status of
  \<open>cur\<close> with the result.
\<close>

definition copiedOnto ::
  "string \<Rightarrow> condition list \<Rightarrow> server_boot_config \<Rightarrow> api_error option \<Rightarrow> event list \<Rightarrow> bool" where
  "copiedOnto st conditions cur err es \<longleftrightarrow>
     (\<exists>stamps new. length stamps = length conditions \<and>
        es = map ENow stamps @ [EPatchSBCStatus cur new err] \<and> copiedStatus st conditions cur new)"

lemma statusCopied_copiedOnto:
  assumes "\<And>now. condition_upsert (l_setStatusCondition L now)" "removes (l_removeStatusCondition L)"
    and "statusCopied L st conditions cur err es"
  shows "copiedOnto st conditions cur err es"
proof -
  obtain stamps where t: "length stamps = length conditions"
    "es = map ENow stamps @ [EPatchSBCStatus cur ((transferState L st cur)\<lparr>sbcConditions :=
          foldl (\<lambda>cs tc. l_setStatusCondition L (fst tc) cs (snd tc))
            (sbcConditions (transferState L st cur)) (zip stamps conditions)\<rparr>) err]"
    using assms(3) by (auto simp: statusCopied_def)
  have "copiedStatus st conditions cur ((transferState L st cur)\<lparr>sbcConditions :=
          foldl (\<lambda>cs tc. l_setStatusCondition L (fst tc) cs (snd tc))
            (sbcConditions (transferState L st cur)) (zip stamps conditions)\<rparr>)"
    unfolding copiedStatus_def using assms(2)
    by (simp add: find_copied [where f = "l_setStatusCondition L", OF assms(1) t(1)] removes_def
        split: option.split)
  with t show ?thesis unfolding copiedOnto_def by blast
qed

section \<open>Properties\<close>

definition pxeRun ::
  "lib \<Rightarrow> pxe_reconciler \<Rightarrow> namespaced_name \<Rightarrow> sbc_error option \<Rightarrow> event list \<Rightarrow> bool" where
  "pxeRun L r req res es \<longleftrightarrow>
     (\<exists>got rest. es = EGetSBC ManagerClient req got # rest \<and>
        (case got of
           Inl err \<Rightarrow> rest = [] \<and> res = (if isNotFound err then None else Some (SBCGetFailed err))
         | Inr sbc \<Rightarrow>
             if metaDeletionTimestamp (sbcMeta sbc) \<noteq> None then rest = [] \<and> res = None
             else pxeReconciled L r sbc res rest))"

definition httpBootRun ::
  "lib \<Rightarrow> http_reconciler \<Rightarrow> namespaced_name \<Rightarrow> sbc_error option \<Rightarrow> event list \<Rightarrow> bool" where
  "httpBootRun L r req res es \<longleftrightarrow>
     (\<exists>got rest. es = EGetSBC ManagerClient req got # rest \<and>
        (case got of
           Inl err \<Rightarrow> rest = [] \<and> res = (if isNotFound err then None else Some (SBCGetFailed err))
         | Inr sbc \<Rightarrow>
             if metaDeletionTimestamp (sbcMeta sbc) \<noteq> None then rest = [] \<and> res = None
             else httpBootReconciled L r sbc res rest))"

text \<open>C7: The PXE reconciler applies an \<open>IPXEBootConfig\<close> only with the UUID and addresses of the
  configuration's server and with proxy URLs for the last kernel, initrd and squashfs layer of the
  manifest it fetched, under the configuration's name and owned by it; no registry is contacted
  for an image that the allow list does not admit; an image error applies nothing but is recorded
  as state \<open>Error\<close> with the condition \<open>ImageValidation\<close>; deleted configurations are left alone.\<close>

theorem PXE_Reconcile_correct:
  "emits (ServerBootConfigurationPXE_Reconcile L E r req) (pxeRun L r req)"
  unfolding ServerBootConfigurationPXE_Reconcile_def
  by (intro emits_rules emits_conseq [OF emits_pxeReconcile]) (auto simp: pxeRun_def)

text \<open>C8: The HTTP reconciler does the same for an \<open>HTTPBootConfig\<close>, with the MAC addresses among the
  network identifiers and the URL of the first UKI layer; it copies the status onto a freshly
  read configuration.\<close>

theorem HTTP_Reconcile_correct:
  "emits (ServerBootConfigurationHTTP_Reconcile L E r req) (httpBootRun L r req)"
  unfolding ServerBootConfigurationHTTP_Reconcile_def
  by (intro emits_rules emits_conseq [OF emits_httpBootReconcile]) (auto simp: httpBootRun_def)

lemma sum_case_mono:
  "(case x of Inl e \<Rightarrow> P e | Inr a \<Rightarrow> Q a) \<Longrightarrow> (\<And>e. P e \<Longrightarrow> P' e) \<Longrightarrow>
     (\<And>a. Q a \<Longrightarrow> Q' a) \<Longrightarrow> (case x of Inl e \<Rightarrow> P' e | Inr a \<Rightarrow> Q' a)"
  by (cases x) auto

text \<open>C36: Copying the status of a boot resource makes the boot configuration \<open>Ready\<close> or in \<open>Error\<close> with
  it and otherwise leaves its state; every condition of the resource appears on the configuration
  (the last one of a type wins), the condition \<open>ImageValidation\<close> disappears when the resource is
  ready and does not bring its own, and nothing else of the configuration changes. The PXE path
  patches the configuration it was given, and calls nothing else; the HTTP path first reads the
  configuration again, patches what it read, and patches nothing if that read fails, whose error
  it returns. Either returns the error of the patch.\<close>

theorem patchConfigState_correct:
  assumes "\<And>now. condition_upsert (l_setStatusCondition L now)" "removes (l_removeStatusCondition L)"
  shows "emits (patchConfigStateFromIPXEState L E ipxe sbc)
      (copiedOnto (ipxeState (ipxeStatus ipxe)) (ipxeConditions (ipxeStatus ipxe)) sbc) \<and>
    emits (patchConfigStateFromHTTPState L E http sbc) (\<lambda>err es.
      \<exists>got rest. es = EGetSBC ManagerClient (sbcKeyOf sbc) got # rest \<and>
        (case got of
           Inl e \<Rightarrow> rest = [] \<and> err = Some e
         | Inr cur \<Rightarrow> copiedOnto (httpState (httpStatus http)) (httpConditions (httpStatus http))
             cur err rest))"
proof
  show "emits (patchConfigStateFromIPXEState L E ipxe sbc)
      (copiedOnto (ipxeState (ipxeStatus ipxe)) (ipxeConditions (ipxeStatus ipxe)) sbc)"
    by (rule emits_conseq [OF emits_patchIPXEState]) (rule statusCopied_copiedOnto [OF assms])
  show "emits (patchConfigStateFromHTTPState L E http sbc) (\<lambda>err es.
      \<exists>got rest. es = EGetSBC ManagerClient (sbcKeyOf sbc) got # rest \<and>
        (case got of
           Inl e \<Rightarrow> rest = [] \<and> err = Some e
         | Inr cur \<Rightarrow> copiedOnto (httpState (httpStatus http)) (httpConditions (httpStatus http))
             cur err rest))"
    by (rule emits_conseq [OF emits_patchHTTPState], unfold httpStatusCopied_def, elim exE conjE)
      (rule exI, rule exI, erule conjI, erule sum_case_mono, auto intro: statusCopied_copiedOnto [OF assms])
qed

definition conditionLib :: lib where
  "conditionLib = sampleLib\<lparr>l_setStatusCondition := updateCondition,
     l_removeStatusCondition := \<lambda>cs t. filter (\<lambda>c. condType c \<noteq> t) cs\<rparr>"

lemma removes_filter: "removes (\<lambda>cs t. filter (\<lambda>c. condType c \<noteq> t) cs)"
proof -
  have "findCondition (filter (\<lambda>c. condType c \<noteq> t) cs) t' = (if t' = t then None else findCondition cs t')"
    for cs t t'
    by (induction cs) (auto simp: findCondition_def)
  then show ?thesis by (simp add: removes_def)
qed

definition sampleBoot :: server_boot_config where
  "sampleBoot = \<lparr>sbcMeta = newMeta ''ns'' ''boot'', sbcServerRef = ''server'', sbcImage = ''image'',
     sbcIgnitionSecretRef = None, sbcState = SBCStateError, sbcConditions = []\<rparr>"

definition readyIPXE :: ipxe_boot_config where
  "readyIPXE = (emptyIPXE ''ns'' ''boot'')\<lparr>ipxeStatus := \<lparr>ipxeState = ''Ready'', ipxeConditions = []\<rparr>\<rparr>"

definition readyHTTP :: http_boot_config where
  "readyHTTP = (emptyHTTP ''ns'' ''boot'')\<lparr>httpStatus := \<lparr>httpState = ''Ready'', httpConditions = []\<rparr>\<rparr>"

lemma copiedOnto_ready:
  "copiedOnto ''Ready'' [] cur err es \<Longrightarrow>
     \<exists>new. es = [EPatchSBCStatus cur new err] \<and> sbcState new = SBCStateReady"
  by (auto simp: copiedOnto_def copiedStatus_def)

lemma patchConfigState_witness:
  "emits (patchConfigStateFromIPXEState conditionLib (offlineEnv :: unit env) readyIPXE sampleBoot
      :: (unit, unit, _) io)
    (\<lambda>err es. \<exists>new. es = [EPatchSBCStatus sampleBoot new err] \<and> sbcState new = SBCStateReady) \<and>
   emits (patchConfigStateFromHTTPState conditionLib
       (offlineEnv\<lparr>e_getSBC := \<lambda>_ _ s. (Inr sampleBoot, s)\<rparr> :: unit env) readyHTTP sampleBoot
      :: (unit, unit, _) io)
    (\<lambda>err es. \<exists>got rest. es = EGetSBC ManagerClient (NN ''ns'' ''boot'') got # rest \<and>
       (\<forall>cur. got = Inr cur \<longrightarrow>
          (\<exists>new. rest = [EPatchSBCStatus cur new err] \<and> sbcState new = SBCStateReady)))"
proof -
  have c: "condition_upsert (l_setStatusCondition conditionLib now)" for now
    by (simp add: conditionLib_def boot_conditions.condition_upsert_axioms)
  have r: "removes (l_removeStatusCondition conditionLib)"
    by (simp add: conditionLib_def removes_filter)
  have key: "sbcKeyOf sampleBoot = NN ''ns'' ''boot''"
    by (simp add: sbcKeyOf_def sampleBoot_def objectKey_def newMeta_def)
  have ready: "ipxeStatus readyIPXE = \<lparr>ipxeState = ''Ready'', ipxeConditions = []\<rparr>"
    "httpStatus readyHTTP = \<lparr>httpState = ''Ready'', httpConditions = []\<rparr>"
    by (simp_all add: readyIPXE_def readyHTTP_def)
  show ?thesis
    by (intro conjI; (rule emits_conseq [OF conjunct1 [OF patchConfigState_correct [OF c r]]]
        | rule emits_conseq [OF conjunct2 [OF patchConfigState_correct [OF c r]]]))
      (auto simp: ready key dest!: copiedOnto_ready)
qed

text \<open>Of several layers of the same kind, under the new or the old media type, the last one
  gives the digest; a kind without a layer gives the empty digest, and then an empty URL.\<close>

lemma layerDigests_correct:
  "foldl layerStep ([], [], []) layers =
     (lastDigest {MediaTypeKernel, MediaTypeKernelOld} layers,
      lastDigest {MediaTypeInitrd, MediaTypeInitrdOld} layers,
      lastDigest {MediaTypeSquashFS, MediaTypeSquashFSOld} layers)
   \<and> pxeURL r name version [] = []"
  by (simp add: foldl_layerStep pxeURL_def)

end
