(* ===== verification/CacheMachine.thy ===== *)
theory CacheMachine
  imports ImageProxy
begin

text \<open>
  The registry cache of \<^verbatim>\<open>imageproxyserver.go\<close> under concurrency: the requests that run
  \<open>getOrDetectRegistry\<close> at the same time and the goroutine \<open>cleanupExpiredCacheEntries\<close>, as
  interleaved steps over the shared map. A step is what the code does under one lock or between
  two: the lookup under the read lock, the probe without a lock, the store under the write lock,
  the clock reading of the cleanup before its lock and the deletions under it. The function
  \<open>getOrDetectRegistry\<close> refines these steps (theorem \<open>getOrDetect_refines\<close>).
\<close>

section \<open>The machine\<close>

datatype request_state =
    Free
  | Probing string string
  | Storing string string registry_info
  | Served string string registry_info

datatype cache_action =
    Lookup nat string string
  | Probe nat "string + http_response"
  | Store nat
  | Finish nat
  | Sample
  | Sweep
  | Pass int

text \<open>\<open>mProbes\<close> records the successful probes; no step of the program reads it.\<close>

record cache_machine =
  mClock :: int
  mCache :: registry_cache
  mThreads :: "nat \<Rightarrow> request_state"
  mCleaner :: "int option"
  mProbes :: "(string \<times> string \<times> registry_info) set"

definition initialMachine :: "int \<Rightarrow> cache_machine" where
  "initialMachine now =
     \<lparr>mClock = now, mCache = emptyCache, mThreads = (\<lambda>_. Free), mCleaner = None, mProbes = {}\<rparr>"

abbreviation moved :: "cache_machine \<Rightarrow> nat \<Rightarrow> request_state \<Rightarrow> cache_machine" where
  "moved s i p \<equiv> s\<lparr>mThreads := (mThreads s)(i := p)\<rparr>"

inductive cacheAct :: "cache_action \<Rightarrow> cache_machine \<Rightarrow> cache_machine \<Rightarrow> bool" where
  hit:
    "mThreads s i = Free \<Longrightarrow> cacheLookup (mCache s) (mClock s) (cacheKey d r) = Some info \<Longrightarrow>
     cacheAct (Lookup i d r) s (moved s i (Served d r info))"
| miss:
    "mThreads s i = Free \<Longrightarrow> cacheLookup (mCache s) (mClock s) (cacheKey d r) = None \<Longrightarrow>
     cacheAct (Lookup i d r) s (moved s i (Probing d r))"
| unreachable:
    "mThreads s i = Probing d r \<Longrightarrow> cacheAct (Probe i (Inl err)) s (moved s i Free)"
| rejected:
    "mThreads s i = Probing d r \<Longrightarrow> classifyProbe d r resp = Inl err \<Longrightarrow>
     cacheAct (Probe i (Inr resp)) s (moved s i Free)"
| detected:
    "mThreads s i = Probing d r \<Longrightarrow> classifyProbe d r resp = Inr info \<Longrightarrow>
     cacheAct (Probe i (Inr resp)) s
       (moved s i (Storing d r info)\<lparr>mProbes := insert (d, r, info) (mProbes s)\<rparr>)"
| stored:
    "mThreads s i = Storing d r info \<Longrightarrow>
     cacheAct (Store i) s
       (moved s i (Served d r info)\<lparr>mCache := cacheStore (mCache s) (mClock s) (cacheKey d r) info\<rparr>)"
| finished:
    "mThreads s i = Served d r info \<Longrightarrow> cacheAct (Finish i) s (moved s i Free)"
| sampled:
    "mCleaner s = None \<Longrightarrow> cacheAct Sample s (s\<lparr>mCleaner := Some (mClock s)\<rparr>)"
| swept:
    "mCleaner s = Some t \<Longrightarrow>
     cacheAct Sweep s (s\<lparr>mCleaner := None, mCache := cleanupExpired (mCache s) t\<rparr>)"
| passed:
    "0 \<le> ns \<Longrightarrow> cacheAct (Pass ns) s (s\<lparr>mClock := mClock s + ns\<rparr>)"

inductive_cases LookupE: "cacheAct (Lookup i d r) s s'"
inductive_cases SweepE: "cacheAct Sweep s s'"

inductive cacheActs :: "cache_action list \<Rightarrow> cache_machine \<Rightarrow> cache_machine \<Rightarrow> bool" where
  idle: "cacheActs [] s s"
| act: "cacheAct a s t \<Longrightarrow> cacheActs as t u \<Longrightarrow> cacheActs (a # as) s u"

inductive_simps cacheActs_Nil [simp]: "cacheActs [] s t"
inductive_simps cacheActs_Cons: "cacheActs (a # as) s u"

lemma cacheActs_append: "cacheActs as s t \<Longrightarrow> cacheActs bs t u \<Longrightarrow> cacheActs (as @ bs) s u"
  by (induction rule: cacheActs.induct) (auto intro: cacheActs.intros)

text \<open>An invariant of the steps whose actions satisfy \<open>P\<close> holds after every run of such actions.\<close>

lemma cacheActs_invariant:
  assumes "\<And>a s t. cacheAct a s t \<Longrightarrow> P a \<Longrightarrow> I s \<Longrightarrow> I t"
  shows "cacheActs as s t \<Longrightarrow> list_all P as \<Longrightarrow> I s \<Longrightarrow> I t"
  by (induction rule: cacheActs.induct) (auto intro: assms)

section \<open>The invariant\<close>

text \<open>Registry domains have no slash, so a cache key determines its registry and repository.\<close>

fun plainDomain :: "cache_action \<Rightarrow> bool" where
  "plainDomain (Lookup i d r) = (CHR ''/'' \<notin> set d)"
| "plainDomain _ = True"

lemma cacheKey_inject:
  assumes "CHR ''/'' \<notin> set d" "CHR ''/'' \<notin> set d'"
  shows "cacheKey d r = cacheKey d' r' \<longleftrightarrow> d = d' \<and> r = r'"
  using sep_unique [of d "CHR ''/''" r d' r'] assms by (auto simp: cacheKey_def)

definition probedInfo :: "cache_machine \<Rightarrow> string \<Rightarrow> string \<Rightarrow> registry_info \<Rightarrow> bool" where
  "probedInfo s d r info \<longleftrightarrow> CHR ''/'' \<notin> set d \<and> (d, r, info) \<in> mProbes s"

fun requestOk :: "cache_machine \<Rightarrow> request_state \<Rightarrow> bool" where
  "requestOk s Free = True"
| "requestOk s (Probing d r) = (CHR ''/'' \<notin> set d)"
| "requestOk s (Storing d r info) = probedInfo s d r info"
| "requestOk s (Served d r info) = probedInfo s d r info"

definition entryOk :: "cache_machine \<Rightarrow> string \<Rightarrow> registry_cache_entry \<Rightarrow> bool" where
  "entryOk s k e \<longleftrightarrow> ceExpiresAt e \<le> mClock s + registryCacheTTL \<and>
     (\<exists>d r. k = cacheKey d r \<and> probedInfo s d r (ceInfo e))"

definition machineOk :: "cache_machine \<Rightarrow> bool" where
  "machineOk s \<longleftrightarrow> (\<forall>k e. mCache s k = Some e \<longrightarrow> entryOk s k e) \<and>
     (\<forall>i. requestOk s (mThreads s i)) \<and>
     (\<forall>t. mCleaner s = Some t \<longrightarrow> t \<le> mClock s) \<and>
     (\<forall>d r info. (d, r, info) \<in> mProbes s \<longrightarrow> (\<exists>resp. classifyProbe d r resp = Inr info))"

lemma machineOk_initial: "machineOk (initialMachine now)"
  by (simp add: machineOk_def initialMachine_def emptyCache_def)

lemma requestOk_mono: "requestOk s p \<Longrightarrow> mProbes s \<subseteq> mProbes s' \<Longrightarrow> requestOk s' p"
  by (cases p) (auto simp: probedInfo_def)

lemma entryOk_mono:
  "entryOk s k e \<Longrightarrow> mProbes s \<subseteq> mProbes s' \<Longrightarrow> mClock s \<le> mClock s' \<Longrightarrow> entryOk s' k e"
  unfolding entryOk_def probedInfo_def by (blast intro: order_trans add_right_mono)

lemma cleanupExpired_Some:
  "cleanupExpired c t k = Some e \<longleftrightarrow> c k = Some e \<and> t \<le> ceExpiresAt e"
  by (auto simp: cleanupExpired_def split: option.split)

lemma cacheStore_Some:
  "cacheStore c t k info k' = Some e \<longleftrightarrow>
     (if k' = k then e = \<lparr>ceInfo = info, ceExpiresAt = t + registryCacheTTL\<rparr> else c k' = Some e)"
  by (auto simp: cacheStore_def)

lemma machineOkI:
  assumes "\<And>k e. mCache s k = Some e \<Longrightarrow> entryOk s k e" "\<And>i. requestOk s (mThreads s i)"
    and "\<And>t. mCleaner s = Some t \<Longrightarrow> t \<le> mClock s"
    and "\<And>d r info. (d, r, info) \<in> mProbes s \<Longrightarrow> \<exists>resp. classifyProbe d r resp = Inr info"
  shows "machineOk s"
  using assms by (simp add: machineOk_def)

lemma machineOkD:
  assumes "machineOk s"
  shows "mCache s k = Some e \<Longrightarrow> entryOk s k e" "requestOk s (mThreads s i)"
    and "mCleaner s = Some t \<Longrightarrow> t \<le> mClock s"
    and "(d, r, info) \<in> mProbes s \<Longrightarrow> \<exists>resp. classifyProbe d r resp = Inr info"
  using assms by (simp_all add: machineOk_def)

text \<open>
  The steps of one request leave clock and cleaner alone and only add probes: the entries and
  requests that were fine stay fine.
\<close>

lemma machineOk_request:
  assumes "machineOk s" "mThreads s' = (mThreads s)(i := p)" "requestOk s' p"
    and "mClock s' = mClock s" "mCleaner s' = mCleaner s" "mProbes s \<subseteq> mProbes s'"
    and "\<And>k e. mCache s' k = Some e \<Longrightarrow> mCache s k = Some e \<or> entryOk s' k e"
    and "\<And>d r info. (d, r, info) \<in> mProbes s' \<Longrightarrow> (d, r, info) \<in> mProbes s \<or>
      (\<exists>resp. classifyProbe d r resp = Inr info)"
  shows "machineOk s'"
proof (rule machineOkI)
  note ok = machineOkD [OF assms(1)]
  show "entryOk s' k e" if "mCache s' k = Some e" for k e
    using assms(7) [OF that] entryOk_mono [OF ok(1) assms(6)] assms(4) by auto
  show "requestOk s' (mThreads s' j)" for j
    using assms(3) requestOk_mono [OF ok(2) [of j] assms(6)] by (simp add: assms(2))
  show "t \<le> mClock s'" if "mCleaner s' = Some t" for t
    using ok(3) that by (simp add: assms(4,5))
  show "\<exists>resp. classifyProbe d r resp = Inr info" if "(d, r, info) \<in> mProbes s'" for d r info
    using assms(8) [OF that] ok(4) by blast
qed

text \<open>The steps of the cleanup and of time move no request and add no entry.\<close>

lemma machineOk_cleaned:
  assumes "machineOk s" "mThreads s' = mThreads s" "mProbes s' = mProbes s" "mClock s \<le> mClock s'"
    and "\<And>k e. mCache s' k = Some e \<Longrightarrow> mCache s k = Some e"
    and "\<And>t. mCleaner s' = Some t \<Longrightarrow> t \<le> mClock s'"
  shows "machineOk s'"
proof (rule machineOkI)
  note ok = machineOkD [OF assms(1)]
  show "entryOk s' k e" if "mCache s' k = Some e" for k e
    using entryOk_mono [OF ok(1) [OF assms(5) [OF that]]] assms(3,4) by simp
  show "requestOk s' (mThreads s' i)" for i
    using requestOk_mono [OF ok(2) [of i]] assms(2,3) by simp
  show "\<exists>resp. classifyProbe d r resp = Inr info" if "(d, r, info) \<in> mProbes s'" for d r info
    using ok(4) that by (simp add: assms(3))
qed (rule assms(6))

lemma machineOk_hit:
  assumes "machineOk s" "cacheLookup (mCache s) now (cacheKey d r) = Some info" "CHR ''/'' \<notin> set d"
  shows "probedInfo s d r info"
proof -
  obtain e where e: "mCache s (cacheKey d r) = Some e" "ceInfo e = info"
    using assms(2) by (auto simp: cacheLookup_Some)
  obtain d' r' where "cacheKey d r = cacheKey d' r'" "probedInfo s d' r' info"
    using machineOkD(1) [OF assms(1) e(1)] e(2) unfolding entryOk_def by blast
  with assms(3) show ?thesis by (auto simp: probedInfo_def cacheKey_inject)
qed

lemma entryOk_fresh:
  "probedInfo s d r info \<Longrightarrow>
     entryOk s (cacheKey d r) \<lparr>ceInfo = info, ceExpiresAt = mClock s + registryCacheTTL\<rparr>"
  unfolding entryOk_def by (intro conjI exI [of _ d] exI [of _ r]) simp_all

lemma entryOk_stored:
  "probedInfo s d r info \<Longrightarrow> cacheStore c (mClock s) (cacheKey d r) info k = Some e \<Longrightarrow>
     c k = Some e \<or> entryOk s k e"
  by (simp add: cacheStore_Some entryOk_fresh split: if_splits)

lemma probedInfo_simps [simp]:
  "probedInfo (s\<lparr>mThreads := f\<rparr>) d r info = probedInfo s d r info"
  "probedInfo (s\<lparr>mCache := c\<rparr>) d r info = probedInfo s d r info"
  by (simp_all add: probedInfo_def)

lemma entryOk_simps [simp]:
  "entryOk (s\<lparr>mThreads := f\<rparr>) k e = entryOk s k e"
  "entryOk (s\<lparr>mCache := c\<rparr>) k e = entryOk s k e"
  by (simp_all add: entryOk_def)

lemma cacheAct_machineOk: "cacheAct a s t \<Longrightarrow> plainDomain a \<Longrightarrow> machineOk s \<Longrightarrow> machineOk t"
proof (induction rule: cacheAct.induct)
  case (hit s i d r info)
  then have "probedInfo s d r info"
    using machineOk_hit [OF hit.prems(2) hit.hyps(2)] by simp
  with hit show ?case by - (rule machineOk_request [where s = s and i = i and p = "Served d r info"], simp_all)
next
  case (miss s i d r)
  then show ?case by - (rule machineOk_request [where s = s and i = i and p = "Probing d r"], simp_all)
next
  case (unreachable s i d r err)
  then show ?case by - (rule machineOk_request [where s = s and i = i and p = Free], simp_all)
next
  case (rejected s i d r resp err)
  then show ?case by - (rule machineOk_request [where s = s and i = i and p = Free], simp_all)
next
  case (detected s i d r resp info)
  from machineOkD(2) [OF detected.prems(2), of i] have "CHR ''/'' \<notin> set d" by (simp add: detected.hyps)
  with detected show ?case
    by - (rule machineOk_request [where s = s and i = i and p = "Storing d r info"], (auto simp: probedInfo_def))
next
  case (stored s i d r info)
  from machineOkD(2) [OF stored.prems(2), of i] have "probedInfo s d r info" by (simp add: stored.hyps)
  with stored show ?case
    by - (rule machineOk_request [where s = s and i = i and p = "Served d r info"], (simp_all add: entryOk_stored))
next
  case (finished s i d r info)
  then show ?case by - (rule machineOk_request [where s = s and i = i and p = Free], simp_all)
next
  case (sampled s)
  then show ?case by - (rule machineOk_cleaned [where s = s], simp_all)
next
  case (swept s t)
  then show ?case by - (rule machineOk_cleaned [where s = s], (simp_all add: cleanupExpired_Some))
next
  case (passed ns s)
  then show ?case
    by - (rule machineOk_cleaned [where s = s], (auto dest: machineOkD(3) [OF passed.prems(2)]))
qed

lemma run_machineOk:
  assumes "cacheActs as (initialMachine now) s" "list_all plainDomain as"
  shows "machineOk s"
  by (rule cacheActs_invariant [where I = machineOk, OF cacheAct_machineOk assms machineOk_initial])

lemma classifyProbe_domain: "classifyProbe d r resp = Inr info \<Longrightarrow> riDomain info = d"
  by (auto simp: classifyProbe_def Let_def split: if_splits)

section \<open>The history of a run\<close>

text \<open>The request that takes an action.\<close>

fun actor :: "cache_action \<Rightarrow> nat option" where
  "actor (Lookup i _ _) = Some i"
| "actor (Probe i _) = Some i"
| "actor (Store i) = Some i"
| "actor (Finish i) = Some i"
| "actor Sample = None"
| "actor Sweep = None"
| "actor (Pass _) = None"

text \<open>The last thing the request \<open>j\<close> did in the run \<open>as\<close> is to look up \<open>d\<close> and \<open>r\<close>.\<close>

definition lookedUpLast :: "cache_action list \<Rightarrow> nat \<Rightarrow> string \<Rightarrow> string \<Rightarrow> bool" where
  "lookedUpLast as j d r \<longleftrightarrow>
     (\<exists>pre mid. as = pre @ Lookup j d r # mid \<and> list_all (\<lambda>a. actor a \<noteq> Some j) mid)"

text \<open>
  What an answer to a probe of the registry \<open>d\<close> for the repository \<open>r\<close> says: 200, that no
  authentication is needed; 401 with a bearer challenge, where the token is to be had. Any other
  answer, and none, says nothing.
\<close>

definition probeSays :: "string \<Rightarrow> string \<Rightarrow> http_response \<Rightarrow> registry_info \<Rightarrow> bool" where
  "probeSays d r resp info \<longleftrightarrow>
     (respStatusCode resp = 200 \<and> info = \<lparr>riDomain = d, riAuthMethod = AuthNone, riTokenURL = []\<rparr>) \<or>
     (\<exists>h. respStatusCode resp = 401 \<and> h = headerGet (respHeader resp) ''WWW-Authenticate'' \<and>
        7 < length h \<and> equalFold (take 7 h) ''bearer '' \<and>
        info = \<lparr>riDomain = d, riAuthMethod = AuthBearer, riTokenURL = extractTokenURL h r\<rparr>)"

lemma classifyProbe_says: "classifyProbe d r resp = Inr info \<Longrightarrow> probeSays d r resp info"
  by (auto simp: classifyProbe_def probeSays_def Let_def split: if_splits)

text \<open>
  Some request of the run looked up \<open>d\<close> and \<open>r\<close>, and the very next thing it did was a probe
  whose answer says \<open>info\<close>.
\<close>

definition probedIn :: "cache_action list \<Rightarrow> string \<Rightarrow> string \<Rightarrow> registry_info \<Rightarrow> bool" where
  "probedIn as d r info \<longleftrightarrow>
     (\<exists>before j resp after. as = before @ Probe j (Inr resp) # after \<and>
        lookedUpLast before j d r \<and> probeSays d r resp info)"

lemma lookedUpLast_snoc:
  "lookedUpLast as j d r \<Longrightarrow> actor a \<noteq> Some j \<Longrightarrow> lookedUpLast (as @ [a]) j d r"
proof -
  assume "lookedUpLast as j d r" and a: "actor a \<noteq> Some j"
  then obtain pre mid where "as = pre @ Lookup j d r # mid" "list_all (\<lambda>a. actor a \<noteq> Some j) mid"
    unfolding lookedUpLast_def by blast
  with a show ?thesis
    unfolding lookedUpLast_def by (intro exI [of _ pre] exI [of _ "mid @ [a]"]) simp
qed

lemma lookedUpLast_lookup: "lookedUpLast (as @ [Lookup j d r]) j d r"
  unfolding lookedUpLast_def by (intro exI [of _ as] exI [of _ "[]"]) simp

lemma probedIn_snoc: "probedIn as d r info \<Longrightarrow> probedIn (as @ [a]) d r info"
  unfolding probedIn_def by (metis append.assoc append_Cons)

lemma probedIn_probe:
  "lookedUpLast as j d r \<Longrightarrow> probeSays d r resp info \<Longrightarrow> probedIn (as @ [Probe j (Inr resp)]) d r info"
  unfolding probedIn_def by blast

text \<open>The record \<open>mProbes\<close> of a run holds only what was probed in it.\<close>

definition historyOk :: "cache_action list \<Rightarrow> cache_machine \<Rightarrow> bool" where
  "historyOk as s \<longleftrightarrow>
     (\<forall>j d r. mThreads s j = Probing d r \<longrightarrow> lookedUpLast as j d r) \<and>
     (\<forall>d r info. (d, r, info) \<in> mProbes s \<longrightarrow> probedIn as d r info)"

text \<open>A step that adds no probe, of a request \<open>i\<close> that does not begin to probe, or of no request.\<close>

lemma historyOk_quiet:
  assumes "historyOk as s" "mProbes t = mProbes s"
    and "\<And>j d r. mThreads t j = Probing d r \<Longrightarrow> mThreads s j = Probing d r \<and> actor a \<noteq> Some j"
  shows "historyOk (as @ [a]) t"
proof -
  have "lookedUpLast (as @ [a]) j d r" if "mThreads t j = Probing d r" for j d r
    using assms(1) assms(3) [OF that] by (auto simp: historyOk_def intro: lookedUpLast_snoc)
  then show ?thesis
    using assms(1,2) by (auto simp: historyOk_def intro: probedIn_snoc)
qed

lemma historyOk_step: "cacheAct a s t \<Longrightarrow> historyOk as s \<Longrightarrow> historyOk (as @ [a]) t"
proof (induction rule: cacheAct.induct)
  case (miss s i d r)
  then show ?case
    by (auto simp: historyOk_def intro: lookedUpLast_snoc lookedUpLast_lookup probedIn_snoc)
next
  case (detected s i d r resp info)
  then have "probedIn (as @ [Probe i (Inr resp)]) d r info"
    by (auto simp: historyOk_def intro!: probedIn_probe classifyProbe_says)
  with detected show ?case
    by (auto simp: historyOk_def intro: lookedUpLast_snoc probedIn_snoc)
qed (erule historyOk_quiet; simp split: if_splits)+

lemma cacheActs_snoc:
  "cacheActs (as @ [a]) s u \<longleftrightarrow> (\<exists>t. cacheActs as s t \<and> cacheAct a t u)"
  by (induction as arbitrary: s) (auto simp: cacheActs_Cons)

lemma run_historyOk: "cacheActs as (initialMachine now) s \<Longrightarrow> historyOk as s"
proof (induction as arbitrary: s rule: rev_induct)
  case Nil
  then show ?case by (simp add: historyOk_def initialMachine_def)
next
  case (snoc a as)
  then show ?case by (auto simp: cacheActs_snoc intro: historyOk_step)
qed

section \<open>Sweeping\<close>

text \<open>Sweeping is invisible to every later lookup, however long ago the cleanup read the clock.\<close>

lemma sweep_invisible:
  assumes "machineOk s" "cacheAct Sweep s s'" "mClock s \<le> now"
  shows "cacheLookup (mCache s') now k = cacheLookup (mCache s) now k"
proof -
  obtain t where t: "mCleaner s = Some t" "mCache s' = cleanupExpired (mCache s) t"
    using assms(2) by (auto elim: SweepE)
  have "t \<le> now" using machineOkD(3) [OF assms(1) t(1)] assms(3) by simp
  then show ?thesis by (simp add: t(2) cache.find_cleanup)
qed

section \<open>The code refines the machine\<close>

text \<open>
  A clock of the environment: \<open>time.Now\<close> reads it, and it does not run backwards. A world
  represents a state when they agree on the cache and the state is not ahead of the clock.
\<close>

definition clockedBy :: "'s env \<Rightarrow> ('s \<Rightarrow> int) \<Rightarrow> bool" where
  "clockedBy E tm \<longleftrightarrow>
     (\<forall>s. tm s \<le> fst (e_now E s) \<and> tm (snd (e_now E s)) = fst (e_now E s) \<and>
        (\<forall>u. tm s \<le> tm (snd (e_httpGet E u s))) \<and> (\<forall>b. tm s \<le> tm (snd (e_closeBody E b s))))"

lemma clockedByD:
  assumes "clockedBy E tm"
  shows "tm s \<le> fst (e_now E s)" "tm (snd (e_now E s)) = fst (e_now E s)"
    "tm s \<le> tm (snd (e_httpGet E u s))" "tm s \<le> tm (snd (e_closeBody E b s))"
  using assms by (simp_all add: clockedBy_def)

definition represents ::
  "('s \<Rightarrow> int) \<Rightarrow> ('s, 'z) proxy_world_scheme \<Rightarrow> cache_machine \<Rightarrow> bool" where
  "represents tm w s \<longleftrightarrow> mCache s = registryCache w \<and> mClock s \<le> tm (ext w)"

lemma pass_to: "mClock s \<le> now \<Longrightarrow> cacheAct (Pass (now - mClock s)) s (s\<lparr>mClock := now\<rparr>)"
  using cacheAct.passed [of "now - mClock s" s] by simp

lemma run_detectRegistryAuth:
  assumes "clockedBy E tm" "run_state (detectRegistryAuth E d r) w = (res, w')"
  obtains got where "registryCache w' = registryCache w" "tm (ext w) \<le> tm (ext w')"
    "res = (case got of Inl err \<Rightarrow> Inl (RegistryUnreachable err) | Inr resp \<Rightarrow> classifyProbe d r resp)"
proof -
  let ?get = "e_httpGet E (''https://'' @ d @ ''/v2/'') (ext w)"
  have get: "tm (ext w) \<le> tm (snd ?get)" by (rule clockedByD(3) [OF assms(1)])
  have close: "tm (snd ?get) \<le> tm (snd (e_closeBody E b (snd ?get)))" for b
    by (rule clockedByD(4) [OF assms(1)])
  show thesis
    by (rule that [of "fst ?get"]; use assms(2) get order_trans [OF get close] in
      \<open>auto simp: detectRegistryAuth_def split: sum.splits\<close>)
qed

text \<open>The probe and the store of a request that missed.\<close>

lemma detectAndCache_refines:
  assumes "clockedBy E tm" "represents tm w s" "mThreads s i = Probing d r"
    and "run_state (detectAndCache E d r) w = (res, w')"
  shows "\<exists>as s'. cacheActs as s s' \<and> represents tm w' s' \<and> mCleaner s' = mCleaner s \<and>
    mThreads s' = (mThreads s)(i := case res of Inl _ \<Rightarrow> Free | Inr info \<Rightarrow> Served d r info)"
proof -
  obtain a w1 where a: "run_state (detectRegistryAuth E d r) w = (a, w1)" by fastforce
  from run_detectRegistryAuth [OF assms(1) a] obtain got where
    w1: "registryCache w1 = registryCache w" "tm (ext w) \<le> tm (ext w1)"
    and got: "a = (case got of Inl err \<Rightarrow> Inl (RegistryUnreachable err) | Inr resp \<Rightarrow> classifyProbe d r resp)"
    by blast
  show ?thesis
  proof (cases a)
    case (Inl err)
    then have "cacheAct (Probe i got) s (moved s i Free)"
      using got assms(3) by (cases got) (auto intro: cacheAct.unreachable cacheAct.rejected)
    moreover have "res = Inl err" "w' = w1" using assms(4) a Inl by (simp_all add: detectAndCache_def)
    ultimately show ?thesis
      using assms(2) w1
      by (intro exI [of _ "[Probe i got]"] exI [of _ "moved s i Free"])
        (auto simp: represents_def cacheActs_Cons)
  next
    case (Inr info)
    then obtain resp where resp: "got = Inr resp" "classifyProbe d r resp = Inr info"
      using got by (cases got) auto
    let ?now = "fst (e_now E (ext w1))"
    let ?s1 = "moved s i (Storing d r info)\<lparr>mProbes := insert (d, r, info) (mProbes s)\<rparr>"
    let ?s2 = "?s1\<lparr>mClock := ?now\<rparr>"
    let ?s3 = "moved ?s2 i (Served d r info)\<lparr>mCache := cacheStore (mCache ?s2) (mClock ?s2) (cacheKey d r) info\<rparr>"
    have "mClock s \<le> ?now"
      using assms(2) w1(2) clockedByD(1) [OF assms(1), of "ext w1"] by (simp add: represents_def)
    then have "cacheAct (Pass (?now - mClock ?s1)) ?s1 ?s2" using pass_to [of ?s1 ?now] by simp
    moreover have "cacheAct (Probe i got) s ?s1" using resp assms(3) by (auto intro: cacheAct.detected)
    moreover have "cacheAct (Store i) ?s2 ?s3" by (rule cacheAct.stored) simp
    ultimately have "cacheActs [Probe i got, Pass (?now - mClock ?s1), Store i] s ?s3"
      by (auto simp only: cacheActs_Cons cacheActs_Nil)
    moreover have "res = Inr info" "registryCache w' = cacheStore (registryCache w1) ?now (cacheKey d r) info"
      "tm (ext w') = ?now"
      using assms(4) a Inr clockedByD(2) [OF assms(1)] by (auto simp: detectAndCache_def)
    ultimately show ?thesis
      using assms(2) w1(1)
      by (intro exI [of _ "[Probe i got, Pass (?now - mClock ?s1), Store i]"] exI [of _ ?s3] conjI)
        (simp_all add: represents_def)
  qed
qed

lemma cacheActs_prefix:
  assumes "cacheAct a s t" "\<exists>as u. cacheActs as t u \<and> Q u"
  shows "\<exists>as u. cacheActs as s u \<and> Q u"
  using assms by (blast intro: cacheActs.act)

lemma getOrDetectRegistry_refines:
  assumes "clockedBy E tm" "represents tm w s" "mThreads s i = Free"
    and "run_state (getOrDetectRegistry E d r) w = (res, w')"
  shows "\<exists>as s'. cacheActs as s s' \<and> represents tm w' s' \<and> mCleaner s' = mCleaner s \<and>
    mThreads s' = (mThreads s)(i := case res of Inl _ \<Rightarrow> Free | Inr info \<Rightarrow> Served d r info)"
proof (cases "registryCache w (cacheKey d r)")
  case None
  then have look: "cacheAct (Lookup i d r) s (moved s i (Probing d r))"
    using assms(2,3) by (intro cacheAct.miss) (auto simp: represents_def cacheLookup_def)
  have rest: "\<exists>as s'. cacheActs as (moved s i (Probing d r)) s' \<and> represents tm w' s' \<and>
      mCleaner s' = mCleaner (moved s i (Probing d r)) \<and> mThreads s' = (mThreads (moved s i (Probing d r)))
        (i := case res of Inl _ \<Rightarrow> Free | Inr info \<Rightarrow> Served d r info)"
    using assms None
    by (intro detectAndCache_refines [where w = w]) (auto simp: represents_def getOrDetectRegistry_def)
  show ?thesis using cacheActs_prefix [OF look rest] by simp
next
  case (Some e)
  let ?now = "fst (e_now E (ext w))"
  let ?s1 = "s\<lparr>mClock := ?now\<rparr>"
  let ?w1 = "w\<lparr>ext := snd (e_now E (ext w)), trace := trace w @ [ENow ?now]\<rparr>"
  have "mClock s \<le> ?now"
    using assms(2) clockedByD(1) [OF assms(1), of "ext w"] by (simp add: represents_def)
  then have pass: "cacheAct (Pass (?now - mClock s)) s ?s1" by (rule pass_to)
  have rep: "represents tm ?w1 ?s1"
    using assms(2) clockedByD(2) [OF assms(1)] by (simp add: represents_def)
  have run: "run_state (getOrDetectRegistry E d r) w =
      (if ?now < ceExpiresAt e then (Inr (ceInfo e), ?w1) else run_state (detectAndCache E d r) ?w1)"
    by (simp add: getOrDetectRegistry_def Some)
  have look: "cacheLookup (mCache ?s1) (mClock ?s1) (cacheKey d r) =
      (if ?now < ceExpiresAt e then Some (ceInfo e) else None)"
    using assms(2) by (simp add: represents_def cacheLookup_def Some)
  show ?thesis
  proof (cases "?now < ceExpiresAt e")
    case True
    then have "cacheAct (Lookup i d r) ?s1 (moved ?s1 i (Served d r (ceInfo e)))"
      using assms(3) look by (intro cacheAct.hit) simp_all
    then have "cacheActs [Pass (?now - mClock s), Lookup i d r] s (moved ?s1 i (Served d r (ceInfo e)))"
      using pass by (auto simp only: cacheActs_Cons cacheActs_Nil)
    moreover have "res = Inr (ceInfo e)" "w' = ?w1" using assms(4) run True by simp_all
    ultimately show ?thesis
      using rep by (intro exI [of _ "[Pass (?now - mClock s), Lookup i d r]"]
        exI [of _ "moved ?s1 i (Served d r (ceInfo e))"]) (simp add: represents_def)
  next
    case False
    let ?s2 = "moved ?s1 i (Probing d r)"
    have miss: "cacheAct (Lookup i d r) ?s1 ?s2"
      using assms(3) look False by (intro cacheAct.miss) simp_all
    have rest: "\<exists>as s'. cacheActs as ?s2 s' \<and> represents tm w' s' \<and> mCleaner s' = mCleaner ?s2 \<and>
        mThreads s' = (mThreads ?s2)(i := case res of Inl _ \<Rightarrow> Free | Inr info \<Rightarrow> Served d r info)"
      using assms(1,4) run rep False
      by (intro detectAndCache_refines [where w = ?w1]) (simp_all add: represents_def)
    show ?thesis using cacheActs_prefix [OF pass cacheActs_prefix [OF miss rest]] by simp
  qed
qed

section \<open>A sample run\<close>

definition okResponse :: http_response where
  "okResponse =
     \<lparr>respStatus = ''200 OK'', respStatusCode = 200, respProto = ''HTTP/1.1'', respProtoMajor = 1,
      respProtoMinor = 1, respHeader = [], respBody = \<lparr>bodyContent = [], bodyError = None\<rparr>,
      respContentLength = 0, respTransferEncoding = [], respClose = False, respUncompressed = False,
      respTrailer = [], respTLS = None,
      respRequest = \<lparr>reqMethod = ''GET'', reqURL = \<lparr>urlScheme = ''https'', urlHost = ''ghcr.io'',
        urlPath = ''/v2/'', urlRawQuery = []\<rparr>, reqHost = ''ghcr.io'', reqHeader = [], reqRemoteIP = None\<rparr>\<rparr>"

definition anonymous :: "string \<Rightarrow> registry_info" where
  "anonymous d = \<lparr>riDomain = d, riAuthMethod = AuthNone, riTokenURL = []\<rparr>"

lemma classify_okResponse: "classifyProbe d r okResponse = Inr (anonymous d)"
  by (simp add: classifyProbe_def okResponse_def anonymous_def)

text \<open>One request detects a registry; the cleanup reads the clock, and time passes before it sweeps.\<close>

definition sampleActions :: "cache_action list" where
  "sampleActions = [Lookup 0 ''ghcr.io'' ''org/os'', Probe 0 (Inr okResponse), Store 0, Sample, Pass 5]"

definition sampleState :: cache_machine where
  "sampleState =
     \<lparr>mClock = 5, mCache = cacheStore emptyCache 0 (cacheKey ''ghcr.io'' ''org/os'') (anonymous ''ghcr.io''),
      mThreads = (\<lambda>_. Free)(0 := Served ''ghcr.io'' ''org/os'' (anonymous ''ghcr.io'')), mCleaner = Some 0,
      mProbes = {(''ghcr.io'', ''org/os'', anonymous ''ghcr.io'')}\<rparr>"

lemma cacheAct_cong: "cacheAct a s t \<Longrightarrow> t = t' \<Longrightarrow> cacheAct a s t'"
  by simp

lemma sample_run: "cacheActs sampleActions (initialMachine 0) sampleState"
proof -
  let ?d = "''ghcr.io''" and ?r = "''org/os''"
  let ?s0 = "initialMachine 0"
  let ?s1 = "moved ?s0 0 (Probing ?d ?r)"
  let ?s2 = "moved ?s1 0 (Storing ?d ?r (anonymous ?d))\<lparr>mProbes := insert (?d, ?r, anonymous ?d) (mProbes ?s1)\<rparr>"
  let ?s3 = "moved ?s2 0 (Served ?d ?r (anonymous ?d))
    \<lparr>mCache := cacheStore (mCache ?s2) (mClock ?s2) (cacheKey ?d ?r) (anonymous ?d)\<rparr>"
  let ?s4 = "?s3\<lparr>mCleaner := Some (mClock ?s3)\<rparr>"
  have "cacheAct (Lookup 0 ?d ?r) ?s0 ?s1"
    by (rule cacheAct.miss) (simp_all add: initialMachine_def emptyCache_def cacheLookup_def)
  moreover have "cacheAct (Probe 0 (Inr okResponse)) ?s1 ?s2"
    by (rule cacheAct.detected) (simp_all add: classify_okResponse)
  moreover have "cacheAct (Store 0) ?s2 ?s3" by (rule cacheAct.stored) simp
  moreover have "cacheAct Sample ?s3 ?s4" by (rule cacheAct.sampled) (simp add: initialMachine_def)
  moreover have "cacheAct (Pass 5) ?s4 sampleState"
    by (rule cacheAct_cong [OF cacheAct.passed]) (simp_all add: initialMachine_def sampleState_def)
  ultimately show ?thesis
    unfolding sampleActions_def by (blast intro: cacheActs.intros)
qed

lemma sample_plain: "list_all plainDomain sampleActions"
  by (simp add: sampleActions_def)

section \<open>Properties\<close>

text \<open>C25: However the requests and the cleanup interleave, the information a request is served, from
  the cache or its own probe, is about the registry it asked for and was probed in this run: some
  request, the same or another one, looked up that very registry and repository, missed, and then
  received an answer 200, or 401 with a bearer challenge, which says just this information. A probe
  that failed, or was answered otherwise, is the source of nothing that is served, and information
  of one registry or repository never reaches a request for another.\<close>

theorem served_info_probed:
  assumes "cacheActs as (initialMachine now) s" "list_all plainDomain as"
    and "mThreads s i = Served d r info"
  shows "riDomain info = d \<and>
    (\<exists>pre j mid resp post. as = pre @ Lookup j d r # mid @ Probe j (Inr resp) # post \<and>
       list_all (\<lambda>a. actor a \<noteq> Some j) mid \<and> probeSays d r resp info)"
proof -
  note ok = machineOkD [OF run_machineOk [OF assms(1,2)]]
  have "(d, r, info) \<in> mProbes s" using ok(2) [of i] assms(3) by (simp add: probedInfo_def)
  then have probed: "probedIn as d r info"
    using run_historyOk [OF assms(1)] by (simp add: historyOk_def)
  then have "riDomain info = d" by (auto simp: probedIn_def probeSays_def)
  moreover obtain before j resp post where as: "as = before @ Probe j (Inr resp) # post"
    "lookedUpLast before j d r" "probeSays d r resp info"
    using probed unfolding probedIn_def by blast
  moreover obtain pre mid where "before = pre @ Lookup j d r # mid" "list_all (\<lambda>a. actor a \<noteq> Some j) mid"
    using as(2) unfolding lookedUpLast_def by blast
  ultimately show ?thesis
    by (intro conjI exI [of _ pre] exI [of _ j] exI [of _ mid] exI [of _ resp] exI [of _ post]) simp_all
qed

lemma served_info_probed_witness:
  "\<exists>pre j mid resp post. sampleActions =
      pre @ Lookup j ''ghcr.io'' ''org/os'' # mid @ Probe j (Inr resp) # post \<and>
    list_all (\<lambda>a. actor a \<noteq> Some j) mid \<and>
    probeSays ''ghcr.io'' ''org/os'' resp (anonymous ''ghcr.io'')"
  by (rule conjunct2 [OF served_info_probed [OF sample_run sample_plain, of 0]])
    (simp add: sampleState_def)

text \<open>C27: A sweep of the cleanup works with a clock reading of the past. After it no entry is left that
  had expired at that reading, none lives longer than fifteen minutes from now, and every lookup
  from now on answers what it would have answered without the sweep.\<close>

theorem sweep_bounds:
  assumes "cacheActs as (initialMachine now) s" "list_all plainDomain as" "cacheAct Sweep s s'"
  shows "\<exists>t \<le> mClock s. mCleaner s = Some t \<and>
    (\<forall>k e. mCache s' k = Some e \<longrightarrow>
       t \<le> ceExpiresAt e \<and> ceExpiresAt e \<le> mClock s + 15 * 60 * 1000000000) \<and>
    (\<forall>k later. mClock s \<le> later \<longrightarrow> cacheLookup (mCache s') later k = cacheLookup (mCache s) later k)"
proof -
  have ok: "machineOk s" by (rule run_machineOk [OF assms(1,2)])
  obtain t where t: "mCleaner s = Some t" "mCache s' = cleanupExpired (mCache s) t"
    using assms(3) by (auto elim: SweepE)
  have "ceExpiresAt e \<le> mClock s + 15 * 60 * 1000000000" if "mCache s k = Some e" for k e
    using machineOkD(1) [OF ok that] by (simp add: entryOk_def registryCacheTTL_def)
  then show ?thesis
    using machineOkD(3) [OF ok t(1)] t(1) sweep_invisible [OF ok assms(3)]
    by (intro exI [of _ t]) (auto simp: t(2) cleanupExpired_Some)
qed

lemma sweep_bounds_witness:
  "\<exists>t \<le> mClock sampleState. mCleaner sampleState = Some t \<and>
    (\<forall>k later. mClock sampleState \<le> later \<longrightarrow>
       cacheLookup (cleanupExpired (mCache sampleState) 0) later k = cacheLookup (mCache sampleState) later k)"
proof -
  let ?s' = "sampleState\<lparr>mCleaner := None, mCache := cleanupExpired (mCache sampleState) 0\<rparr>"
  have "cacheAct Sweep sampleState ?s'" by (rule cacheAct.swept) (simp add: sampleState_def)
  from sweep_bounds [OF sample_run sample_plain this] show ?thesis by auto
qed

text \<open>C26: Every run of \<open>getOrDetectRegistry\<close> is a run of one request of the machine: from a state with
  the same cache whose clock is not ahead, the request takes steps of the machine to a state with
  the resulting cache and the result, while the other requests and the cleanup stand still.\<close>

theorem getOrDetect_refines:
  assumes "clockedBy E tm" "represents tm w s" "mThreads s i = Free"
    and "run_state (getOrDetectRegistry E d r) w = (res, w')"
  shows "\<exists>as s'. cacheActs as s s' \<and> represents tm w' s' \<and> mCleaner s' = mCleaner s \<and>
    mThreads s' = (mThreads s)(i := case res of Inl _ \<Rightarrow> Free | Inr info \<Rightarrow> Served d r info)"
  by (rule getOrDetectRegistry_refines [OF assms])

lemma getOrDetect_refines_witness:
  "\<exists>as s'. cacheActs as (initialMachine 0) s' \<and>
     represents (\<lambda>_. 0) \<lparr>ext = (), trace = [EHTTPGet ''https://ghcr.io/v2/'' (Inl ''offline'')],
       registryCache = emptyCache\<rparr> s' \<and> mThreads s' 0 = Free"
proof -
  have "clockedBy offlineEnv (\<lambda>_ :: unit. 0)" by (simp add: clockedBy_def offlineEnv_def)
  moreover have "represents (\<lambda>_. 0) \<lparr>ext = (), trace = [], registryCache = emptyCache\<rparr> (initialMachine 0)"
    by (simp add: represents_def initialMachine_def)
  moreover have "mThreads (initialMachine 0) 0 = Free" by (simp add: initialMachine_def)
  moreover have "run_state (getOrDetectRegistry offlineEnv ''ghcr.io'' ''org/os'')
      \<lparr>ext = (), trace = [], registryCache = emptyCache\<rparr> =
      (Inl (RegistryUnreachable ''offline''), \<lparr>ext = (), trace = [EHTTPGet ''https://ghcr.io/v2/'' (Inl ''offline'')],
        registryCache = emptyCache\<rparr>)"
    by (simp add: getOrDetectRegistry_def detectAndCache_def detectRegistryAuth_def emptyCache_def offlineEnv_def)
  ultimately obtain as s' where "cacheActs as (initialMachine 0) s'"
    "represents (\<lambda>_. 0) \<lparr>ext = (), trace = [EHTTPGet ''https://ghcr.io/v2/'' (Inl ''offline'')],
       registryCache = emptyCache\<rparr> s'" "mThreads s' 0 = Free"
    using getOrDetect_refines by fastforce
  then show ?thesis by blast
qed

end
