(* ===== verification/EndToEnd.thy ===== *)
theory EndToEnd
  imports ImageProxy ServerBootControllers
begin

text \<open>
  What the reconcilers write is what the image proxy reads: the URLs that
  \<^verbatim>\<open>serverbootconfiguration_pxe_controller.go\<close> and
  \<^verbatim>\<open>serverbootconfiguration_http_controller.go\<close> put into the boot resources, parsed back by
  \<^verbatim>\<open>imageproxyserver.go\<close>, and the decision of the allow list on both ends.
\<close>

section \<open>The reference parser\<close>

text \<open>
  What \<^verbatim>\<open>distribution/reference\<close> documents of a parsed reference: its familiar name, alone,
  with a tag or with a digest, parses to the same repository. A tag is not empty and has no
  colon.
\<close>

definition sameRepository :: "named_ref \<Rightarrow> named_ref \<Rightarrow> bool" where
  "sameRepository m n \<longleftrightarrow> refDomain m = refDomain n \<and> refPath m = refPath n"

definition parsesTo :: "lib \<Rightarrow> string \<Rightarrow> named_ref \<Rightarrow> bool" where
  "parsesTo L s n \<longleftrightarrow>
     (case l_parseNormalizedNamed L s of Inl _ \<Rightarrow> False | Inr m \<Rightarrow> sameRepository m n)"

definition familiarReparses :: "lib \<Rightarrow> named_ref \<Rightarrow> bool" where
  "familiarReparses L n \<longleftrightarrow> refFamiliarName n \<noteq> [] \<and>
     parsesTo L (refFamiliarName n) n \<and>
     (case refTag n of
        Some t \<Rightarrow> t \<noteq> [] \<and> CHR '':'' \<notin> set t \<and> parsesTo L (refFamiliarName n @ '':'' @ t) n
      | None \<Rightarrow>
          (case refDigest n of
             Some d \<Rightarrow> d \<noteq> [] \<and> parsesTo L (refFamiliarName n @ ''@'' @ d) n
           | None \<Rightarrow> parsesTo L (refFamiliarName n @ '':latest'') n))"

text \<open>The digest algorithms that \<open>BuildImageReference\<close> knows.\<close>

definition knownDigest :: "string \<Rightarrow> bool" where
  "knownDigest d \<longleftrightarrow> hasPrefix d ''sha256:'' \<or> hasPrefix d ''sha512:''"

definition supportedReference :: "named_ref \<Rightarrow> bool" where
  "supportedReference n \<longleftrightarrow> refTag n \<noteq> None \<or>
     (case refDigest n of Some d \<Rightarrow> knownDigest d | None \<Rightarrow> True)"

lemma not_knownDigest_tag: "CHR '':'' \<notin> set t \<Longrightarrow> \<not> knownDigest t"
  by (auto simp: knownDigest_def hasPrefix_iff)

lemma BuildImageReference_tag:
  "CHR '':'' \<notin> set t \<Longrightarrow> BuildImageReference n t = n @ '':'' @ t"
  using not_knownDigest_tag [of t] by (simp add: BuildImageReference_def knownDigest_def)

lemma BuildImageReference_digest: "knownDigest d \<Longrightarrow> BuildImageReference n d = n @ ''@'' @ d"
  by (simp add: BuildImageReference_def knownDigest_def)

text \<open>Splitting an image into name and version and joining them again keeps the repository.\<close>

lemma rebuilt_reference:
  assumes "l_parseNormalizedNamed L img = Inr named" "familiarReparses L named"
    "supportedReference named" "ParseImageReference L img = Inr (name, version)"
  shows "name = refFamiliarName named" "version \<noteq> []" "parsesTo L name named"
    "parsesTo L (BuildImageReference name version) named"
  using assms
  by (auto simp: ParseImageReference_def familiarReparses_def supportedReference_def
      BuildImageReference_tag BuildImageReference_digest split: option.splits)

section \<open>The allow list on both ends\<close>

lemma parsesToE:
  assumes "parsesTo L s n"
  obtains m where "l_parseNormalizedNamed L s = Inr m" "refDomain m = refDomain n" "refPath m = refPath n"
  using assms by (auto simp: parsesTo_def sameRepository_def split: sum.splits)

text \<open>The registry and the repository that the proxy finds behind a name.\<close>

definition repositoryOf :: "named_ref \<Rightarrow> string \<times> string" where
  "repositoryOf n =
     (if refDomain n = DockerHubDomain then DefaultRegistry else refDomain n, refPath n)"

lemma imageRepository_parsesTo: "parsesTo L s n \<Longrightarrow> imageRepository L s = Inr (repositoryOf n)"
  by (erule parsesToE) (simp add: imageRepository_def ExtractRegistryDomain_def repositoryOf_def Let_def)

lemma ExtractRegistryDomain_parsesTo:
  "parsesTo L s n \<Longrightarrow> ExtractRegistryDomain L s = Inr (fst (repositoryOf n))"
  by (erule parsesToE) (simp add: ExtractRegistryDomain_def repositoryOf_def Let_def)

lemma admitted_parsesTo:
  "parsesTo L s n \<Longrightarrow> ValidateImageRegistry L v s = None \<longleftrightarrow> IsRegistryAllowed v (fst (repositoryOf n))"
  by (simp add: ValidateImageRegistry_None ExtractRegistryDomain_parsesTo)

section \<open>Served URLs\<close>

text \<open>
  A parsed request of the proxy is for the blob \<open>digest\<close> of the repository of \<open>n\<close>, and the
  allow list admits it.
\<close>

definition servesBlob ::
  "validator \<Rightarrow> named_ref \<Rightarrow> string \<Rightarrow> string + image_details \<Rightarrow> bool" where
  "servesBlob v n digest parsed \<longleftrightarrow>
     (case parsed of
        Inl _ \<Rightarrow> False
      | Inr d \<Rightarrow> (idRegistryDomain d, idRepositoryName d) = repositoryOf n \<and>
          idLayerDigest d = digest \<and> IsRegistryAllowed v (idRegistryDomain d))"

lemma parseImageURL_served:
  assumes "parsesTo L name n" "name \<noteq> []" "version \<noteq> []" "digest \<noteq> []" "\<not> hasSuffix name ''.efi''"
    and "IsRegistryAllowed v (fst (repositoryOf n))"
  shows "servesBlob v n digest (parseImageURL L (parseQuery (encodePairs (proxyQuery name version digest))))"
  using assms imageRepository_parsesTo [OF assms(1)]
  by (auto simp: parseImageURL_def parseQuery_proxyQuery imageKey_def layerDigestKey_def versionKey_def
      trimSuffix_id servesBlob_def Let_def split: prod.split)

text \<open>What the PXE reconciler wrote as the URL of the layer \<open>digest\<close>.\<close>

definition pxeURLServed ::
  "lib \<Rightarrow> pxe_reconciler \<Rightarrow> named_ref \<Rightarrow> string \<Rightarrow> string \<Rightarrow> bool" where
  "pxeURLServed L r n digest u \<longleftrightarrow>
     (if digest = [] then u = []
      else \<exists>q. u = pxeIPXEServiceURL r @ ''/image?'' @ q \<and>
        servesBlob (pxeRegistryValidator r) n digest (parseImageURL L (parseQuery q)))"

lemma pxeURL_served:
  assumes "parsesTo L name n" "name \<noteq> []" "version \<noteq> []" "\<not> hasSuffix name ''.efi''"
    and "IsRegistryAllowed (pxeRegistryValidator r) (fst (repositoryOf n))"
  shows "pxeURLServed L r n digest (pxeURL r name version digest)"
  using parseImageURL_served [OF assms(1-3) _ assms(4,5)]
  by (auto simp: pxeURLServed_def pxeURL_def buildImageURL_query)

lemma imageRead_Inr:
  assumes "imageRead L v img arch opts result (Inr u) es"
  obtains name version resolved desc rest m where
    "ParseImageReference L img = Inr (name, version)"
    "ValidateImageRegistry L v (BuildImageReference name version) = None"
    "es = EResolve (BuildImageReference name version) (Inr (resolved, desc)) # rest"
    "manifestFetched L resolved desc arch opts m rest" "result name version m u"
  using assms unfolding imageRead_def by auto

text \<open>The manifest behind the calls of the image step.\<close>

definition manifestRead ::
  "lib \<Rightarrow> string \<Rightarrow> find_manifest_options \<Rightarrow> manifest \<Rightarrow> event list \<Rightarrow> bool" where
  "manifestRead L arch opts m es \<longleftrightarrow>
     (\<exists>i resolved desc rest. es = EResolve i (Inr (resolved, desc)) # rest \<and>
        manifestFetched L resolved desc arch opts m rest)"

definition pxeImagesServed ::
  "lib \<Rightarrow> pxe_reconciler \<Rightarrow> named_ref \<Rightarrow> string + string \<times> string \<times> string \<Rightarrow> event list \<Rightarrow> bool" where
  "pxeImagesServed L r n res es \<longleftrightarrow>
     (case res of
        Inl _ \<Rightarrow> True
      | Inr (kernelURL, initrdURL, squashFSURL) \<Rightarrow>
          \<exists>m. manifestRead L (pxeArchitecture r) pxeOptions m es \<and>
            pxeURLServed L r n (lastDigest {MediaTypeKernel, MediaTypeKernelOld} m) kernelURL \<and>
            pxeURLServed L r n (lastDigest {MediaTypeInitrd, MediaTypeInitrdOld} m) initrdURL \<and>
            pxeURLServed L r n (lastDigest {MediaTypeSquashFS, MediaTypeSquashFSOld} m) squashFSURL)"

lemma emits_pxeImagesServed:
  assumes "l_parseNormalizedNamed L (sbcImage sbc) = Inr named" "familiarReparses L named"
    "supportedReference named" "\<not> hasSuffix (refFamiliarName named) ''.efi''"
  shows "emits (getImageDetailsFromConfig L E r sbc) (pxeImagesServed L r named)"
proof (rule emits_conseq [OF emits_getImageDetails])
  fix res es
  assume *: "imageRead L (pxeRegistryValidator r) (sbcImage sbc) (pxeArchitecture r) pxeOptions
    (pxeURLs r) res es"
  show "pxeImagesServed L r named res es"
  proof (cases res)
    case Inl
    then show ?thesis by (simp add: pxeImagesServed_def)
  next
    case (Inr urls)
    with * obtain name version resolved desc rest m where
      p: "ParseImageReference L (sbcImage sbc) = Inr (name, version)"
      and v: "ValidateImageRegistry L (pxeRegistryValidator r) (BuildImageReference name version) = None"
      and es: "es = EResolve (BuildImageReference name version) (Inr (resolved, desc)) # rest"
      and m: "manifestFetched L resolved desc (pxeArchitecture r) pxeOptions m rest"
      and u: "pxeURLs r name version m urls"
      by (blast elim: imageRead_Inr)
    note ref = rebuilt_reference [OF assms(1-3) p]
    have "IsRegistryAllowed (pxeRegistryValidator r) (fst (repositoryOf named))"
      using v by (simp add: admitted_parsesTo [OF ref(4)])
    moreover have "name \<noteq> []" using ref(1) assms(2) by (simp add: familiarReparses_def)
    ultimately have "pxeURLServed L r named digest (pxeURL r name version digest)" for digest
      using pxeURL_served [OF ref(3)] ref(1,2) assms(4) by simp
    then show ?thesis
      using Inr es m u by (auto simp: pxeImagesServed_def manifestRead_def pxeURLs_def)
  qed
qed

text \<open>The path of a UKI below \<open>/httpboot\<close>, parsed back.\<close>

lemma ukiPath_segments:
  assumes "CHR ''/'' \<notin> set seg"
  shows "splitOn (CHR ''/'') (name @ CHR ''/'' # seg) = splitOn (CHR ''/'') name @ [seg]"
  using assms by (simp add: splitOn_append_sep)

lemma set_trimPrefix: "set (trimPrefix s p) \<subseteq> set s"
  by (simp add: trimPrefix_def set_drop_subset)

lemma parseHttpBootImagePath_served:
  assumes "parsesTo L name n" "CHR ''/'' \<notin> set digest" "IsRegistryAllowed v (fst (repositoryOf n))"
  shows "servesBlob v n (''sha256:'' @ trimPrefix digest ''sha256:'')
    (parseHttpBootImagePath L (ukiFileURL ''/httpboot'' name digest))"
proof -
  let ?hex = "trimPrefix digest ''sha256:''"
  have "CHR ''/'' \<notin> set ?hex" using assms(2) set_trimPrefix by fastforce
  then have "splitOn (CHR ''/'') (name @ CHR ''/'' # ''sha256-'' @ ?hex @ ''.efi'') =
      splitOn (CHR ''/'') name @ [''sha256-'' @ ?hex @ ''.efi'']"
    by (intro ukiPath_segments) auto
  moreover have "trimPrefix (ukiFileURL ''/httpboot'' name digest) ''/httpboot/'' =
      name @ CHR ''/'' # ''sha256-'' @ ?hex @ ''.efi''"
    using trimPrefix_append [of "''/httpboot/''"] by (simp add: ukiFileURL_def)
  moreover have "trimSuffix (''sha256-'' @ ?hex @ ''.efi'') ''.efi'' = ''sha256-'' @ ?hex"
    using trimSuffix_append [of "''sha256-'' @ ?hex" "''.efi''"] by simp
  moreover have "hasPrefix (''sha256-'' @ ?hex) ''sha256-''" by (rule hasPrefix_append)
  moreover have "trimPrefix (''sha256-'' @ ?hex) ''sha256-'' = ?hex" by (rule trimPrefix_append)
  ultimately show ?thesis
    using imageRepository_parsesTo [OF assms(1)] assms(3)
    by (auto simp: parseHttpBootImagePath_def Let_def servesBlob_def simp del: append_Cons append_Nil
        split: prod.split)
qed

text \<open>
  The digest that the proxy reads off the path of a UKI: the layer's own if it is a sha256 digest,
  and otherwise one with that algorithm put in front, which is not the layer's.
\<close>

definition proxiedDigest :: "string \<Rightarrow> string" where
  "proxiedDigest d = (if hasPrefix d ''sha256:'' then d else ''sha256:'' @ d)"

lemma proxiedDigest_trim: "''sha256:'' @ trimPrefix d ''sha256:'' = proxiedDigest d"
  by (auto simp: proxiedDigest_def trimPrefix_def hasPrefix_iff)

definition httpImageServed ::
  "lib \<Rightarrow> http_reconciler \<Rightarrow> string \<Rightarrow> named_ref \<Rightarrow> string + string \<Rightarrow> event list \<Rightarrow> bool" where
  "httpImageServed L r base n res es \<longleftrightarrow>
     (case res of
        Inl _ \<Rightarrow> True
      | Inr u \<Rightarrow>
          \<exists>m layer path. manifestRead L (hrArchitecture r) noOptions m es \<and>
            List.find (\<lambda>l. descMediaType l = MediaTypeUKI) m = Some layer \<and> u = base @ path \<and>
            (CHR ''/'' \<notin> set (descDigest layer) \<longrightarrow>
             servesBlob (hrRegistryValidator r) n (proxiedDigest (descDigest layer))
               (parseHttpBootImagePath L path)))"

lemma ukiFileURL_base: "ukiFileURL (base @ s) name d = base @ ukiFileURL s name d"
  by (simp add: ukiFileURL_def)

lemma emits_httpImageServed:
  assumes "l_parseNormalizedNamed L img = Inr named" "familiarReparses L named"
    "supportedReference named" "hrImageServerURL r = base @ ''/httpboot''"
  shows "emits (constructUKIURL L E r img) (httpImageServed L r base named)"
proof (rule emits_conseq [OF emits_constructUKIURL])
  fix res es
  assume *: "imageRead L (hrRegistryValidator r) img (hrArchitecture r) noOptions (ukiURLOf r) res es"
  show "httpImageServed L r base named res es"
  proof (cases res)
    case Inl
    then show ?thesis by (simp add: httpImageServed_def)
  next
    case (Inr url)
    with * obtain name version resolved desc rest m where
      p: "ParseImageReference L img = Inr (name, version)"
      and v: "ValidateImageRegistry L (hrRegistryValidator r) (BuildImageReference name version) = None"
      and es: "es = EResolve (BuildImageReference name version) (Inr (resolved, desc)) # rest"
      and m: "manifestFetched L resolved desc (hrArchitecture r) noOptions m rest"
      and u: "ukiURLOf r name version m url"
      by (blast elim: imageRead_Inr)
    note ref = rebuilt_reference [OF assms(1-3) p]
    obtain layer where l: "List.find (\<lambda>l. descMediaType l = MediaTypeUKI) m = Some layer"
      "url = base @ ukiFileURL ''/httpboot'' name (descDigest layer)"
      using u by (auto simp: ukiURLOf_def assms(4) ukiFileURL_base)
    have "IsRegistryAllowed (hrRegistryValidator r) (fst (repositoryOf named))"
      using v by (simp add: admitted_parsesTo [OF ref(4)])
    with parseHttpBootImagePath_served [OF ref(3), unfolded proxiedDigest_trim] show ?thesis
      using Inr es m l by (auto simp: httpImageServed_def manifestRead_def)
  qed
qed

section \<open>A sample image\<close>

text \<open>An online registry that serves one manifest, with a kernel and a UKI, for every reference.\<close>

definition sampleNamed :: named_ref where
  "sampleNamed = \<lparr>refDomain = ''ghcr.io'', refPath = ''org/os'', refFamiliarName = ''ghcr.io/org/os'',
     refTag = Some ''1.0'', refDigest = None\<rparr>"

definition sampleManifest :: manifest where
  "sampleManifest =
     [zeroDescriptor\<lparr>descMediaType := MediaTypeKernelOld, descDigest := ''sha256:ab''\<rparr>,
      zeroDescriptor\<lparr>descMediaType := MediaTypeUKI, descDigest := ''sha256:cd''\<rparr>]"

definition onlineEnv :: "'s env" where
  "onlineEnv = offlineEnv\<lparr>e_resolve := \<lambda>r s. (Inr (r, zeroDescriptor), s),
     e_fetcher := \<lambda>_ s. (None, s), e_fetch := \<lambda>_ _ s. (None, s), e_readContent := \<lambda>_ _ s. (Inr [], s)\<rparr>"

definition imageLib :: lib where
  "imageLib = sampleLib\<lparr>l_parseNormalizedNamed := \<lambda>_. Inr sampleNamed,
     l_decodeManifest := \<lambda>_. Inr sampleManifest\<rparr>"

definition sampleConfig :: server_boot_config where
  "sampleConfig = \<lparr>sbcMeta = newMeta ''ns'' ''boot'', sbcServerRef = ''server'', sbcImage = ''ghcr.io/org/os:1.0'',
     sbcIgnitionSecretRef = None, sbcState = SBCStateOther ''Pending'', sbcConditions = []\<rparr>"

lemma sample_reference:
  "l_parseNormalizedNamed imageLib s = Inr sampleNamed" "familiarReparses imageLib sampleNamed"
  "supportedReference sampleNamed" "\<not> hasSuffix (refFamiliarName sampleNamed) ''.efi''"
  by (simp_all add: imageLib_def familiarReparses_def parsesTo_def sameRepository_def
      supportedReference_def sampleNamed_def hasSuffix_def)

section \<open>Properties\<close>

text \<open>C11: For an image whose reference parses, is tagged, untagged or has a sha256 or sha512 digest, and
  does not end in \<open>.efi\<close>, every URL that the PXE reconciler computes is empty, when the fetched
  manifest has no such layer, or an \<open>/image\<close> URL of the iPXE service whose query the image proxy
  parses back to the image's registry and repository and to the digest of that layer, and the
  allow list that admitted the image to the reconciler admits the proxy's request.\<close>

theorem pxe_images_served:
  assumes "l_parseNormalizedNamed L (sbcImage sbc) = Inr named" "familiarReparses L named"
    "supportedReference named" "\<not> hasSuffix (refFamiliarName named) ''.efi''"
  shows "emits (getImageDetailsFromConfig L E r sbc) (pxeImagesServed L r named)"
  by (rule emits_pxeImagesServed [OF assms])

definition samplePXE :: pxe_reconciler where
  "samplePXE = \<lparr>pxeIPXEServiceURL = ''http://boot:5000'', pxeArchitecture = ''amd64'',
     pxeRegistryValidator = NewValidator []\<rparr>"

lemma pxe_images_served_witness:
  "emits (getImageDetailsFromConfig imageLib (onlineEnv :: unit env) samplePXE sampleConfig)
     (pxeImagesServed imageLib samplePXE sampleNamed) \<and>
   fst (run_state (getImageDetailsFromConfig imageLib onlineEnv samplePXE sampleConfig) (startWorld ())) =
     Inr (''http://boot:5000/image?imageName=ghcr.io%2Forg%2Fos&layerDigest=sha256%3Aab&version=1.0'', [], [])"
proof
  show "emits (getImageDetailsFromConfig imageLib (onlineEnv :: unit env) samplePXE sampleConfig)
     (pxeImagesServed imageLib samplePXE sampleNamed)"
    by (intro pxe_images_served sample_reference)
  show "fst (run_state (getImageDetailsFromConfig imageLib onlineEnv samplePXE sampleConfig) (startWorld ())) =
     Inr (''http://boot:5000/image?imageName=ghcr.io%2Forg%2Fos&layerDigest=sha256%3Aab&version=1.0'', [], [])"
    by code_simp
qed

text \<open>C12: With an image server URL that ends in \<open>/httpboot\<close>, every UKI URL that the HTTP reconciler
  computes is the server's base followed by a path that the image proxy parses back to the image's
  registry and repository, which the allow list admits, and to a digest of the first UKI layer of
  the fetched manifest: to the layer's own digest if, and only if, that is a sha256 digest; a digest
  of another algorithm comes back with \<open>sha256:\<close> put in front, which is not the layer's. (A digest
  has no slash.)\<close>

theorem http_images_served:
  assumes "l_parseNormalizedNamed L img = Inr named" "familiarReparses L named"
    "supportedReference named" "hrImageServerURL r = base @ ''/httpboot''"
  shows "emits (constructUKIURL L E r img) (httpImageServed L r base named)"
  by (rule emits_httpImageServed [OF assms])

definition sampleHTTPReconciler :: http_reconciler where
  "sampleHTTPReconciler = \<lparr>hrImageServerURL = ''http://boot:5000/httpboot'', hrArchitecture = ''amd64'',
     hrRegistryValidator = NewValidator []\<rparr>"

lemma http_images_served_witness:
  "emits (constructUKIURL imageLib (onlineEnv :: unit env) sampleHTTPReconciler ''ghcr.io/org/os:1.0'')
     (httpImageServed imageLib sampleHTTPReconciler ''http://boot:5000'' sampleNamed) \<and>
   fst (run_state (constructUKIURL imageLib onlineEnv sampleHTTPReconciler ''ghcr.io/org/os:1.0'')
     (startWorld ())) = Inr ''http://boot:5000/httpboot/ghcr.io/org/os/sha256-cd.efi''"
proof
  show "emits (constructUKIURL imageLib (onlineEnv :: unit env) sampleHTTPReconciler ''ghcr.io/org/os:1.0'')
     (httpImageServed imageLib sampleHTTPReconciler ''http://boot:5000'' sampleNamed)"
    by (intro http_images_served sample_reference) (simp add: sampleHTTPReconciler_def)
  show "fst (run_state (constructUKIURL imageLib onlineEnv sampleHTTPReconciler ''ghcr.io/org/os:1.0'')
     (startWorld ())) = Inr ''http://boot:5000/httpboot/ghcr.io/org/os/sha256-cd.efi''"
    by code_simp
qed

end
