(* ===== verification/GoMux.thy ===== *)
theory GoMux
  imports GoURL
begin

text \<open>
  The part of Go's \<open>path\<close> and \<open>net/http\<close> packages behind \<open>http.HandleFunc\<close>: \<open>path.Clean\<close> and
  the request multiplexer, for patterns of one segment with or without a trailing slash, which
  are the patterns the program registers. The main facts are that a cleaned path has no empty
  and no dot segment, and which request paths a registered pattern serves.
\<close>

section \<open>path.Clean\<close>

text \<open>The elements kept so far are on a stack, the last one first.\<close>

definition cleanStep :: "bool \<Rightarrow> string list \<Rightarrow> string \<Rightarrow> string list" where
  "cleanStep rooted stack seg =
     (if seg = [] \<or> seg = ''.'' then stack
      else if seg = ''..'' then
        (case stack of
           [] \<Rightarrow> if rooted then [] else [''..'']
         | s # stack' \<Rightarrow> if s = ''..'' then ''..'' # stack else stack')
      else seg # stack)"

definition cleanElems :: "bool \<Rightarrow> string \<Rightarrow> string list" where
  "cleanElems rooted p = rev (foldl (cleanStep rooted) [] (splitOn (CHR ''/'') p))"

definition pathClean :: "string \<Rightarrow> string" where
  "pathClean p =
     (if p = [] then ''.''
      else let rooted = hasPrefix p ''/''; elems = cleanElems rooted p
           in if rooted then CHR ''/'' # joinWith ''/'' elems
              else if elems = [] then ''.'' else joinWith ''/'' elems)"

text \<open>\<open>path.Join\<close> and \<open>filepath.Join\<close> on two elements: empty ones are ignored.\<close>

definition pathJoin :: "string \<Rightarrow> string \<Rightarrow> string" where
  "pathJoin a b =
     (if a = [] then (if b = [] then [] else pathClean b)
      else if b = [] then pathClean a else pathClean (a @ ''/'' @ b))"

definition plainSegment :: "string \<Rightarrow> bool" where
  "plainSegment s \<longleftrightarrow> s \<noteq> [] \<and> s \<noteq> ''.'' \<and> s \<noteq> ''..'' \<and> CHR ''/'' \<notin> set s"

lemma cleanStep_plain [simp]: "plainSegment s \<Longrightarrow> cleanStep rooted stack s = s # stack"
  by (simp add: cleanStep_def plainSegment_def)

lemma foldl_cleanStep_plain:
  "list_all plainSegment ss \<Longrightarrow> foldl (cleanStep rooted) stack ss = rev ss @ stack"
  by (induction ss arbitrary: stack) simp_all

lemma cleanStep_rooted:
  "list_all plainSegment stack \<Longrightarrow> CHR ''/'' \<notin> set seg \<Longrightarrow> list_all plainSegment (cleanStep True stack seg)"
  by (cases stack) (auto simp: cleanStep_def plainSegment_def)

lemma foldl_cleanStep_rooted:
  "list_all plainSegment stack \<Longrightarrow> list_all (\<lambda>s. CHR ''/'' \<notin> set s) ss \<Longrightarrow>
     list_all plainSegment (foldl (cleanStep True) stack ss)"
  by (induction ss arbitrary: stack) (simp_all add: cleanStep_rooted)

lemma cleanElems_rooted: "list_all plainSegment (cleanElems True p)"
proof -
  have "list_all (\<lambda>s. CHR ''/'' \<notin> set s) (splitOn (CHR ''/'') p)"
    using splitOn_no_sep_elem by (auto simp: list_all_iff)
  then show ?thesis by (simp add: cleanElems_def foldl_cleanStep_rooted)
qed

section \<open>The multiplexer\<close>

text \<open>\<open>cleanPath\<close> of \<open>net/http\<close> keeps a trailing slash.\<close>

definition cleanPath :: "string \<Rightarrow> string" where
  "cleanPath p =
     (if p = [] then ''/''
      else let p = (if hasPrefix p ''/'' then p else CHR ''/'' # p); np = pathClean p
           in if hasSuffix p ''/'' \<and> np \<noteq> ''/'' then np @ ''/'' else np)"

text \<open>
  The patterns \<open>/name\<close> (\<open>Exact\<close>) and \<open>/name/\<close> (\<open>Subtree\<close>); the path is the escaped path of
  the request, whose segments are compared after unescaping.
\<close>

datatype mux_pattern = Exact string | Subtree string

definition pathUnescape :: "string \<Rightarrow> string" where
  "pathUnescape s = (case queryUnescape (concat (map (\<lambda>c. if c = CHR ''+'' then ''%2B'' else [c]) s)) of
     Some t \<Rightarrow> t | None \<Rightarrow> s)"

text \<open>The first segment of a rooted path, and what follows its slash, if there is one.\<close>

definition firstSegment :: "string \<Rightarrow> string \<times> string option" where
  "firstSegment p = (case cut (trimPrefix p ''/'') (CHR ''/'') of (seg, rest, found) \<Rightarrow>
     (pathUnescape seg, if found then Some rest else None))"

fun patternMatches :: "mux_pattern \<Rightarrow> string \<Rightarrow> bool" where
  "patternMatches (Exact name) p \<longleftrightarrow> hasPrefix p ''/'' \<and> firstSegment p = (name, None)"
| "patternMatches (Subtree name) p \<longleftrightarrow> hasPrefix p ''/'' \<and> fst (firstSegment p) = name \<and> snd (firstSegment p) \<noteq> None"

datatype 'h mux_answer = RedirectTo string | Handle 'h | NotFound

definition muxFind :: "(mux_pattern \<times> 'h) list \<Rightarrow> string \<Rightarrow> 'h option" where
  "muxFind routes p = map_option snd (List.find (\<lambda>r. patternMatches (fst r) p) routes)"

text \<open>
  \<open>ServeMux.findHandler\<close>: the path is cleaned (but not for \<open>CONNECT\<close>), \<open>/tree\<close> is redirected to a
  registered \<open>/tree/\<close>, and an unclean path to its clean form.
\<close>

definition muxHandler :: "(mux_pattern \<times> 'h) list \<Rightarrow> string \<Rightarrow> string \<Rightarrow> 'h mux_answer" where
  "muxHandler routes meth escaped =
     (let p = (if meth = ''CONNECT'' then escaped else cleanPath escaped)
      in case muxFind routes p of
           None \<Rightarrow>
             if \<not> hasSuffix p ''/'' \<and> muxFind routes (p @ ''/'') \<noteq> None
               \<and> snd (firstSegment (p @ ''/'')) = Some []
             then RedirectTo (p @ ''/'')
             else if p \<noteq> escaped then RedirectTo p else NotFound
         | Some h \<Rightarrow> if p \<noteq> escaped then RedirectTo p else Handle h)"

section \<open>Clean paths\<close>

lemma hasSuffix_slash_iff: "hasSuffix s ''/'' \<longleftrightarrow> s \<noteq> [] \<and> last s = CHR ''/''"
  by (auto simp: hasSuffix_iff) (metis append_butlast_last_id)

lemma last_joinWith:
  "ss \<noteq> [] \<Longrightarrow> last ss \<noteq> [] \<Longrightarrow> joinWith sep ss \<noteq> [] \<and> last (joinWith sep ss) = last (last ss)"
proof (induction ss)
  case (Cons s ss)
  then show ?case by (cases "ss = []") (simp_all add: joinWith_Cons)
qed simp

lemma plain_last:
  assumes "ss \<noteq> []" "list_all plainSegment ss"
  shows "last ss \<noteq> []" "last (last ss) \<noteq> CHR ''/''"
proof -
  have "plainSegment (last ss)" using assms by (simp add: list_all_iff)
  then show "last ss \<noteq> []" "last (last ss) \<noteq> CHR ''/''"
    by (auto simp: plainSegment_def) (metis last_in_set)
qed

lemma splitOn_rooted:
  assumes "ss \<noteq> []" "list_all plainSegment ss"
  shows "splitOn (CHR ''/'') (CHR ''/'' # joinWith ''/'' ss) = [] # ss"
    and "splitOn (CHR ''/'') (CHR ''/'' # joinWith ''/'' ss @ ''/'') = [] # ss @ [[]]"
proof -
  have *: "splitOn (CHR ''/'') (joinWith ''/'' ss) = ss"
    using assms by (intro splitOn_joinWith) (auto simp: list_all_iff plainSegment_def)
  then show "splitOn (CHR ''/'') (CHR ''/'' # joinWith ''/'' ss) = [] # ss" by simp
  show "splitOn (CHR ''/'') (CHR ''/'' # joinWith ''/'' ss @ ''/'') = [] # ss @ [[]]"
    using splitOn_append_sep [of "CHR ''/''" "joinWith ''/'' ss" "[]"] by (simp add: *)
qed

lemma cleanStep_Nil [simp]: "cleanStep rooted stack [] = stack"
  by (simp add: cleanStep_def)

lemma cleanPath_plain:
  assumes "ss \<noteq> []" "list_all plainSegment ss"
  shows "cleanPath (CHR ''/'' # joinWith ''/'' ss) = CHR ''/'' # joinWith ''/'' ss"
    and "cleanPath (CHR ''/'' # joinWith ''/'' ss @ ''/'') = CHR ''/'' # joinWith ''/'' ss @ ''/''"
proof -
  have elems: "cleanElems True (CHR ''/'' # joinWith ''/'' ss) = ss"
    "cleanElems True (CHR ''/'' # joinWith ''/'' ss @ ''/'') = ss"
    unfolding cleanElems_def splitOn_rooted [OF assms] using assms(2)
    by (simp_all add: foldl_cleanStep_plain)
  have ne: "joinWith ''/'' ss \<noteq> []" "last (joinWith ''/'' ss) \<noteq> CHR ''/''"
    using last_joinWith [OF assms(1) plain_last(1) [OF assms]] plain_last(2) [OF assms] by auto
  have p: "hasPrefix (CHR ''/'' # s) ''/''" for s using hasPrefix_append [of "''/''" s] by simp
  show "cleanPath (CHR ''/'' # joinWith ''/'' ss) = CHR ''/'' # joinWith ''/'' ss"
    using elems(1) ne p by (simp add: cleanPath_def pathClean_def Let_def hasSuffix_slash_iff)
  show "cleanPath (CHR ''/'' # joinWith ''/'' ss @ ''/'') = CHR ''/'' # joinWith ''/'' ss @ ''/''"
    using elems(2) ne p by (simp add: cleanPath_def pathClean_def Let_def hasSuffix_slash_iff)
qed

lemma cleanPath_shape:
  obtains ss where "list_all plainSegment ss"
    "cleanPath p = CHR ''/'' # joinWith ''/'' ss \<or> cleanPath p = CHR ''/'' # joinWith ''/'' ss @ ''/''"
proof (cases "p = []")
  case True
  then show thesis using that [of "[]"] by (simp add: cleanPath_def)
next
  case False
  let ?p = "if hasPrefix p ''/'' then p else CHR ''/'' # p"
  have p: "hasPrefix ?p ''/''" "?p \<noteq> []" using False hasPrefix_append [of "''/''" p] by auto
  then have "pathClean ?p = CHR ''/'' # joinWith ''/'' (cleanElems True ?p)"
    by (simp only: pathClean_def Let_def if_True if_False)
  then show thesis
    using False that [OF cleanElems_rooted [of ?p]] by (simp add: cleanPath_def Let_def split: if_splits)
qed

text \<open>What a handler may rely on: a request that is not a \<open>CONNECT\<close> reaches it with a clean path.\<close>

lemma muxHandler_clean:
  assumes "muxHandler routes meth escaped = Handle h" "meth \<noteq> ''CONNECT''"
  obtains ss where "list_all plainSegment ss"
    "escaped = CHR ''/'' # joinWith ''/'' ss \<or> escaped = CHR ''/'' # joinWith ''/'' ss @ ''/''"
proof -
  have "cleanPath escaped = escaped"
    using assms by (auto simp: muxHandler_def Let_def split: option.splits if_splits)
  with that cleanPath_shape [of escaped] show thesis by metis
qed

lemma muxHandler_found:
  assumes "muxFind routes p = Some h" "cleanPath p = p"
  shows "muxHandler routes meth p = Handle h"
  using assms by (simp add: muxHandler_def)

text \<open>Unescaping leaves a segment without a percent sign alone.\<close>

lemma queryUnescape_plain: "CHR ''%'' \<notin> set s \<Longrightarrow> CHR ''+'' \<notin> set s \<Longrightarrow> queryUnescape s = Some s"
  by (induction s) auto

lemma queryUnescape_plus: "queryUnescape (''%2B'' @ s) = map_option ((#) (CHR ''+'')) (queryUnescape s)"
proof -
  have "char_of (43 :: nat) = CHR ''+''" by code_simp
  then show ?thesis by (simp add: unhex_def)
qed

lemma pathUnescape_plain:
  assumes "CHR ''%'' \<notin> set s"
  shows "pathUnescape s = s"
proof -
  have "queryUnescape (concat (map (\<lambda>c. if c = CHR ''+'' then ''%2B'' else [c]) s)) = Some s"
    using assms queryUnescape_plus by (induction s) auto
  then show ?thesis by (simp add: pathUnescape_def)
qed

end
