(* ===== verification/Servers.thy ===== *)
theory Servers
  imports EndToEnd GoMux
begin

text \<open>
  The two servers as a whole: \<open>RunBootServer\<close> of \<^verbatim>\<open>server/bootserver.go\<close> and
  \<open>RunImageProxyServer\<close> of \<^verbatim>\<open>server/imageproxyserver.go\<close> register their handlers with the
  default multiplexer of \<open>net/http\<close> and serve it on their two addresses, so that a request to
  either address is dispatched over the routes of both.
\<close>

section \<open>Routes and dispatch\<close>

datatype route = IPXERoute | HTTPBootRoute | IgnitionRoute | ImageRoute | HTTPBootImageRoute

definition bootServerRoutes :: "(mux_pattern \<times> route) list" where
  "bootServerRoutes =
     [(Subtree ''ipxe'', IPXERoute), (Exact ''httpboot'', HTTPBootRoute), (Subtree ''ignition'', IgnitionRoute)]"

definition imageProxyRoutes :: "(mux_pattern \<times> route) list" where
  "imageProxyRoutes = [(Exact ''image'', ImageRoute), (Subtree ''httpboot'', HTTPBootImageRoute)]"

definition defaultServeMux :: "(mux_pattern \<times> route) list" where
  "defaultServeMux = bootServerRoutes @ imageProxyRoutes"

record server_config =
  svIPXEServiceURL :: string
  svBoot :: boot_server_config
  svValidator :: validator

datatype served = Redirected string | Missing | Booted outcome | Imaged proxy_outcome

text \<open>One request; \<open>escaped\<close> is its escaped path, which the multiplexer looks at.\<close>

definition serveRequest ::
  "lib \<Rightarrow> 's env \<Rightarrow> server_config \<Rightarrow> string \<Rightarrow> http_request \<Rightarrow> ('s, 'z, served) proxy_io" where
  "serveRequest L E cfg escaped r =
     (case muxHandler defaultServeMux (reqMethod r) escaped of
        RedirectTo p \<Rightarrow> ret (Redirected p)
      | NotFound \<Rightarrow> ret Missing
      | Handle h \<Rightarrow>
          (case h of
             IPXERoute \<Rightarrow> do {
               out \<leftarrow> handleIPXE L E (urlPath (reqURL r)) (svIPXEServiceURL cfg);
               ret (Booted out) }
           | HTTPBootRoute \<Rightarrow> do {
               out \<leftarrow> handleHTTPBoot L E (svBoot cfg) (headerGet (reqHeader r) ''X-Forwarded-For'');
               ret (Booted out) }
           | IgnitionRoute \<Rightarrow> do {
               out \<leftarrow> ignitionRoute L E (urlPath (reqURL r));
               ret (Booted out) }
           | ImageRoute \<Rightarrow> do {
               out \<leftarrow> handleImage L E (svValidator cfg) r;
               ret (Imaged out) }
           | HTTPBootImageRoute \<Rightarrow> do {
               out \<leftarrow> handleHTTPBootImage L E (svValidator cfg) r;
               ret (Imaged out) }))"

section \<open>Dispatch\<close>

text \<open>The first segment of \<open>/seg/rest\<close> and of \<open>/seg\<close>.\<close>

lemma firstSegment_slash:
  assumes "CHR ''/'' \<notin> set seg" "CHR ''%'' \<notin> set seg"
  shows "firstSegment (CHR ''/'' # seg @ CHR ''/'' # rest) = (seg, Some rest)"
    and "firstSegment (CHR ''/'' # seg) = (seg, None)"
proof -
  have t: "trimPrefix (CHR ''/'' # s) ''/'' = s" for s using trimPrefix_append [of "''/''" s] by simp
  show "firstSegment (CHR ''/'' # seg @ CHR ''/'' # rest) = (seg, Some rest)"
    using assms by (simp add: firstSegment_def t pathUnescape_plain)
  show "firstSegment (CHR ''/'' # seg) = (seg, None)"
    using assms by (simp add: firstSegment_def t pathUnescape_plain)
qed

lemmas route_table = defaultServeMux_def bootServerRoutes_def imageProxyRoutes_def

lemma hasPrefix_slash [simp]: "hasPrefix (CHR ''/'' # s) ''/''"
  using hasPrefix_append [of "''/''" s] by simp

lemma muxFind_subtree:
  assumes "CHR ''/'' \<notin> set seg" "CHR ''%'' \<notin> set seg"
  shows "muxFind defaultServeMux (CHR ''/'' # seg @ CHR ''/'' # rest) =
    (if seg = ''ipxe'' then Some IPXERoute else if seg = ''ignition'' then Some IgnitionRoute
     else if seg = ''httpboot'' then Some HTTPBootImageRoute else None)"
  by (simp add: muxFind_def route_table firstSegment_slash [OF assms])

lemma muxFind_exact:
  assumes "CHR ''/'' \<notin> set seg" "CHR ''%'' \<notin> set seg"
  shows "muxFind defaultServeMux (CHR ''/'' # seg) =
    (if seg = ''httpboot'' then Some HTTPBootRoute else if seg = ''image'' then Some ImageRoute else None)"
  by (simp add: muxFind_def route_table firstSegment_slash [OF assms])

text \<open>A clean path below a first segment, with the segments \<open>ss\<close> after it.\<close>

lemma muxHandler_below:
  assumes "plainSegment seg" "CHR ''%'' \<notin> set seg" "ss \<noteq> []" "list_all plainSegment ss"
    and "muxFind defaultServeMux (CHR ''/'' # seg @ CHR ''/'' # joinWith ''/'' ss) = Some h"
  shows "muxHandler defaultServeMux meth (CHR ''/'' # seg @ CHR ''/'' # joinWith ''/'' ss) = Handle h"
proof -
  have "CHR ''/'' # seg @ CHR ''/'' # joinWith ''/'' ss = CHR ''/'' # joinWith ''/'' (seg # ss)"
    using assms(3) by (simp add: joinWith_Cons)
  with cleanPath_plain(1) [of "seg # ss"] assms(1,4)
  have "cleanPath (CHR ''/'' # seg @ CHR ''/'' # joinWith ''/'' ss) =
      CHR ''/'' # seg @ CHR ''/'' # joinWith ''/'' ss"
    by simp
  with assms(5) show ?thesis by (rule muxHandler_found)
qed

section \<open>What serving a request may do\<close>

text \<open>
  The calls that serving a request may make. Writes to the cluster: only status patches of boot
  resources that set one of the predefined conditions. Blob requests: only over HTTPS to a registry
  that the allow list admits. References are resolved only if there is a default image that the
  allow list of the boot server admits.
\<close>

fun servingCall :: "lib \<Rightarrow> server_config \<Rightarrow> event \<Rightarrow> bool" where
  "servingCall L cfg (EPatchHTTPStatus b x _) \<longleftrightarrow>
     (\<exists>t c now. predefinedConditions t = Some c \<and>
        x = b\<lparr>httpStatus := (httpStatus b)\<lparr>httpConditions :=
          updateCondition now (httpConditions (httpStatus b)) c\<rparr>\<rparr>)"
| "servingCall L cfg (EPatchIPXEStatus b x _) \<longleftrightarrow>
     (\<exists>t c now. predefinedConditions t = Some c \<and>
        x = b\<lparr>ipxeStatus := (ipxeStatus b)\<lparr>ipxeConditions :=
          updateCondition now (ipxeConditions (ipxeStatus b)) c\<rparr>\<rparr>)"
| "servingCall L cfg (ERoundTrip q _) \<longleftrightarrow>
     urlScheme (reqURL q) = ''https'' \<and> IsRegistryAllowed (svValidator cfg) (urlHost (reqURL q))"
| "servingCall L cfg (EResolve i _) \<longleftrightarrow> bsDefaultOCIImage (svBoot cfg) \<noteq> [] \<and>
     admittedBy L (bsRegistryValidator (svBoot cfg)) (bsDefaultOCIImage (svBoot cfg))"
| "servingCall L cfg e \<longleftrightarrow> \<not> isWrite e"

named_theorems serving_rules \<open>programs whose calls are all serving calls\<close>

lemma onlyEmits_ret [serving_rules]: "onlyEmits (ret x) P"
  by (simp add: emits_ret)

lemma onlyEmits_bind [serving_rules]:
  assumes "onlyEmits m P" "\<And>a. onlyEmits (f a) P"
  shows "onlyEmits (State_Monad.bind m f) P"
  by (intro emits_bind emits_conseq [OF assms(1)] emits_conseq [OF assms(2)]) simp

lemma onlyEmits_ext_call [serving_rules]: "(\<And>r. P (ev r)) \<Longrightarrow> onlyEmits (ext_call f ev) P"
  by (simp add: emits_ext_call)

lemmas [serving_rules] = emits_if emits_sum emits_option emits_list emits_prod emits_let

lemma serving_cache [serving_rules]:
  "onlyEmits (readCache k) P" "onlyEmits (writeCache now k i) P"
  by (simp_all add: emits_readCache emits_writeCache)

lemma serving_auth [serving_rules]:
  "onlyEmits m P \<Longrightarrow> onlyEmits n P \<Longrightarrow>
     onlyEmits (case a of AuthNone \<Rightarrow> m | AuthBearer \<Rightarrow> n) P"
  by (cases a) simp_all

lemma serving_resolveServer [serving_rules]: "onlyEmits (resolveServer E owners) (servingCall L cfg)"
proof -
  have "onlyEmits (resolveServerLoop E n owners) (servingCall L cfg)" for n
    by (induction owners) (auto intro!: serving_rules)
  then show ?thesis by (simp add: resolveServer_def)
qed

lemma serving_selectBootConfig [serving_rules]: "onlyEmits (selectBootConfig L E g items) (servingCall L cfg)"
  unfolding selectBootConfig_def preferredBootConfigIndex_def Let_def
  by (intro serving_rules; simp)

lemma serving_SetStatusCondition [serving_rules]: "onlyEmits (SetStatusCondition E obj t) (servingCall L cfg)"
  unfolding SetStatusCondition_def
  by (cases obj; cases "predefinedConditions t") (auto intro!: serving_rules, blast+)

lemma serving_write [serving_rules]: "onlyEmits (rwWrite E c w) (servingCall L cfg)"
  unfolding rwWrite_def Let_def by (intro serving_rules; simp)

lemma serving_templates [serving_rules]:
  "onlyEmits (serveDefaultIPXETemplate E d w) (servingCall L cfg)"
  "onlyEmits (serveDefaultIPXEChainTemplate E d w) (servingCall L cfg)"
  unfolding serveDefaultIPXETemplate_def serveDefaultIPXEChainTemplate_def
  by (intro serving_rules; simp)+

lemma serving_handleIPXE [serving_rules]: "onlyEmits (handleIPXE L E p u) (servingCall L cfg)"
  unfolding handleIPXE_def Let_def by (intro serving_rules; simp)

lemma serving_serveIgnition [serving_rules]: "onlyEmits (serveIgnition L E g s t items w) (servingCall L cfg)"
  unfolding serveIgnition_def fetchIgnitionData_def by (intro serving_rules; simp)

lemma serving_ignition [serving_rules]:
  "onlyEmits (handleIgnitionIPXEBoot L E uuid) (servingCall L cfg)"
  "onlyEmits (handleIgnitionHTTPBoot L E uuid) (servingCall L cfg)"
  "onlyEmits (ignitionRoute L E p) (servingCall L cfg)"
proof -
  show i: "onlyEmits (handleIgnitionIPXEBoot L E uuid) (servingCall L cfg)"
    and h: "onlyEmits (handleIgnitionHTTPBoot L E uuid) (servingCall L cfg)" for uuid
    unfolding handleIgnitionIPXEBoot_def handleIgnitionHTTPBoot_def Let_def
    by (intro serving_rules; simp)+
  show "onlyEmits (ignitionRoute L E p) (servingCall L cfg)"
    unfolding ignitionRoute_def Let_def by (intro serving_rules i h; simp)
qed

lemma serving_manifest [serving_rules]: "onlyEmits (FindManifestByArchitecture L E n d a opts) (servingCall L cfg)"
  unfolding FindManifestByArchitecture_def FetchContent_def Let_def by (intro serving_rules; simp)

lemma serving_lookupByIPs [serving_rules]: "onlyEmits (lookupByIPs E ips) (servingCall L cfg)"
  by (induction ips) (auto intro!: serving_rules)

lemma serving_defaultUKI [serving_rules]: "onlyEmits (defaultUKI L E (svBoot cfg)) (servingCall L cfg)"
  unfolding defaultUKI_def ConstructUKIURLFromOCI_def getUKIDigestFromNestedManifest_def Let_def
  by (intro serving_rules; simp add: admittedBy_def split: option.splits)

lemma serving_handleHTTPBoot [serving_rules]:
  "onlyEmits (handleHTTPBoot L E (svBoot cfg) xff) (servingCall L cfg)"
  unfolding handleHTTPBoot_def Let_def by (intro serving_rules; simp)

lemma serving_getOrDetectRegistry [serving_rules]:
  "onlyEmits (getOrDetectRegistry E d r) (servingCall L cfg)"
  unfolding getOrDetectRegistry_def detectAndCache_def detectRegistryAuth_def
  by (intro serving_rules; simp)

lemma serving_getBearerToken [serving_rules]: "onlyEmits (getBearerToken L' E u) (servingCall L cfg)"
  unfolding getBearerToken_def by (intro serving_rules; simp)

lemma serving_proxyServeHTTP:
  "servingCall L cfg (ERoundTrip (outgoingRequest req (dir req)) (Inl [])) \<Longrightarrow>
     onlyEmits (proxyServeHTTP L' E dir req) (servingCall L cfg)"
  unfolding proxyServeHTTP_def modifyResponse_def Let_def by (intro serving_rules; simp)

lemma serving_handleDockerRegistry [serving_rules]:
  "onlyEmits (handleDockerRegistry L' E r d (svValidator cfg)) (servingCall L cfg)"
  unfolding handleDockerRegistry_def Let_def
  by (intro serving_rules serving_proxyServeHTTP;
      simp add: director_def)

lemma serving_images [serving_rules]:
  "onlyEmits (handleImage L' E (svValidator cfg) r) (servingCall L cfg)"
  "onlyEmits (handleHTTPBootImage L' E (svValidator cfg) r) (servingCall L cfg)"
  unfolding handleImage_def handleHTTPBootImage_def by (intro serving_rules; simp)+

lemma serving_serveRequest: "onlyEmits (serveRequest L E cfg escaped r) (servingCall L cfg)"
proof (cases "muxHandler defaultServeMux (reqMethod r) escaped")
  case (Handle h)
  then show ?thesis by (cases h) (auto simp: serveRequest_def intro!: serving_rules)
qed (simp_all add: serveRequest_def serving_rules)

section \<open>Properties\<close>

text \<open>C17: Whatever the request, to either of the two servers: serving it writes to the cluster nothing
  but the two predefined conditions of boot resources, sends blob requests only over HTTPS to registries of the
  allow list, and resolves an image reference only if a default image is configured that the
  allow list admits.\<close>

theorem serve_safe:
  "emits (serveRequest L E cfg escaped r) (\<lambda>_ es. list_all (servingCall L cfg) es)"
  by (rule serving_serveRequest)

text \<open>The path of a UKI URL, from the base URL on.\<close>

definition ukiNames :: "string list \<Rightarrow> string \<Rightarrow> string list" where
  "ukiNames names digest = names @ [''sha256-'' @ trimPrefix digest ''sha256:'' @ ''.efi'']"

lemma plainSegment_uki:
  "CHR ''/'' \<notin> set digest \<Longrightarrow> plainSegment (''sha256-'' @ trimPrefix digest ''sha256:'' @ ''.efi'')"
  using set_trimPrefix [of digest "''sha256:''"] by (auto simp: plainSegment_def)

lemma joinWith_snoc: "ss \<noteq> [] \<Longrightarrow> joinWith sep (ss @ [s]) = joinWith sep ss @ sep @ s"
proof (induction ss)
  case (Cons t ss)
  then show ?case by (cases "ss = []") (simp_all add: joinWith_Cons)
qed simp

lemma ukiFileURL_path:
  "names \<noteq> [] \<Longrightarrow> ukiFileURL ''/httpboot'' (joinWith ''/'' names) digest =
     CHR ''/'' # ''httpboot'' @ CHR ''/'' # joinWith ''/'' (ukiNames names digest)"
  by (simp add: ukiFileURL_def ukiNames_def joinWith_snoc)

text \<open>C29: The paths that the system hands out reach their handlers: image URLs, the UKI URLs of an
  image whose name has no empty or dot segment, the iPXE script and ignition of a UUID, the iPXE
  chain loader, and the HTTP boot endpoint, which \<open>/httpboot/\<close> does not shadow.\<close>

theorem urls_routed:
  assumes "plainSegment uuid" "names \<noteq> []" "list_all plainSegment names" "CHR ''/'' \<notin> set digest"
  shows "muxHandler defaultServeMux meth ''/image'' = Handle ImageRoute \<and>
    muxHandler defaultServeMux meth (ukiFileURL ''/httpboot'' (joinWith ''/'' names) digest) =
      Handle HTTPBootImageRoute \<and>
    muxHandler defaultServeMux meth (''/ipxe/'' @ uuid) = Handle IPXERoute \<and>
    muxHandler defaultServeMux meth ''/ipxe/'' = Handle IPXERoute \<and>
    muxHandler defaultServeMux meth (''/ignition/'' @ uuid) = Handle IgnitionRoute \<and>
    muxHandler defaultServeMux meth ''/httpboot'' = Handle HTTPBootRoute \<and>
    muxHandler defaultServeMux meth ''/ipxe'' = RedirectTo ''/ipxe/''"
proof (intro conjI)
  have uki: "list_all plainSegment (ukiNames names digest)" "ukiNames names digest \<noteq> []"
    using assms(3) plainSegment_uki [OF assms(4)] by (simp_all add: ukiNames_def)
  show "muxHandler defaultServeMux meth (ukiFileURL ''/httpboot'' (joinWith ''/'' names) digest) =
      Handle HTTPBootImageRoute"
    unfolding ukiFileURL_path [OF assms(2)] using uki muxFind_subtree [of "''httpboot''"]
    by (intro muxHandler_below) (simp_all add: plainSegment_def)
  show "muxHandler defaultServeMux meth (''/ipxe/'' @ uuid) = Handle IPXERoute"
    using muxHandler_below [of "''ipxe''" "[uuid]"] muxFind_subtree [of "''ipxe''"] assms(1)
    by (simp add: plainSegment_def)
  show "muxHandler defaultServeMux meth (''/ignition/'' @ uuid) = Handle IgnitionRoute"
    using muxHandler_below [of "''ignition''" "[uuid]"] muxFind_subtree [of "''ignition''"] assms(1)
    by (simp add: plainSegment_def)
  show "muxHandler defaultServeMux meth ''/image'' = Handle ImageRoute"
    using muxFind_exact [of "''image''"] cleanPath_plain(1) [of "[''image'']"]
    by (intro muxHandler_found) (simp_all add: plainSegment_def)
  show "muxHandler defaultServeMux meth ''/httpboot'' = Handle HTTPBootRoute"
    using muxFind_exact [of "''httpboot''"] cleanPath_plain(1) [of "[''httpboot'']"]
    by (intro muxHandler_found) (simp_all add: plainSegment_def)
  show "muxHandler defaultServeMux meth ''/ipxe/'' = Handle IPXERoute"
    using muxFind_subtree [of "''ipxe''" "[]"] cleanPath_plain(2) [of "[''ipxe'']"]
    by (intro muxHandler_found) (simp_all add: plainSegment_def)
  show "muxHandler defaultServeMux meth ''/ipxe'' = RedirectTo ''/ipxe/''"
    using muxFind_exact [of "''ipxe''"] muxFind_subtree [of "''ipxe''" "[]"]
      cleanPath_plain(1) [of "[''ipxe'']"] firstSegment_slash(1) [of "''ipxe''" "[]"]
    by (simp add: muxHandler_def plainSegment_def hasSuffix_slash_iff)
qed

lemma urls_routed_witness:
  "muxHandler defaultServeMux ''GET'' ''/httpboot/ghcr.io/org/os/sha256-cd.efi'' = Handle HTTPBootImageRoute \<and>
   muxHandler defaultServeMux ''GET'' ''/ignition/1f-2e'' = Handle IgnitionRoute"
  using urls_routed [of "''1f-2e''" "[''ghcr.io'', ''org'', ''os'']" "''sha256:cd''" "''GET''"]
    trimPrefix_append [of "''sha256:''" "''cd''"]
  by (simp add: plainSegment_def ukiFileURL_def)

end
