(* ===== verification/Startup.thy ===== *)
theory Startup
  imports Servers
begin

text \<open>
  The start of the operator, \<^verbatim>\<open>cmd/main.go\<close>: the flags, the service URL, the steps that set up
  the manager, the enabled controllers, the checks and the field indexes, and the start of the
  two servers and the manager. Every step may fail, and then the process exits; the servers are
  started in goroutines of their own, and the error of a server is a panic there, which ends the
  process at whatever point \<open>main\<close> has reached.
\<close>

section \<open>Flags\<close>

definition ipxeBootConfigController :: string where "ipxeBootConfigController = ''ipxebootconfig''"
definition serverBootConfigControllerPxe :: string where
  "serverBootConfigControllerPxe = ''serverbootconfigpxe''"
definition httpBootConfigController :: string where "httpBootConfigController = ''httpbootconfig''"
definition serverBootConfigControllerHttp :: string where
  "serverBootConfigControllerHttp = ''serverbootconfighttp''"

record flags =
  flArchitecture :: string
  flIPXEServicePort :: int
  flIPXEServiceProtocol :: string
  flIPXEServiceURL :: string
  flImageServerURL :: string
  flDefaultHTTPBootOCIImage :: string
  flDefaultHTTPBootUKIURL :: string
  flMetricsAddr :: string
  flProbeAddr :: string
  flBootserverAddr :: string
  flImageProxyServerAddr :: string
  flEnableLeaderElection :: bool
  flMetricsCertPath :: string
  flMetricsCertName :: string
  flMetricsCertKey :: string
  flSecureMetrics :: bool
  flEnableHTTP2 :: bool
  flAllowedRegistries :: string

text \<open>The values of the flags that the command line does not set.\<close>

definition defaultFlags :: flags where
  "defaultFlags =
    \<lparr>flArchitecture = ''amd64'', flIPXEServicePort = 5000, flIPXEServiceProtocol = ''http'',
     flIPXEServiceURL = [], flImageServerURL = [], flDefaultHTTPBootOCIImage = [],
     flDefaultHTTPBootUKIURL = [], flMetricsAddr = '':8080'', flProbeAddr = '':8081'',
     flBootserverAddr = '':8082'', flImageProxyServerAddr = '':8083'',
     flEnableLeaderElection = False, flMetricsCertPath = [], flMetricsCertName = ''tls.crt'',
     flMetricsCertKey = ''tls.key'', flSecureMetrics = True, flEnableHTTP2 = False,
     flAllowedRegistries = []\<rparr>"

text \<open>
  The service URL: \<open>None\<close> where the process exits because no address is given. \<open>enabled\<close> is the
  outcome of the \<open>--controllers\<close> switches, \<open>addr\<close> the variable \<open>IPXE_SERVER_ADDRESS\<close>.
\<close>

definition serviceURL :: "(string \<Rightarrow> bool) \<Rightarrow> string \<Rightarrow> flags \<Rightarrow> string option" where
  "serviceURL enabled addr f =
     (if enabled ipxeBootConfigController \<or> enabled serverBootConfigControllerPxe then
        (if flIPXEServiceURL f = [] then
           (if addr = [] then None
            else Some (flIPXEServiceProtocol f @ ''://'' @ addr @ '':'' @ itoaInt (flIPXEServicePort f)))
         else Some (flIPXEServiceURL f))
      else Some (flIPXEServiceURL f))"

section \<open>Field indexes\<close>

text \<open>The values under which an object is found by \<open>MatchingFields\<close>.\<close>

definition IndexIPXEBootConfigBySystemUUID :: "ipxe_boot_config \<Rightarrow> string list" where
  "IndexIPXEBootConfigBySystemUUID c = [ipxeSystemUUID (ipxeSpec c)]"
definition IndexIPXEBootConfigBySystemIPs :: "ipxe_boot_config \<Rightarrow> string list" where
  "IndexIPXEBootConfigBySystemIPs c = ipxeSystemIPs (ipxeSpec c)"
definition IndexHTTPBootConfigBySystemUUID :: "http_boot_config \<Rightarrow> string list" where
  "IndexHTTPBootConfigBySystemUUID c = [httpSystemUUID (httpSpec c)]"
definition IndexHTTPBootConfigByNetworkIDs :: "http_boot_config \<Rightarrow> string list" where
  "IndexHTTPBootConfigByNetworkIDs c = httpNetworkIdentifiers (httpSpec c)"

datatype field_index =
    IPXEIndex string "ipxe_boot_config \<Rightarrow> string list"
  | HTTPIndex string "http_boot_config \<Rightarrow> string list"

definition fieldIndexes :: "field_index list" where
  "fieldIndexes =
     [IPXEIndex SystemUUIDIndexKey IndexIPXEBootConfigBySystemUUID,
      HTTPIndex SystemUUIDIndexKey IndexHTTPBootConfigBySystemUUID,
      IPXEIndex SystemIPIndexKey IndexIPXEBootConfigBySystemIPs,
      HTTPIndex NetworkIdentifierIndexKey IndexHTTPBootConfigByNetworkIDs]"

section \<open>The steps of main\<close>

record manager_options =
  moMetricsBindAddress :: string
  moSecureServing :: bool
  moAuthFilter :: bool
  moDisableHTTP2 :: bool
  moWatchedCertificate :: bool
  moHealthProbeBindAddress :: string
  moLeaderElection :: bool

definition managerOptions :: "flags \<Rightarrow> manager_options" where
  "managerOptions f =
    \<lparr>moMetricsBindAddress = flMetricsAddr f, moSecureServing = flSecureMetrics f,
     moAuthFilter = flSecureMetrics f, moDisableHTTP2 = (\<not> flEnableHTTP2 f),
     moWatchedCertificate = (flMetricsCertPath f \<noteq> []), moHealthProbeBindAddress = flProbeAddr f,
     moLeaderElection = flEnableLeaderElection f\<rparr>"

datatype startup_step =
    NewCertWatcher string string
  | NewManager manager_options
  | SetupIPXEBootConfig
  | SetupServerBootConfigPXE pxe_reconciler
  | SetupServerBootConfigHTTP http_reconciler
  | SetupHTTPBootConfig
  | AddHealthzCheck
  | AddReadyzCheck
  | IndexField field_index
  | RunBootServer string server_config
  | RunImageProxyServer string validator
  | StartManager

definition serverConfig :: "flags \<Rightarrow> string \<Rightarrow> server_config" where
  "serverConfig f url =
    \<lparr>svIPXEServiceURL = url,
     svBoot = \<lparr>bsRegistryValidator = Some (NewValidator (flAllowedRegistries f)),
       bsDefaultOCIImage = flDefaultHTTPBootOCIImage f, bsDefaultUKIURL = flDefaultHTTPBootUKIURL f,
       bsImageServerURL = flImageServerURL f, bsArchitecture = flArchitecture f\<rparr>,
     svValidator = NewValidator (flAllowedRegistries f)\<rparr>"

text \<open>The steps before the servers, each of which ends the process when it fails.\<close>

definition setupSteps :: "(string \<Rightarrow> bool) \<Rightarrow> flags \<Rightarrow> string \<Rightarrow> startup_step list" where
  "setupSteps enabled f url =
     (let v = NewValidator (flAllowedRegistries f) in
      (if flMetricsCertPath f \<noteq> [] then
         [NewCertWatcher (pathJoin (flMetricsCertPath f) (flMetricsCertName f))
            (pathJoin (flMetricsCertPath f) (flMetricsCertKey f))] else []) @
      [NewManager (managerOptions f)] @
      (if enabled ipxeBootConfigController then [SetupIPXEBootConfig] else []) @
      (if enabled serverBootConfigControllerPxe then
         [SetupServerBootConfigPXE \<lparr>pxeIPXEServiceURL = url, pxeArchitecture = flArchitecture f,
            pxeRegistryValidator = v\<rparr>] else []) @
      (if enabled serverBootConfigControllerHttp then
         [SetupServerBootConfigHTTP \<lparr>hrImageServerURL = flImageServerURL f,
            hrArchitecture = flArchitecture f, hrRegistryValidator = v\<rparr>] else []) @
      (if enabled httpBootConfigController then [SetupHTTPBootConfig] else []) @
      [AddHealthzCheck, AddReadyzCheck] @ map IndexField fieldIndexes)"

definition startupSteps :: "(string \<Rightarrow> bool) \<Rightarrow> flags \<Rightarrow> string \<Rightarrow> startup_step list" where
  "startupSteps enabled f url = setupSteps enabled f url @
     [RunBootServer (flBootserverAddr f) (serverConfig f url),
      RunImageProxyServer (flImageProxyServerAddr f) (NewValidator (flAllowedRegistries f)),
      StartManager]"

fun isGoroutine :: "startup_step \<Rightarrow> bool" where
  "isGoroutine (RunBootServer _ _) = True"
| "isGoroutine (RunImageProxyServer _ _) = True"
| "isGoroutine _ = False"

datatype main_result =
    NoServiceURL
  | ExitedAt startup_step
  | Panicked startup_step
  | Stopped

text \<open>
  What decides the fate of a run: which steps of \<open>main\<close> return an error, and by which time a
  goroutine has panicked, given as the steps that \<open>main\<close> has taken by then.
\<close>

record fate =
  ftFails :: "startup_step \<Rightarrow> bool"
  ftPanics :: "startup_step list \<Rightarrow> startup_step \<Rightarrow> bool"

definition panicked :: "fate \<Rightarrow> startup_step list \<Rightarrow> startup_step option" where
  "panicked R taken = List.find (\<lambda>g. isGoroutine g \<and> ftPanics R taken g) taken"

text \<open>The steps taken, and how the process ended; the process may panic before each step and
  during the last one.\<close>

primrec runSteps ::
  "fate \<Rightarrow> startup_step list \<Rightarrow> startup_step list \<Rightarrow> startup_step list \<times> main_result" where
  "runSteps R taken [] =
     (taken, case panicked R taken of Some g \<Rightarrow> Panicked g | None \<Rightarrow> Stopped)"
| "runSteps R taken (s # ss) =
     (case panicked R taken of
        Some g \<Rightarrow> (taken, Panicked g)
      | None \<Rightarrow>
          if \<not> isGoroutine s \<and> ftFails R s then (taken @ [s], ExitedAt s)
          else runSteps R (taken @ [s]) ss)"

definition main ::
  "fate \<Rightarrow> (string \<Rightarrow> bool) \<Rightarrow> string \<Rightarrow> flags \<Rightarrow> startup_step list \<times> main_result" where
  "main R enabled addr f =
     (case serviceURL enabled addr f of
        None \<Rightarrow> ([], NoServiceURL)
      | Some url \<Rightarrow> runSteps R [] (startupSteps enabled f url))"

section \<open>Runs of steps\<close>

lemma panicked_None: "list_all (\<lambda>s. \<not> isGoroutine s) taken \<Longrightarrow> panicked R taken = None"
  by (auto simp: panicked_def find_None_iff list_all_iff)

lemma panicked_Some: "panicked R taken = Some g \<Longrightarrow> g \<in> set taken \<and> isGoroutine g"
  by (auto simp: panicked_def dest: find_SomeD)

lemma setupSteps_no_goroutine: "s \<in> set (setupSteps enabled f url) \<Longrightarrow> \<not> isGoroutine s"
  by (auto simp: setupSteps_def Let_def split: if_splits)

text \<open>Steps without goroutines are taken up to the first that fails.\<close>

lemma runSteps_setup:
  assumes "list_all (\<lambda>s. \<not> isGoroutine s) (taken @ before)"
  shows "runSteps R taken (before @ ss) =
     (if list_all (\<lambda>s. \<not> ftFails R s) before then runSteps R (taken @ before) ss
      else runSteps R taken before)"
  using assms by (induction before arbitrary: taken) (auto simp: panicked_None)

lemma runSteps_setup_only:
  "list_all (\<lambda>s. \<not> isGoroutine s) (taken @ before) \<Longrightarrow>
     list_all (\<lambda>s. \<not> isGoroutine s) (fst (runSteps R taken before))"
  by (induction before arbitrary: taken) (auto simp: panicked_None)

text \<open>The steps that \<open>main\<close> takes after the setup: all of them, unless a server panics.\<close>

definition serving :: "flags \<Rightarrow> string \<Rightarrow> startup_step list" where
  "serving f url = [RunBootServer (flBootserverAddr f) (serverConfig f url),
     RunImageProxyServer (flImageProxyServerAddr f) (NewValidator (flAllowedRegistries f)),
     StartManager]"

lemma runSteps_serving:
  assumes "list_all (\<lambda>s. \<not> isGoroutine s) before"
  shows "\<exists>n. fst (runSteps R before (serving f url)) = before @ take n (serving f url) \<and> 1 \<le> n \<and>
     (n = 3 \<or> (\<exists>g. snd (runSteps R before (serving f url)) = Panicked g \<and>
        g \<in> set (take n (serving f url)) \<and> isGoroutine g))"
proof -
  let ?a = "RunBootServer (flBootserverAddr f) (serverConfig f url)"
  let ?b = "RunImageProxyServer (flImageProxyServerAddr f) (NewValidator (flAllowedRegistries f))"
  have none: "panicked R before = None" using assms by (rule panicked_None)
  have in1: "g = ?a" if "panicked R (before @ [?a]) = Some g" for g
    using panicked_Some [OF that] assms by (auto simp: list_all_iff)
  have in2: "g \<in> {?a, ?b}" if "panicked R (before @ [?a, ?b]) = Some g" for g
    using panicked_Some [OF that] assms by (auto simp: list_all_iff)
  show ?thesis
  proof (cases "panicked R (before @ [?a])")
    case (Some g)
    then show ?thesis by (intro exI [of _ 1]) (simp add: serving_def none in1 [OF Some])
  next
    case 1: None
    show ?thesis
    proof (cases "panicked R (before @ [?a, ?b])")
      case (Some g)
      with 1 in2 [OF Some] show ?thesis
        by (intro exI [of _ 2]) (auto simp: serving_def none)
    next
      case None
      with 1 show ?thesis by (intro exI [of _ 3]) (simp add: serving_def none)
    qed
  qed
qed

text \<open>A server is started only after every setup step has succeeded.\<close>

lemma main_serving:
  assumes "main R enabled addr f = (steps, res)" "\<exists>s\<in>set steps. isGoroutine s"
  obtains url n where "serviceURL enabled addr f = Some url"
    "steps = setupSteps enabled f url @ take n (serving f url)" "1 \<le> n"
    "list_all (\<lambda>s. \<not> ftFails R s) (setupSteps enabled f url)"
    "n = 3 \<or> (\<exists>g. res = Panicked g \<and> g \<in> set (take n (serving f url)) \<and> isGoroutine g)"
proof (cases "serviceURL enabled addr f")
  case None
  then show thesis using assms by (auto simp: main_def)
next
  case (Some url)
  let ?before = "setupSteps enabled f url"
  have quiet: "list_all (\<lambda>s. \<not> isGoroutine s) ?before"
    using setupSteps_no_goroutine by (auto simp: list_all_iff)
  have run: "runSteps R [] (?before @ serving f url) = (steps, res)"
    using assms(1) Some by (simp add: main_def startupSteps_def serving_def)
  have ok: "list_all (\<lambda>s. \<not> ftFails R s) ?before"
  proof (rule ccontr)
    assume "\<not> ?thesis"
    then have "steps = fst (runSteps R [] ?before)"
      using run quiet by (simp add: runSteps_setup split: if_splits)
    then show False
      using assms(2) runSteps_setup_only [of "[]" ?before R] quiet by (auto simp: list_all_iff)
  qed
  then have "runSteps R ?before (serving f url) = (steps, res)"
    using run quiet by (simp add: runSteps_setup split: if_splits)
  with runSteps_serving [OF quiet, of R f url] that [OF Some _ _ ok] show thesis by auto
qed

lemma serviceURL_not_Nil:
  "serviceURL enabled addr f = Some url \<Longrightarrow>
     enabled ipxeBootConfigController \<or> enabled serverBootConfigControllerPxe \<Longrightarrow> url \<noteq> []"
  by (auto simp: serviceURL_def split: if_splits)

section \<open>Properties\<close>

text \<open>The four indexes that the lookups by \<open>MatchingFields\<close> need, with what each extracts.\<close>

lemma fieldIndexes_set:
  "set fieldIndexes =
    {IPXEIndex ''spec.systemUUID'' (\<lambda>c. [ipxeSystemUUID (ipxeSpec c)]),
     IPXEIndex ''spec.systemIPs'' (\<lambda>c. ipxeSystemIPs (ipxeSpec c)),
     HTTPIndex ''spec.systemUUID'' (\<lambda>c. [httpSystemUUID (httpSpec c)]),
     HTTPIndex ''spec.networkIdentifiers'' (\<lambda>c. httpNetworkIdentifiers (httpSpec c))}"
proof -
  have "IndexIPXEBootConfigBySystemUUID = (\<lambda>c. [ipxeSystemUUID (ipxeSpec c)])"
    "IndexIPXEBootConfigBySystemIPs = (\<lambda>c. ipxeSystemIPs (ipxeSpec c))"
    "IndexHTTPBootConfigBySystemUUID = (\<lambda>c. [httpSystemUUID (httpSpec c)])"
    "IndexHTTPBootConfigByNetworkIDs = (\<lambda>c. httpNetworkIdentifiers (httpSpec c))"
    by (auto simp: IndexIPXEBootConfigBySystemUUID_def IndexIPXEBootConfigBySystemIPs_def
        IndexHTTPBootConfigBySystemUUID_def IndexHTTPBootConfigByNetworkIDs_def)
  then show ?thesis
    by (auto simp: fieldIndexes_def SystemUUIDIndexKey_def SystemIPIndexKey_def
        NetworkIdentifierIndexKey_def)
qed


definition quietFate :: fate where
  "quietFate = \<lparr>ftFails = \<lambda>_. False, ftPanics = \<lambda>_ _. False\<rparr>"


end
