(* ===== verification/WorkQueue.thy ===== *)
theory WorkQueue
  imports World
begin

text \<open>
  The work queue of controller-runtime: pending requests are run one after the other, and the
  changes that a run makes put further requests on the queue. The locale \<open>work_queue\<close> says what a
  set of controllers must guarantee for the queue to reach a goal, and proves that it does within
  a bound; nothing in it is about this program.
\<close>

section \<open>Runs over a view\<close>

text \<open>
  Weakest preconditions over a view \<open>V\<close> of the environment's state: from every world with the view
  \<open>c\<close> the program ends with a result and a view that satisfy \<open>Q\<close>.
\<close>

definition reaches ::
  "('s \<Rightarrow> 'c) \<Rightarrow> ('s, 'z, 'a) io \<Rightarrow> 'c \<Rightarrow> ('a \<Rightarrow> 'c \<Rightarrow> bool) \<Rightarrow> bool" where
  "reaches V m c Q \<longleftrightarrow>
     (\<forall>w. V (ext w) = c \<longrightarrow> Q (fst (run_state m w)) (V (ext (snd (run_state m w)))))"

lemma reaches_run:
  "reaches V m c Q \<Longrightarrow> V (ext w) = c \<Longrightarrow> Q (fst (run_state m w)) (V (ext (snd (run_state m w))))"
  unfolding reaches_def by blast

lemma reaches_conseq: "reaches V m c Q \<Longrightarrow> (\<And>a c'. Q a c' \<Longrightarrow> R a c') \<Longrightarrow> reaches V m c R"
  unfolding reaches_def by blast

lemma reaches_conj:
  "reaches V m c Q \<Longrightarrow> reaches V m c R \<Longrightarrow> reaches V m c (\<lambda>a c'. Q a c' \<and> R a c')"
  unfolding reaches_def by blast

lemma reaches_ret: "Q a c \<Longrightarrow> reaches V (ret a) c Q"
  by (simp add: reaches_def)

lemma reaches_bind:
  "reaches V m c (\<lambda>a c'. reaches V (f a) c' Q) \<Longrightarrow> reaches V (State_Monad.bind m f) c Q"
  unfolding reaches_def by (simp add: split_beta)

lemma reaches_call:
  "(\<And>s. V s = c \<Longrightarrow> Q (fst (f s)) (V (snd (f s)))) \<Longrightarrow> reaches V (ext_call f ev) c Q"
  by (simp add: reaches_def)

section \<open>The loop\<close>

text \<open>
  The queue holds each request at most once and is processed first in, first out. \<open>woken c c'\<close> are
  the requests that a change of the view from \<open>c\<close> to \<open>c'\<close> makes.
\<close>

definition enqueue :: "'k list \<Rightarrow> 'k list \<Rightarrow> 'k list" where
  "enqueue queue new = queue @ filter (\<lambda>k. k \<notin> set queue) new"

definition processNext ::
  "('s \<Rightarrow> 'c) \<Rightarrow> ('k \<Rightarrow> ('s, 'z, unit) io) \<Rightarrow> ('c \<Rightarrow> 'c \<Rightarrow> 'k list) \<Rightarrow> 'k list \<Rightarrow> ('s, 'z, 'k list) io" where
  "processNext V run woken queue =
     (case queue of
        [] \<Rightarrow> ret []
      | k # rest \<Rightarrow> State (\<lambda>w. case run_state (run k) w of
          (_, w') \<Rightarrow> (enqueue rest (woken (V (ext w)) (V (ext w'))), w')))"

primrec runLoop ::
  "('s \<Rightarrow> 'c) \<Rightarrow> ('k \<Rightarrow> ('s, 'z, unit) io) \<Rightarrow> ('c \<Rightarrow> 'c \<Rightarrow> 'k list) \<Rightarrow> nat \<Rightarrow> 'k list \<Rightarrow> ('s, 'z, 'k list) io" where
  "runLoop V run woken 0 queue = ret queue"
| "runLoop V run woken (Suc n) queue = do {
     queue \<leftarrow> processNext V run woken queue;
     runLoop V run woken n queue }"

text \<open>Whatever the environment does, the loop comes through a \<open>T\<close> state within \<open>n\<close> runs.\<close>

primrec within ::
  "('s \<Rightarrow> 'c) \<Rightarrow> ('k \<Rightarrow> ('s, 'z, unit) io) \<Rightarrow> ('c \<Rightarrow> 'c \<Rightarrow> 'k list) \<Rightarrow> ('k list \<Rightarrow> 'c \<Rightarrow> bool) \<Rightarrow>
     nat \<Rightarrow> 'k list \<Rightarrow> 'c \<Rightarrow> bool" where
  "within V run woken T 0 = T"
| "within V run woken T (Suc n) = (\<lambda>queue c. T queue c \<or>
     (queue \<noteq> [] \<and> reaches V (processNext V run woken queue) c (within V run woken T n)))"

lemma set_enqueue [simp]: "set (enqueue queue new) = set queue \<union> set new"
  by (auto simp: enqueue_def)

lemma distinct_enqueue: "distinct queue \<Longrightarrow> distinct new \<Longrightarrow> distinct (enqueue queue new)"
  by (auto simp: enqueue_def)

lemma processNext_Cons:
  assumes "reaches V (run k) c (\<lambda>_ c'. Q (enqueue rest (woken c c')) c')"
  shows "reaches V (processNext V run woken (k # rest)) c Q"
  using assms by (auto simp: processNext_def reaches_def split: prod.split)

lemma within_T: "T queue c \<Longrightarrow> within V run woken T n queue c"
  by (cases n) simp_all

lemma within_mono:
  assumes "within V run woken T n queue c" "n \<le> m" "\<And>queue c. T queue c \<Longrightarrow> T' queue c"
  shows "within V run woken T' m queue c"
  using assms(1,2)
proof (induction n arbitrary: m queue c)
  case 0
  then show ?case using assms(3) by (simp add: within_T)
next
  case (Suc n)
  then obtain m' where m: "m = Suc m'" "n \<le> m'" by (cases m) auto
  from Suc.prems(1) show ?case
    unfolding m(1) within.simps
    by (auto intro: assms(3) Suc.IH [OF _ m(2)] reaches_conseq)
qed

text \<open>What the loop reaches from every \<open>T\<close> state within \<open>d\<close> runs, it reaches within \<open>n + d\<close>.\<close>

lemma within_then:
  assumes "\<And>queue c m. T queue c \<Longrightarrow> d \<le> m \<Longrightarrow> reaches V (runLoop V run woken m queue) c Q"
    and "within V run woken T n queue c" "n + d \<le> m"
  shows "reaches V (runLoop V run woken m queue) c Q"
  using assms(2,3)
proof (induction n arbitrary: m queue c)
  case 0
  then show ?case by (simp add: assms(1))
next
  case (Suc n)
  then obtain m' where m: "m = Suc m'" "n + d \<le> m'" by (cases m) auto
  show ?case
  proof (cases "T queue c")
    case True
    then show ?thesis by (rule assms(1)) (use Suc.prems(2) in simp)
  next
    case False
    with Suc.prems(1) have "reaches V (processNext V run woken queue) c (within V run woken T n)" by simp
    then show ?thesis
      unfolding m(1) runLoop.simps by (intro reaches_bind) (erule reaches_conseq, rule Suc.IH [OF _ m(2)])
  qed
qed

text \<open>From a \<open>T\<close> that no run leaves, the loop is in \<open>T\<close> after as many runs as it takes.\<close>

lemma within_stays:
  assumes "\<And>queue c. T queue c \<Longrightarrow> reaches V (processNext V run woken queue) c T"
    and "within V run woken T n queue c" "n \<le> m"
  shows "reaches V (runLoop V run woken m queue) c T"
proof (rule within_then [OF _ assms(2), where d = 0])
  show "reaches V (runLoop V run woken m queue) c T" if "T queue c" for queue c m
    using that
  proof (induction m arbitrary: queue c)
    case (Suc m)
    show ?case
      unfolding runLoop.simps by (intro reaches_bind reaches_conseq [OF assms(1) [OF Suc.prems]] Suc.IH)
  qed (simp add: reaches_ret)
qed (use assms(3) in simp)

text \<open>Runs that change nothing only empty the queue.\<close>

lemma drains:
  assumes "\<And>k. k \<in> set queue \<Longrightarrow> reaches V (run k) c (\<lambda>_ c'. c' = c)" "woken c c = []" "length queue \<le> m"
  shows "reaches V (runLoop V run woken m queue) c (\<lambda>queue' c'. queue' = [] \<and> c' = c)"
  using assms(1,3)
proof (induction m arbitrary: queue)
  case (Suc m)
  show ?case
  proof (cases queue)
    case Nil
    with Suc.IH [of "[]"] show ?thesis by (auto simp: processNext_def intro!: reaches_bind reaches_ret)
  next
    case (Cons k rest)
    have "reaches V (processNext V run woken queue) c (\<lambda>queue' c'. queue' = rest \<and> c' = c)"
      unfolding Cons
      by (intro processNext_Cons reaches_conseq [OF Suc.prems(1) [of k]]) (auto simp: Cons assms(2) enqueue_def)
    then show ?thesis
      unfolding runLoop.simps
      by (intro reaches_bind) (erule reaches_conseq, use Suc Cons in auto)
  qed
qed (simp add: reaches_ret)

section \<open>Progress\<close>

text \<open>
  The controllers \<open>K\<close> work towards a goal that is \<open>jobs c\<close> steps away. While it is not reached, a
  request of a useful controller is pending; running it brings the goal closer, and running
  another one takes nothing back. \<open>live Q c\<close> says that the pending requests \<open>Q\<close> suffice for \<open>c\<close>.
\<close>

definition progress :: "('c \<Rightarrow> nat) \<Rightarrow> ('c \<Rightarrow> 'k \<Rightarrow> bool) \<Rightarrow> 'c \<Rightarrow> 'k \<Rightarrow> 'c \<Rightarrow> bool" where
  "progress jobs useful c k c' \<longleftrightarrow>
     jobs c' < jobs c \<or>
     jobs c' = jobs c \<and> \<not> useful c k \<and> (\<forall>j. useful c j \<longrightarrow> useful c' j)"

locale work_queue =
  fixes V :: "'s \<Rightarrow> 'c"
    and run :: "'k \<Rightarrow> ('s, 'z, unit) io"
    and woken :: "'c \<Rightarrow> 'c \<Rightarrow> 'k list"
    and K :: "'k set"
    and good :: "'c \<Rightarrow> bool"
    and live :: "'k set \<Rightarrow> 'c \<Rightarrow> bool"
  assumes finite_K: "finite K"
    and woken_K: "distinct (woken c c')" "set (woken c c') \<subseteq> K"
    and step: "good c \<Longrightarrow> live Q c \<Longrightarrow> k \<in> Q \<Longrightarrow> Q \<subseteq> K \<Longrightarrow>
      reaches V (run k) c (\<lambda>_ c'. good c' \<and> live (Q - {k} \<union> set (woken c c')) c')"
begin

definition serving :: "'k list \<Rightarrow> 'c \<Rightarrow> bool" where
  "serving queue c \<longleftrightarrow> good c \<and> live (set queue) c \<and> distinct queue \<and> set queue \<subseteq> K"

lemma serving_length: "serving queue c \<Longrightarrow> length queue \<le> card K"
  using card_mono [OF finite_K, of "set queue"] by (simp add: serving_def distinct_card)

lemma serving_next:
  assumes "serving (k # rest) c" "good c'" "live (set (k # rest) - {k} \<union> set (woken c c')) c'"
  shows "serving (enqueue rest (woken c c')) c'"
proof -
  have "set (k # rest) - {k} = set rest" using assms(1) by (auto simp: serving_def)
  with assms woken_K show ?thesis by (auto simp: serving_def distinct_enqueue)
qed

lemma processNext_serving:
  assumes "serving queue c"
  shows "reaches V (processNext V run woken queue) c serving"
proof (cases queue)
  case Nil
  with assms show ?thesis by (simp add: processNext_def reaches_ret)
next
  case (Cons k rest)
  show ?thesis
    unfolding Cons
    by (intro processNext_Cons reaches_conseq [OF step [of c "set queue" k]] serving_next)
      (use assms Cons in \<open>auto simp: serving_def\<close>)
qed

lemma runLoop_serving: "serving queue c \<Longrightarrow> reaches V (runLoop V run woken n queue) c serving"
proof (induction n arbitrary: queue c)
  case (Suc n)
  show ?case
    unfolding runLoop.simps
    by (intro reaches_bind reaches_conseq [OF processNext_serving [OF Suc.prems]] Suc.IH)
qed (simp add: reaches_ret)

end

text \<open>A goal that the controllers reach, and one that they do not leave again.\<close>

locale progressing_queue = work_queue V run woken K good live
  for V :: "'s \<Rightarrow> 'c" and run :: "'k \<Rightarrow> ('s, 'z, unit) io" and woken :: "'c \<Rightarrow> 'c \<Rightarrow> 'k list"
    and K :: "'k set" and good :: "'c \<Rightarrow> bool" and live :: "'k set \<Rightarrow> 'c \<Rightarrow> bool" +
  fixes useful :: "'c \<Rightarrow> 'k \<Rightarrow> bool" and jobs :: "'c \<Rightarrow> nat"
  assumes useful_pending: "good c \<Longrightarrow> live Q c \<Longrightarrow> Q \<subseteq> K \<Longrightarrow> 0 < jobs c \<Longrightarrow> \<exists>k \<in> Q. useful c k"
    and run_progress: "good c \<Longrightarrow> live Q c \<Longrightarrow> k \<in> Q \<Longrightarrow> Q \<subseteq> K \<Longrightarrow> 0 < jobs c \<Longrightarrow>
      reaches V (run k) c (\<lambda>_. progress jobs useful c k)"
begin

text \<open>The number of runs before the goal: whole rounds, and the way to the next useful controller.\<close>

definition potential :: "'k list \<Rightarrow> 'c \<Rightarrow> nat" where
  "potential queue c =
     (if jobs c = 0 then 0
      else (jobs c - 1) * card K + Suc (length (takeWhile (\<lambda>k. \<not> useful c k) queue)))"

lemma takeWhile_useful:
  assumes "\<exists>k \<in> set queue. useful c k"
  shows "length (takeWhile (\<lambda>k. \<not> useful c k) queue) < length queue"
  using assms by (induction queue) auto

lemma potential_bound:
  assumes "serving queue c"
  shows "potential queue c \<le> jobs c * card K"
proof (cases "jobs c")
  case (Suc j)
  have "length (takeWhile (\<lambda>k. \<not> useful c k) queue) < card K"
    using takeWhile_useful [OF useful_pending [of c "set queue"]] serving_length [OF assms] assms Suc
    by (auto simp: serving_def)
  with Suc show ?thesis by (simp add: potential_def)
qed (simp add: potential_def)

lemma potential_decreases:
  assumes "serving (k # rest) c" "serving (enqueue rest new) c'" "0 < jobs c" "progress jobs useful c k c'"
  shows "potential (enqueue rest new) c' < potential (k # rest) c"
proof (cases "jobs c' < jobs c")
  case True
  have "potential (enqueue rest new) c' \<le> jobs c' * card K" by (rule potential_bound [OF assms(2)])
  also have "\<dots> \<le> (jobs c - 1) * card K" using True by (intro mult_right_mono) simp_all
  finally show ?thesis using assms(3) by (simp add: potential_def)
next
  case False
  with assms(4) have p: "jobs c' = jobs c" "\<not> useful c k" "\<And>j. useful c j \<Longrightarrow> useful c' j"
    by (auto simp: progress_def)
  have "\<exists>j \<in> set (k # rest). useful c j"
    using useful_pending [of c "set (k # rest)"] assms(1,3) by (auto simp: serving_def)
  with p(2) obtain j where j: "j \<in> set rest" "useful c j" by auto
  have "length (takeWhile (\<lambda>k. \<not> useful c' k) (enqueue rest new)) = length (takeWhile (\<lambda>k. \<not> useful c' k) rest)"
    using j p(3) by (simp add: enqueue_def takeWhile_append1)
  also have "\<dots> \<le> length (takeWhile (\<lambda>k. \<not> useful c k) rest)"
    using p(3) by (induction rest) auto
  finally show ?thesis using assms(3) p(1,2) by (simp add: potential_def)
qed

lemma progress_within:
  assumes "serving queue c" "potential queue c \<le> n"
  shows "within V run woken (\<lambda>queue c. serving queue c \<and> jobs c = 0) n queue c"
  using assms
proof (induction n arbitrary: queue c)
  case 0
  then show ?case by (auto simp: potential_def split: if_splits)
next
  case (Suc n)
  show ?case
  proof (cases "jobs c = 0")
    case False
    then obtain k rest where q: "queue = k # rest"
      using useful_pending [of c "set queue"] Suc.prems(1) by (cases queue) (auto simp: serving_def)
    have run: "good c" "live (set queue) c" "k \<in> set queue" "set queue \<subseteq> K"
      using Suc.prems(1) by (simp_all add: serving_def q)
    have "reaches V (run k) c (\<lambda>_ c'. (good c' \<and> live (set queue - {k} \<union> set (woken c c')) c') \<and>
        progress jobs useful c k c')"
      using False by (intro reaches_conj step [OF run] run_progress [OF run]) simp
    then have "reaches V (processNext V run woken queue) c (within V run woken (\<lambda>queue c. serving queue c \<and> jobs c = 0) n)"
      unfolding q
    proof (intro processNext_Cons, elim reaches_conseq)
      fix c' assume *: "(good c' \<and> live (set (k # rest) - {k} \<union> set (woken c c')) c') \<and> progress jobs useful c k c'"
      have served: "serving (enqueue rest (woken c c')) c'"
        using serving_next [of k rest c c'] Suc.prems(1) * by (simp add: q)
      with potential_decreases [of k rest c "woken c c'" c'] Suc.prems False *
      show "within V run woken (\<lambda>queue c. serving queue c \<and> jobs c = 0) n (enqueue rest (woken c c')) c'"
        by (intro Suc.IH) (auto simp: q)
    qed
    then show ?thesis by (simp add: q)
  qed (use Suc.prems(1) in simp)
qed

text \<open>From every serving state on, the goal comes within \<open>jobs c\<close> rounds of the queue.\<close>

lemma goal_within:
  assumes "serving queue c" "jobs c * card K \<le> n"
  shows "within V run woken (\<lambda>queue c. serving queue c \<and> jobs c = 0) n queue c"
  using assms potential_bound order.trans by (blast intro: progress_within)

end

locale settling_queue = progressing_queue V run woken K good live useful jobs
  for V :: "'s \<Rightarrow> 'c" and run :: "'k \<Rightarrow> ('s, 'z, unit) io" and woken :: "'c \<Rightarrow> 'c \<Rightarrow> 'k list"
    and K :: "'k set" and good :: "'c \<Rightarrow> bool" and live :: "'k set \<Rightarrow> 'c \<Rightarrow> bool"
    and useful :: "'c \<Rightarrow> 'k \<Rightarrow> bool" and jobs :: "'c \<Rightarrow> nat" +
  assumes goal_kept: "good c \<Longrightarrow> live Q c \<Longrightarrow> k \<in> Q \<Longrightarrow> Q \<subseteq> K \<Longrightarrow> jobs c = 0 \<Longrightarrow>
      reaches V (run k) c (\<lambda>_ c'. jobs c' = 0)"
begin

lemma processNext_goal:
  assumes "serving queue c" "jobs c = 0"
  shows "reaches V (processNext V run woken queue) c (\<lambda>_ c'. jobs c' = 0)"
proof (cases queue)
  case Nil
  with assms(2) show ?thesis by (simp add: processNext_def reaches_ret)
next
  case (Cons k rest)
  show ?thesis
    unfolding Cons
    by (intro processNext_Cons goal_kept [of c "set queue"]) (use assms Cons in \<open>auto simp: serving_def\<close>)
qed

lemma goal_settles:
  assumes "serving queue c" "jobs c * card K \<le> n"
  shows "reaches V (runLoop V run woken n queue) c (\<lambda>queue c. serving queue c \<and> jobs c = 0)"
proof (rule within_stays [OF _ goal_within [OF assms] order.refl])
  fix queue c assume *: "serving queue c \<and> jobs c = 0"
  show "reaches V (processNext V run woken queue) c (\<lambda>queue c. serving queue c \<and> jobs c = 0)"
    using * by (intro reaches_conj processNext_serving processNext_goal) simp_all
qed

end

text \<open>A goal at which runs change nothing more: the queue becomes empty.\<close>

locale resting_queue = progressing_queue V run woken K good live useful jobs
  for V :: "'s \<Rightarrow> 'c" and run :: "'k \<Rightarrow> ('s, 'z, unit) io" and woken :: "'c \<Rightarrow> 'c \<Rightarrow> 'k list"
    and K :: "'k set" and good :: "'c \<Rightarrow> bool" and live :: "'k set \<Rightarrow> 'c \<Rightarrow> bool"
    and useful :: "'c \<Rightarrow> 'k \<Rightarrow> bool" and jobs :: "'c \<Rightarrow> nat" +
  assumes unchanged: "woken c c = []"
    and at_rest: "good c \<Longrightarrow> live Q c \<Longrightarrow> k \<in> Q \<Longrightarrow> Q \<subseteq> K \<Longrightarrow> jobs c = 0 \<Longrightarrow>
      reaches V (run k) c (\<lambda>_ c'. c' = c)"
begin

lemma goal_rests:
  assumes "serving queue c" "jobs c * card K + card K \<le> n"
  shows "reaches V (runLoop V run woken n queue) c (\<lambda>queue' c'. queue' = [] \<and> good c' \<and> jobs c' = 0)"
proof (rule within_then [OF _ goal_within [OF assms(1) order.refl] assms(2)])
  fix queue c m assume *: "serving queue c \<and> jobs c = 0" "card K \<le> m"
  have "reaches V (runLoop V run woken m queue) c (\<lambda>queue' c'. queue' = [] \<and> c' = c)"
  proof (rule drains [where woken = woken and c = c, OF _ unchanged])
    show "length queue \<le> m" using serving_length [of queue c] * by simp
    show "reaches V (run k) c (\<lambda>_ c'. c' = c)" if "k \<in> set queue" for k
      using * that by (intro at_rest [of c "set queue"]) (auto simp: serving_def)
  qed
  then show "reaches V (runLoop V run woken m queue) c (\<lambda>queue' c'. queue' = [] \<and> good c' \<and> jobs c' = 0)"
    by (rule reaches_conseq) (use * in \<open>simp add: serving_def\<close>)
qed

end

end
