(* ===== verification/Schema.thy ===== *)
theory Schema
  imports Servers
begin

text \<open>
  The schemas of the two custom resources, which controller-gen writes from the markers of
  \<^verbatim>\<open>api/v1alpha1\<close> into \<^verbatim>\<open>config/crd/bases\<close> and which the API server enforces on every
  write: what the operator writes conforms to them, but for one case. The formats of times and
  integers are those of the Go types and are not repeated here.
\<close>

section \<open>Validation\<close>

definition isLower :: "char \<Rightarrow> bool" where "isLower c \<longleftrightarrow> c \<in> set ''abcdefghijklmnopqrstuvwxyz''"
definition isUpper :: "char \<Rightarrow> bool" where "isUpper c \<longleftrightarrow> c \<in> set ''ABCDEFGHIJKLMNOPQRSTUVWXYZ''"
definition isDigit :: "char \<Rightarrow> bool" where "isDigit c \<longleftrightarrow> c \<in> set ''0123456789''"
definition isAlnum :: "char \<Rightarrow> bool" where "isAlnum c \<longleftrightarrow> isLower c \<or> isUpper c \<or> isDigit c"

text \<open>The number of code points of a string of UTF-8 bytes.\<close>

definition runeCount :: "string \<Rightarrow> nat" where
  "runeCount s = length (filter (\<lambda>c. \<not> (digit7 c \<and> \<not> digit6 c)) s)"

text \<open>A string that starts with one class, ends with another, and has a third in between.\<close>

definition delimited :: "(char \<Rightarrow> bool) \<Rightarrow> (char \<Rightarrow> bool) \<Rightarrow> (char \<Rightarrow> bool) \<Rightarrow> string \<Rightarrow> bool" where
  "delimited start mid end s \<longleftrightarrow> s \<noteq> [] \<and> start (hd s) \<and> list_all mid s \<and> end (last s)"

definition reasonPattern :: "string \<Rightarrow> bool" where
  "reasonPattern s \<longleftrightarrow>
     delimited (\<lambda>c. isLower c \<or> isUpper c) (\<lambda>c. isAlnum c \<or> c \<in> {CHR ''_'', CHR '','', CHR '':''})
       (\<lambda>c. isAlnum c \<or> c = CHR ''_'') s"

text \<open>A qualified name: optionally a DNS subdomain and a slash, then a name.\<close>

definition dnsLabel :: "string \<Rightarrow> bool" where
  "dnsLabel = delimited (\<lambda>c. isLower c \<or> isDigit c) (\<lambda>c. isLower c \<or> isDigit c \<or> c = CHR ''-'')
     (\<lambda>c. isLower c \<or> isDigit c)"

definition localName :: "string \<Rightarrow> bool" where
  "localName = delimited isAlnum (\<lambda>c. isAlnum c \<or> c \<in> {CHR ''-'', CHR ''_'', CHR ''.''}) isAlnum"

definition typePattern :: "string \<Rightarrow> bool" where
  "typePattern s \<longleftrightarrow>
     (case splitOn (CHR ''/'') s of
        [name] \<Rightarrow> localName name
      | [prefix, name] \<Rightarrow> list_all dnsLabel (splitOn (CHR ''.'') prefix) \<and> localName name
      | _ \<Rightarrow> False)"

definition conditionConforms :: "condition \<Rightarrow> bool" where
  "conditionConforms c \<longleftrightarrow>
     runeCount (condMessage c) \<le> 32768 \<and> 0 \<le> condObservedGeneration c \<and>
     condReason c \<noteq> [] \<and> runeCount (condReason c) \<le> 1024 \<and> reasonPattern (condReason c) \<and>
     runeCount (condType c) \<le> 316 \<and> typePattern (condType c)"

definition bootGVK :: "string \<Rightarrow> gvk" where
  "bootGVK kind = \<lparr>gvkGroup = ''boot.ironcore.dev'', gvkVersion = ''v1alpha1'', gvkKind = kind\<rparr>"

definition httpConforms :: "http_boot_config \<Rightarrow> bool" where
  "httpConforms x \<longleftrightarrow> list_all conditionConforms (httpConditions (httpStatus x))"

definition ipxeConforms :: "ipxe_boot_config \<Rightarrow> bool" where
  "ipxeConforms x \<longleftrightarrow>
     ipxeKernelURL (ipxeSpec x) \<noteq> [] \<and> ipxeInitrdURL (ipxeSpec x) \<noteq> [] \<and>
     list_all conditionConforms (ipxeConditions (ipxeStatus x))"

section \<open>What the operator sets conforms\<close>

lemma runeCount_le: "runeCount s \<le> length s"
  by (simp add: runeCount_def)

lemma predefined_patterns:
  "reasonPattern ''IgnitionDataDelivered''" "reasonPattern ''IPXEScriptDelivered''"
  "typePattern ''IgnitionDataFetched''" "typePattern ''IPXEScriptFetched''"
proof -
  have type: "typePattern s" if "localName s" "CHR ''/'' \<notin> set s" for s
    using that by (simp add: typePattern_def)
  note classes = delimited_def isAlnum_def isLower_def isUpper_def isDigit_def
  show "reasonPattern ''IgnitionDataDelivered''" "reasonPattern ''IPXEScriptDelivered''"
    by (simp_all add: reasonPattern_def classes)
  show "typePattern ''IgnitionDataFetched''" "typePattern ''IPXEScriptFetched''"
    by (rule type; simp add: localName_def classes)+
qed

lemma predefined_conforms: "predefinedConditions t = Some c \<Longrightarrow> conditionConforms c"
  using predefined_patterns
  by (auto simp: predefinedConditions_def conditionConforms_def intro!: order.trans [OF runeCount_le]
      split: if_splits)

lemma conforms_time [simp]: "conditionConforms (c\<lparr>condLastTransitionTime := now\<rparr>) = conditionConforms c"
  by (simp add: conditionConforms_def)

lemma upsertBy_all: "list_all P xs \<Longrightarrow> P x \<Longrightarrow> list_all P (upsertBy key x xs)"
  by (induction xs) auto

lemma updateCondition_conforms:
  "predefinedConditions t = Some c \<Longrightarrow> list_all conditionConforms cs \<Longrightarrow>
     list_all conditionConforms (updateCondition now cs c)"
  by (simp add: updateCondition_def upsertBy_all predefined_conforms)

text \<open>
  A write keeps the schema: a status patch turns a conforming object into a conforming one, and
  what is applied conforms and has its kind.
\<close>

fun keepsSchema :: "event \<Rightarrow> bool" where
  "keepsSchema (EPatchHTTPStatus b x _) \<longleftrightarrow> (httpConforms b \<longrightarrow> httpConforms x)"
| "keepsSchema (EPatchIPXEStatus b x _) \<longleftrightarrow> (ipxeConforms b \<longrightarrow> ipxeConforms x)"
| "keepsSchema (EApplyHTTP _ x _) \<longleftrightarrow> httpConforms x \<and> httpType x = bootGVK ''HTTPBootConfig''"
| "keepsSchema (EApplyIPXE _ x _) \<longleftrightarrow> ipxeConforms x \<and> ipxeType x = bootGVK ''IPXEBootConfig''"
| "keepsSchema (ECreate _ _ _) \<longleftrightarrow> False"
| "keepsSchema _ \<longleftrightarrow> True"

lemma servingCall_keepsSchema: "servingCall L cfg e \<Longrightarrow> keepsSchema e"
  by (cases e) (auto simp: httpConforms_def ipxeConforms_def updateCondition_conforms)

lemma serveRequest_keepsSchema: "onlyEmits (serveRequest L E cfg escaped r) keepsSchema"
  by (rule emits_conseq [OF serving_serveRequest])
    (auto simp: list_all_iff intro: servingCall_keepsSchema)

lemma patchStatus_keepsSchema:
  "onlyEmits (httpPatchStatus E x st) keepsSchema" "onlyEmits (ipxePatchStatus E' y st) keepsSchema"
  unfolding httpPatchStatus_def ipxePatchStatus_def
  by (intro serving_rules; simp add: httpConforms_def ipxeConforms_def)+

lemma bootReconcile_keepsSchema:
  "onlyEmits (HTTPBootConfig_Reconcile E k) keepsSchema"
  "onlyEmits (IPXEBootConfig_Reconcile E' k') keepsSchema"
proof -
  have "onlyEmits (httpEnsureIgnition E x) keepsSchema" for x
    unfolding httpEnsureIgnition_def by (intro serving_rules; simp)
  then show "onlyEmits (HTTPBootConfig_Reconcile E k) keepsSchema"
    unfolding HTTPBootConfig_Reconcile_def httpReconcileExists_def httpReconcile_def httpDelete_def
    by (intro serving_rules patchStatus_keepsSchema; simp)
  have "onlyEmits (ipxeEnsureIgnition E' x) keepsSchema" for x
    unfolding ipxeEnsureIgnition_def by (intro serving_rules; simp)
  then show "onlyEmits (IPXEBootConfig_Reconcile E' k') keepsSchema"
    unfolding IPXEBootConfig_Reconcile_def ipxeReconcileExists_def ipxeReconcile_def ipxeDelete_def
    by (intro serving_rules patchStatus_keepsSchema; simp)
qed

section \<open>What the reconcilers of boot configurations apply\<close>

text \<open>Calls that write no boot resource.\<close>

fun sparesBoot :: "event \<Rightarrow> bool" where
  "sparesBoot (EPatchSBCStatus _ _ _) = True"
| "sparesBoot e = (\<not> isWrite e)"

lemma sparesBoot_keepsSchema: "sparesBoot e \<Longrightarrow> keepsSchema e"
  by (cases e) simp_all

lemma registryRead_sparesBoot: "isRegistryRead e \<Longrightarrow> sparesBoot e"
  by (cases e) simp_all

lemma imageRead_sparesBoot: "imageRead L v img arch opts result res es \<Longrightarrow> list_all sparesBoot es"
  by (auto simp: imageRead_def list_all_iff intro: registryRead_sparesBoot)

lemma statusCopied_sparesBoot: "statusCopied L st conditions cur err es \<Longrightarrow> list_all sparesBoot es"
  by (auto simp: statusCopied_def list_all_iff)

lemma httpStatusCopied_sparesBoot: "httpStatusCopied L config sbc r es \<Longrightarrow> list_all sparesBoot es"
proof -
  assume "httpStatusCopied L config sbc r es"
  then obtain got rest where "es = EGetSBC ManagerClient (sbcKeyOf sbc) got # rest"
    "case got of Inl err \<Rightarrow> rest = [] \<and> r = Some err
     | Inr cur \<Rightarrow> statusCopied L (httpState (httpStatus config)) (httpConditions (httpStatus config)) cur r rest"
    unfolding httpStatusCopied_def by blast
  then show ?thesis by (cases got) (auto dest: statusCopied_sparesBoot)
qed

lemma errorPatched_sparesBoot: "errorPatched L sbc msg res es \<Longrightarrow> list_all sparesBoot es"
  by (auto simp: errorPatched_def)

text \<open>The application of a boot resource for an image that was read before, within the run \<open>es\<close>.\<close>

definition appliesRead ::
  "(string + 'u \<Rightarrow> event list \<Rightarrow> bool) \<Rightarrow>
     (string \<Rightarrow> string list \<Rightarrow> 'u \<Rightarrow> object_meta \<Rightarrow> api_error option \<Rightarrow> event) \<Rightarrow> event list \<Rightarrow> event \<Rightarrow> bool" where
  "appliesRead imageSpec applied es e \<longleftrightarrow>
     (\<exists>uuid ips u meta err before ims after. imageSpec (Inr u) ims \<and>
        e = applied uuid ips u meta err \<and> es = before @ ims @ after)"

lemma appliesReadI:
  "imageSpec (Inr u) ims \<Longrightarrow> es = before @ ims @ after \<Longrightarrow>
     appliesRead imageSpec applied es (applied uuid ips u meta err)"
  unfolding appliesRead_def by blast

lemma sbcReconciled_writes:
  assumes "sbcReconciled L macs imageSpec applied readBack copied sbc res es"
    and "\<And>u ims. imageSpec u ims \<Longrightarrow> list_all sparesBoot ims"
    and "\<And>config err cs. copied config err cs \<Longrightarrow> list_all sparesBoot cs"
    and "\<And>config. sparesBoot (readBack config)"
  shows "\<forall>e \<in> set es. sparesBoot e \<or> appliesRead imageSpec applied es e"
proof -
  have spares: "imageSpec u ims \<Longrightarrow> e \<in> set ims \<Longrightarrow> sparesBoot e" for u ims e
    using assms(2) by (auto simp: list_all_iff)
  have copied: "copied config err cs \<Longrightarrow> e \<in> set cs \<Longrightarrow> sparesBoot e" for config err cs e
    using assms(3) by (auto simp: list_all_iff)
  have failed: "errorPatched L sbc msg r ps \<Longrightarrow> e \<in> set ps \<Longrightarrow> sparesBoot e" for msg r ps e
    using errorPatched_sparesBoot by (auto simp: list_all_iff)
  have applied: "appliesRead imageSpec applied (e1 # e2 # ims @ rest) (applied uuid ips u meta err)"
    if "imageSpec (Inr u) ims" for e1 e2 ims rest uuid ips u meta err
    by (rule appliesReadI [where imageSpec = imageSpec and before = "[e1, e2]", OF that]) simp
  from assms(1) show ?thesis
  proof cases
    case (not_applied u ims meta err srv srv')
    from not_applied show ?thesis by (auto intro: applied dest: spares)
  next
    case (not_read u ims meta err srv srv')
    from not_read assms(4) show ?thesis by (auto intro: applied dest: spares)
  next
    case (completed u ims meta config perr cs srv srv')
    from completed assms(4) show ?thesis by (auto intro: applied dest: spares copied)
  qed (auto dest: spares failed)
qed

lemma HTTPReconcile_keepsSchema: "onlyEmits (ServerBootConfigurationHTTP_Reconcile L E r req) keepsSchema"
proof -
  have "list_all keepsSchema es" if "httpBootReconciled L r sbc res es" for sbc res es
  proof -
    have "\<forall>e \<in> set es. sparesBoot e \<or> appliesRead
       (imageRead L (hrRegistryValidator r) (sbcImage sbc) (hrArchitecture r) noOptions (ukiURLOf r))
       (\<lambda>uuid ids url meta. EApplyHTTP ''server-boot-controller''
          ((newHTTPBootConfig sbc uuid ids url)\<lparr>httpMeta := meta\<rparr>)) es e"
      by (rule sbcReconciled_writes [OF that [unfolded httpBootReconciled_def]])
        (simp_all add: imageRead_sparesBoot httpStatusCopied_sparesBoot)
    then show ?thesis
      unfolding list_all_iff
      by (auto simp: appliesRead_def newHTTPBootConfig_def httpConforms_def bootGVK_def
          intro: sparesBoot_keepsSchema)
  qed
  then show ?thesis
    unfolding ServerBootConfigurationHTTP_Reconcile_def
    by (intro emits_rules emits_conseq [OF emits_httpBootReconcile]) auto
qed

text \<open>The manifest that a PXE run read for the image of a boot configuration.\<close>

definition manifestRead ::
  "lib \<Rightarrow> pxe_reconciler \<Rightarrow> server_boot_config \<Rightarrow> manifest \<Rightarrow> event list \<Rightarrow> bool" where
  "manifestRead L r sbc m es \<longleftrightarrow>
     (\<exists>name version resolved desc before reads after.
        ParseImageReference L (sbcImage sbc) = Inr (name, version) \<and>
        es = before @ EResolve (BuildImageReference name version) (Inr (resolved, desc)) # reads @ after \<and>
        manifestFetched L resolved desc (pxeArchitecture r) pxeOptions m reads)"

definition bootable_layers :: "manifest \<Rightarrow> bool" where
  "bootable_layers m \<longleftrightarrow>
     lastDigest {MediaTypeKernel, MediaTypeKernelOld} m \<noteq> [] \<and>
     lastDigest {MediaTypeInitrd, MediaTypeInitrdOld} m \<noteq> []"

lemma pxeURL_empty: "pxeURL r name version digest = [] \<longleftrightarrow> digest = []"
  by (simp add: pxeURL_def buildImageURL_def Let_def)

definition pxeWrites ::
  "lib \<Rightarrow> pxe_reconciler \<Rightarrow> server_boot_config \<Rightarrow> event list \<Rightarrow> event \<Rightarrow> bool" where
  "pxeWrites L r sbc es e \<longleftrightarrow>
     (case e of
        EApplyIPXE _ x _ \<Rightarrow> ipxeType x = bootGVK ''IPXEBootConfig'' \<and>
          (\<exists>m. manifestRead L r sbc m es \<and> ipxeConforms x = bootable_layers m)
      | _ \<Rightarrow> sparesBoot e)"

lemma manifestRead_within:
  assumes "imageRead L v (sbcImage sbc) (pxeArchitecture r) pxeOptions (pxeURLs r') (Inr u) ims"
  shows "\<exists>name version m. manifestRead L r sbc m (before @ ims @ after) \<and> pxeURLs r' name version m u"
proof -
  obtain name version resolved desc rest m where m:
    "ParseImageReference L (sbcImage sbc) = Inr (name, version)"
    "ims = EResolve (BuildImageReference name version) (Inr (resolved, desc)) # rest"
    "manifestFetched L resolved desc (pxeArchitecture r) pxeOptions m rest" "pxeURLs r' name version m u"
    using assms by (auto simp: imageRead_def)
  then show ?thesis unfolding manifestRead_def by (metis append_Cons)
qed

lemma pxeReconciled_writes:
  assumes "pxeReconciled L r sbc res es"
  shows "\<forall>e \<in> set es. pxeWrites L r sbc es e"
proof
  fix e assume "e \<in> set es"
  have "\<forall>e \<in> set es. sparesBoot e \<or> appliesRead
     (imageRead L (pxeRegistryValidator r) (sbcImage sbc) (pxeArchitecture r) pxeOptions (pxeURLs r))
     (\<lambda>uuid ips urls meta. EApplyIPXE fieldOwner ((newIPXEBootConfig sbc uuid ips urls)\<lparr>ipxeMeta := meta\<rparr>)) es e"
    by (rule sbcReconciled_writes [OF assms [unfolded pxeReconciled_def]])
      (simp_all add: imageRead_sparesBoot statusCopied_sparesBoot)
  with \<open>e \<in> set es\<close> consider "sparesBoot e" | uuid ips u meta err before ims after where
    "imageRead L (pxeRegistryValidator r) (sbcImage sbc) (pxeArchitecture r) pxeOptions (pxeURLs r) (Inr u) ims"
    "e = EApplyIPXE fieldOwner ((newIPXEBootConfig sbc uuid ips u)\<lparr>ipxeMeta := meta\<rparr>) err"
    "es = before @ ims @ after"
    unfolding appliesRead_def by blast
  then show "pxeWrites L r sbc es e"
  proof cases
    case 1
    then show ?thesis by (cases e) (simp_all add: pxeWrites_def)
  next
    case 2
    from manifestRead_within [OF 2(1)] obtain name version m where
      "manifestRead L r sbc m es" "pxeURLs r name version m u"
      unfolding 2(3) by blast
    then show ?thesis
      by (auto simp: pxeWrites_def 2(2) newIPXEBootConfig_def bootGVK_def ipxeConforms_def pxeURLs_def
          bootable_layers_def pxeURL_empty)
  qed
qed

text \<open>
  A PXE run for the request \<open>k\<close>: if it writes a boot resource at all, it has read a boot
  configuration, and writes only resources of the right kind, which conform exactly when the
  manifest of the configuration's image has the layers to boot from.
\<close>

definition pxeConforms :: "lib \<Rightarrow> pxe_reconciler \<Rightarrow> namespaced_name \<Rightarrow> event list \<Rightarrow> bool" where
  "pxeConforms L r k es \<longleftrightarrow>
     list_all sparesBoot es \<or>
     (\<exists>sbc. hd es = EGetSBC ManagerClient k (Inr sbc) \<and> list_all (pxeWrites L r sbc es) es)"

lemma manifestRead_Cons: "manifestRead L r sbc m es \<Longrightarrow> manifestRead L r sbc m (e # es)"
  unfolding manifestRead_def by (metis append_Cons)

lemma pxeWrites_Cons: "pxeWrites L r sbc es e \<Longrightarrow> pxeWrites L r sbc (e' # es) e"
  by (cases e) (auto simp: pxeWrites_def intro: manifestRead_Cons)

lemma PXEReconcile_conforms:
  "emits (ServerBootConfigurationPXE_Reconcile L E r k) (\<lambda>_. pxeConforms L r k)"
proof -
  have run: "pxeConforms L r k (EGetSBC ManagerClient k (Inr sbc) # es)" if "pxeReconciled L r sbc res es"
    for sbc res es
  proof -
    have "list_all (pxeWrites L r sbc (EGetSBC ManagerClient k (Inr sbc) # es)) es"
      using pxeReconciled_writes [OF that] by (auto simp: list_all_iff intro: pxeWrites_Cons)
    then show ?thesis unfolding pxeConforms_def by (simp add: pxeWrites_def)
  qed
  have "pxeConforms L r k [EGetSBC ManagerClient k got]" for got
    by (simp add: pxeConforms_def)
  then show ?thesis
    unfolding ServerBootConfigurationPXE_Reconcile_def
    by (intro emits_rules emits_conseq [OF emits_pxeReconcile]) (auto intro: run)
qed

section \<open>Properties\<close>

text \<open>C40: Everything the operator writes is of the type the API declares for it. The boot server and
  the reconcilers of the boot resources turn objects that conform to their CRD schema into such
  objects; an \<open>HTTPBootConfig\<close> that is applied conforms, and has its kind; an \<open>IPXEBootConfig\<close> that
  is applied has its kind and conforms exactly when the last kernel and initramfs layers of the
  manifest that was read have digests. For other images the reconciler asks the API server for
  an object that the schema forbids.\<close>

theorem writes_conform:
  "onlyEmits (serveRequest L E cfg escaped q) keepsSchema \<and>
   onlyEmits (HTTPBootConfig_Reconcile E' k) keepsSchema \<and>
   onlyEmits (IPXEBootConfig_Reconcile E' k) keepsSchema \<and>
   onlyEmits (ServerBootConfigurationHTTP_Reconcile L E' hr k) keepsSchema \<and>
   emits (ServerBootConfigurationPXE_Reconcile L E' r k) (\<lambda>_. pxeConforms L r k)"
  by (intro conjI serveRequest_keepsSchema bootReconcile_keepsSchema HTTPReconcile_keepsSchema
      PXEReconcile_conforms)

text \<open>An image without layers to boot from: the object that is applied does not conform.\<close>

definition checkedServer :: server where
  "checkedServer = \<lparr>serverName = ''server'', serverSystemUUID = ''4c4c4544'',
     serverBootConfigurationRef = None, serverMaintenanceBootConfigurationRef = None,
     serverState = ServerStateOther ''Available'', serverNetworkInterfaces = []\<rparr>"

definition checkingEnv :: "unit env" where
  "checkingEnv = onlineEnv\<lparr>
     e_getSBC := \<lambda>_ _ s. (Inr sampleConfig, s),
     e_getServer := \<lambda>_ _ s. (Inr checkedServer, s),
     e_applyIPXE := \<lambda>_ x s. (if ipxeConforms x then None else Some (APIError ''invalid''), s)\<rparr>"

definition layerlessLib :: lib where
  "layerlessLib = imageLib\<lparr>l_decodeManifest := \<lambda>_. Inr [], l_setControllerReference := \<lambda>_ m. Inr m\<rparr>"

lemma layerless_image:
  "ParseImageReference layerlessLib (sbcImage sampleConfig) = Inr (''ghcr.io/org/os'', ''1.0'')"
  "ValidateImageRegistry layerlessLib (pxeRegistryValidator samplePXE)
     (BuildImageReference ''ghcr.io/org/os'' ''1.0'') = None"
  by code_simp+

lemma checking_calls:
  "e_getSBC checkingEnv cl k u = (Inr sampleConfig, u)"
  "e_getServer checkingEnv cl n u = (Inr checkedServer, u)"
  "e_resolve checkingEnv ref u = (Inr (ref, zeroDescriptor), u)"
  "e_applyIPXE checkingEnv ow x u = (if ipxeConforms x then None else Some (APIError ''invalid''), u)"
  by (simp_all add: checkingEnv_def onlineEnv_def)

lemma layerless_owner: "l_setControllerReference layerlessLib sbc m = Inr m"
  by (simp add: layerlessLib_def)

lemma missing_layers_rejected:
  "fst (run_state (ServerBootConfigurationPXE_Reconcile layerlessLib checkingEnv samplePXE
      (NN ''ns'' ''boot'') :: (unit, unit, _) io) (startWorld ())) =
    Some (ApplyFailed (APIError ''invalid''))"
proof -
  have "metaDeletionTimestamp (sbcMeta sampleConfig) = None"
    by (simp add: sampleConfig_def newMeta_def)
  moreover have "fst (run_state (FindManifestByArchitecture layerlessLib checkingEnv name zeroDescriptor arch opts)
      (w :: (unit, unit) world_scheme)) = Inr []" for name arch opts w
    by (simp add: FindManifestByArchitecture_def FetchContent_def checkingEnv_def onlineEnv_def layerlessLib_def
        imageLib_def sampleLib_def zeroDescriptor_def)
  ultimately show ?thesis
    by (simp add: ServerBootConfigurationPXE_Reconcile_def pxeReconcile_def getSystemUUID_def
        getSystemNetworkIDs_def getImageDetailsFromConfig_def getLayerDigestsFromNestedManifest_def Let_def
        layerless_image checking_calls layerless_owner pxeURL_def newIPXEBootConfig_def
        ipxeConforms_def split_beta)
qed

end
