(* ===== verification/Convergence.thy ===== *)
theory Convergence
  imports WorkQueue Schema
begin

text \<open>
  The reconcilers in a steady cluster: one that answers every call, behaves as the API is
  documented to, and that nobody else changes. Each reconciler is reduced to its effect on an
  abstract view of the cluster's objects.
\<close>

section \<open>A steady cluster\<close>

record cluster =
  clSecrets :: "namespaced_name \<rightharpoonup> secret"
  clServers :: "string \<rightharpoonup> server"
  clSBCs :: "namespaced_name \<rightharpoonup> server_boot_config"
  clHTTPs :: "namespaced_name \<rightharpoonup> http_boot_config"
  clIPXEs :: "namespaced_name \<rightharpoonup> ipxe_boot_config"

definition putHTTP :: "namespaced_name \<Rightarrow> http_boot_config \<Rightarrow> cluster \<Rightarrow> cluster" where
  "putHTTP k y c = c\<lparr>clHTTPs := (clHTTPs c)(k \<mapsto> y)\<rparr>"

definition putIPXE :: "namespaced_name \<Rightarrow> ipxe_boot_config \<Rightarrow> cluster \<Rightarrow> cluster" where
  "putIPXE k y c = c\<lparr>clIPXEs := (clIPXEs c)(k \<mapsto> y)\<rparr>"

definition putSBC :: "namespaced_name \<Rightarrow> server_boot_config \<Rightarrow> cluster \<Rightarrow> cluster" where
  "putSBC k b c = c\<lparr>clSBCs := (clSBCs c)(k \<mapsto> b)\<rparr>"

lemma put_simps [simp]:
  "clSecrets (putHTTP k y c) = clSecrets c" "clServers (putHTTP k y c) = clServers c"
  "clSBCs (putHTTP k y c) = clSBCs c" "clIPXEs (putHTTP k y c) = clIPXEs c"
  "clHTTPs (putHTTP k y c) = (clHTTPs c)(k \<mapsto> y)"
  "clSecrets (putIPXE k z c) = clSecrets c" "clServers (putIPXE k z c) = clServers c"
  "clSBCs (putIPXE k z c) = clSBCs c" "clHTTPs (putIPXE k z c) = clHTTPs c"
  "clIPXEs (putIPXE k z c) = (clIPXEs c)(k \<mapsto> z)"
  "clSecrets (putSBC k b c) = clSecrets c" "clServers (putSBC k b c) = clServers c"
  "clHTTPs (putSBC k b c) = clHTTPs c" "clIPXEs (putSBC k b c) = clIPXEs c"
  "clSBCs (putSBC k b c) = (clSBCs c)(k \<mapsto> b)"
  by (simp_all add: putHTTP_def putIPXE_def putSBC_def)

lemma put_same:
  "clHTTPs c k = Some y \<Longrightarrow> putHTTP k y c = c"
  "clIPXEs c k = Some z \<Longrightarrow> putIPXE k z c = c"
  by (simp_all add: putHTTP_def putIPXE_def fun_upd_idem)

text \<open>Reads answer with the object of the view, or that there is none, and change nothing.\<close>

definition answers ::
  "('s \<Rightarrow> cluster) \<Rightarrow> ('k \<Rightarrow> 's \<Rightarrow> (api_error + 'o) \<times> 's) \<Rightarrow> (cluster \<Rightarrow> 'k \<rightharpoonup> 'o) \<Rightarrow> bool" where
  "answers V f objs \<longleftrightarrow>
     (\<forall>k s. V (snd (f k s)) = V s \<and>
        (case objs (V s) k of
           Some x \<Rightarrow> fst (f k s) = Inr x
         | None \<Rightarrow> (case fst (f k s) of Inl err \<Rightarrow> isNotFound err | Inr _ \<Rightarrow> False)))"

text \<open>A status patch of an object as it is stored replaces its status.\<close>

definition patches ::
  "('s \<Rightarrow> cluster) \<Rightarrow> ('o \<Rightarrow> 'o \<Rightarrow> 's \<Rightarrow> api_error option \<times> 's) \<Rightarrow> (cluster \<Rightarrow> namespaced_name \<rightharpoonup> 'o) \<Rightarrow>
     (namespaced_name \<Rightarrow> 'o \<Rightarrow> cluster \<Rightarrow> cluster) \<Rightarrow> ('o \<Rightarrow> namespaced_name) \<Rightarrow> ('o \<Rightarrow> 'o \<Rightarrow> 'o) \<Rightarrow> bool" where
  "patches V f objs put keyOf setStatus \<longleftrightarrow>
     (\<forall>b x s. objs (V s) (keyOf b) \<noteq> Some b \<or>
        fst (f b x s) = None \<and> V (snd (f b x s)) = put (keyOf b) (setStatus b x) (V s))"

text \<open>
  A server-side apply of an object that conforms to its schema sets the specification, adds the
  owner references, and keeps the status of an existing object. An object that already has what
  is applied stays as it is.
\<close>

definition holdsMeta :: "object_meta \<Rightarrow> object_meta \<Rightarrow> bool" where
  "holdsMeta x z \<longleftrightarrow> objectKey z = objectKey x \<and> set (metaOwnerReferences x) \<subseteq> set (metaOwnerReferences z) \<and>
     metaLabels x \<subseteq>\<^sub>m metaLabels z \<and> metaAnnotations x \<subseteq>\<^sub>m metaAnnotations z"

definition appliedMeta :: "object_meta option \<Rightarrow> object_meta \<Rightarrow> object_meta \<Rightarrow> bool" where
  "appliedMeta old x y \<longleftrightarrow> holdsMeta x y \<and>
     metaDeletionTimestamp y = (case old of Some z \<Rightarrow> metaDeletionTimestamp z | None \<Rightarrow> None)"

definition appliedHTTP :: "http_boot_config option \<Rightarrow> http_boot_config \<Rightarrow> http_boot_config \<Rightarrow> bool" where
  "appliedHTTP old x y \<longleftrightarrow> httpSpec y = httpSpec x \<and>
     appliedMeta (map_option httpMeta old) (httpMeta x) (httpMeta y) \<and>
     httpStatus y = (case old of Some z \<Rightarrow> httpStatus z | None \<Rightarrow> \<lparr>httpState = [], httpConditions = []\<rparr>) \<and>
     (case old of Some z \<Rightarrow> httpSpec z \<noteq> httpSpec x \<or> \<not> holdsMeta (httpMeta x) (httpMeta z) \<or> y = z | None \<Rightarrow> True)"

definition appliedIPXE :: "ipxe_boot_config option \<Rightarrow> ipxe_boot_config \<Rightarrow> ipxe_boot_config \<Rightarrow> bool" where
  "appliedIPXE old x y \<longleftrightarrow> ipxeSpec y = ipxeSpec x \<and>
     appliedMeta (map_option ipxeMeta old) (ipxeMeta x) (ipxeMeta y) \<and>
     ipxeStatus y = (case old of Some z \<Rightarrow> ipxeStatus z | None \<Rightarrow> \<lparr>ipxeState = [], ipxeConditions = []\<rparr>) \<and>
     (case old of Some z \<Rightarrow> ipxeSpec z \<noteq> ipxeSpec x \<or> \<not> holdsMeta (ipxeMeta x) (ipxeMeta z) \<or> y = z | None \<Rightarrow> True)"

definition applies ::
  "('s \<Rightarrow> cluster) \<Rightarrow> (string \<Rightarrow> 'o \<Rightarrow> 's \<Rightarrow> api_error option \<times> 's) \<Rightarrow> (cluster \<Rightarrow> namespaced_name \<rightharpoonup> 'o) \<Rightarrow>
     (namespaced_name \<Rightarrow> 'o \<Rightarrow> cluster \<Rightarrow> cluster) \<Rightarrow> ('o \<Rightarrow> namespaced_name) \<Rightarrow> ('o \<Rightarrow> bool) \<Rightarrow>
     ('o option \<Rightarrow> 'o \<Rightarrow> 'o \<Rightarrow> bool) \<Rightarrow> bool" where
  "applies V f objs put keyOf conforms applied \<longleftrightarrow>
     (\<forall>ow x s. conforms x \<longrightarrow> fst (f ow x s) = None \<and>
        (\<exists>y. applied (objs (V s) (keyOf x)) x y \<and> V (snd (f ow x s)) = put (keyOf x) y (V s)))"

definition steadyCluster :: "('s \<Rightarrow> cluster) \<Rightarrow> 's env \<Rightarrow> bool" where
  "steadyCluster V E \<longleftrightarrow>
     answers V (e_getSecret E ManagerClient) clSecrets \<and>
     answers V (e_getServer E ManagerClient) clServers \<and>
     answers V (e_getSBC E ManagerClient) clSBCs \<and>
     answers V (e_getHTTP E ManagerClient) clHTTPs \<and>
     answers V (e_getIPXE E ManagerClient) clIPXEs \<and>
     patches V (e_patchHTTPStatus E) clHTTPs putHTTP (\<lambda>b. objectKey (httpMeta b))
       (\<lambda>b x. b\<lparr>httpStatus := httpStatus x\<rparr>) \<and>
     patches V (e_patchIPXEStatus E) clIPXEs putIPXE (\<lambda>b. objectKey (ipxeMeta b))
       (\<lambda>b x. b\<lparr>ipxeStatus := ipxeStatus x\<rparr>) \<and>
     patches V (e_patchSBCStatus E) clSBCs putSBC (\<lambda>b. objectKey (sbcMeta b))
       (\<lambda>b x. b\<lparr>sbcState := sbcState x, sbcConditions := sbcConditions x\<rparr>) \<and>
     applies V (e_applyHTTP E) clHTTPs putHTTP (\<lambda>x. objectKey (httpMeta x)) httpConforms appliedHTTP \<and>
     applies V (e_applyIPXE E) clIPXEs putIPXE (\<lambda>x. objectKey (ipxeMeta x)) ipxeConforms appliedIPXE \<and>
     (\<forall>s. V (snd (e_now E s)) = V s)"

section \<open>Calls in a steady cluster\<close>

lemma answersD:
  assumes "answers V f objs"
  shows "V (snd (f k s)) = V s" "objs (V s) k = Some x \<Longrightarrow> fst (f k s) = Inr x"
    "objs (V s) k = None \<Longrightarrow> \<exists>err. fst (f k s) = Inl err \<and> isNotFound err"
proof -
  have *: "V (snd (f k s)) = V s \<and> (case objs (V s) k of
      Some x \<Rightarrow> fst (f k s) = Inr x
    | None \<Rightarrow> (case fst (f k s) of Inl err \<Rightarrow> isNotFound err | Inr _ \<Rightarrow> False))"
    using assms unfolding answers_def by blast
  from * show "V (snd (f k s)) = V s" by simp
  from * show "objs (V s) k = Some x \<Longrightarrow> fst (f k s) = Inr x" by simp
  from * show "objs (V s) k = None \<Longrightarrow> \<exists>err. fst (f k s) = Inl err \<and> isNotFound err"
    by (auto split: sum.splits)
qed

lemma reaches_read:
  assumes "answers V f objs" "objs c k = Some x" "Q (Inr x) c"
  shows "reaches V (ext_call (f k) ev) c Q"
  by (rule reaches_call) (use assms answersD [OF assms(1)] in auto)

lemma reaches_absent:
  assumes "answers V f objs" "objs c k = None" "\<And>err. isNotFound err \<Longrightarrow> Q (Inl err) c"
  shows "reaches V (ext_call (f k) ev) c Q"
proof (rule reaches_call)
  fix s assume "V s = c"
  with answersD(1,3) [OF assms(1), where k = k and s = s] assms(2,3)
  show "Q (fst (f k s)) (V (snd (f k s)))" by auto
qed

lemma reaches_unchanged:
  assumes "answers V f objs" "\<And>got. Q got c"
  shows "reaches V (ext_call (f k) ev) c Q"
  by (rule reaches_call) (use assms answersD(1) [OF assms(1)] in auto)

lemma reaches_patch:
  assumes "patches V f objs put keyOf setStatus" "objs c (keyOf b) = Some b"
    and "Q None (put (keyOf b) (setStatus b x) c)"
  shows "reaches V (ext_call (f b x) ev) c Q"
  by (rule reaches_call) (use assms in \<open>auto simp: patches_def dest: spec [where x = b]\<close>)

lemma reaches_apply:
  assumes "applies V f objs put keyOf conforms applied" "conforms x"
    and "\<And>y. applied (objs c (keyOf x)) x y \<Longrightarrow> Q None (put (keyOf x) y c)"
  shows "reaches V (ext_call (f ow x) ev) c Q"
proof (rule reaches_call)
  fix s assume s: "V s = c"
  obtain y where "fst (f ow x s) = None" "applied (objs c (keyOf x)) x y" "V (snd (f ow x s)) = put (keyOf x) y c"
    using assms(1,2) s unfolding applies_def by blast
  with assms(3) show "Q (fst (f ow x s)) (V (snd (f ow x s)))" by simp
qed

lemma steadyD:
  assumes "steadyCluster V E"
  shows "answers V (e_getSecret E ManagerClient) clSecrets"
    "answers V (e_getServer E ManagerClient) clServers"
    "answers V (e_getSBC E ManagerClient) clSBCs"
    "answers V (e_getHTTP E ManagerClient) clHTTPs"
    "answers V (e_getIPXE E ManagerClient) clIPXEs"
    "patches V (e_patchHTTPStatus E) clHTTPs putHTTP (\<lambda>b. objectKey (httpMeta b))
       (\<lambda>b x. b\<lparr>httpStatus := httpStatus x\<rparr>)"
    "patches V (e_patchIPXEStatus E) clIPXEs putIPXE (\<lambda>b. objectKey (ipxeMeta b))
       (\<lambda>b x. b\<lparr>ipxeStatus := ipxeStatus x\<rparr>)"
    "patches V (e_patchSBCStatus E) clSBCs putSBC (\<lambda>b. objectKey (sbcMeta b))
       (\<lambda>b x. b\<lparr>sbcState := sbcState x, sbcConditions := sbcConditions x\<rparr>)"
    "applies V (e_applyHTTP E) clHTTPs putHTTP (\<lambda>x. objectKey (httpMeta x)) httpConforms appliedHTTP"
    "applies V (e_applyIPXE E) clIPXEs putIPXE (\<lambda>x. objectKey (ipxeMeta x)) ipxeConforms appliedIPXE"
  using assms by (simp_all add: steadyCluster_def)

lemma steady_now: "steadyCluster V E \<Longrightarrow> (\<And>t. Q t c) \<Longrightarrow> reaches V (timeNow E) c Q"
  by (rule reaches_call) (simp add: steadyCluster_def)

section \<open>Boot resources\<close>

text \<open>The ignition secret that a configuration of a namespace names is there and has data.\<close>

definition ignitionReady :: "cluster \<Rightarrow> string \<Rightarrow> string option \<Rightarrow> bool" where
  "ignitionReady c ns ref \<longleftrightarrow>
     (case ref of
        None \<Rightarrow> True
      | Some n \<Rightarrow> (case clSecrets c (NN ns n) of
          Some x \<Rightarrow> dataIndex (secretData x) DefaultIgnitionKey \<noteq> NilBytes | None \<Rightarrow> False))"

text \<open>
  A run for a boot resource sets at most its state, to \<open>Ready\<close> when the resource is not being
  deleted and its ignition secret is usable.
\<close>

definition stateSet :: "(cluster \<Rightarrow> namespaced_name \<rightharpoonup> 'o) \<Rightarrow> (namespaced_name \<Rightarrow> 'o \<Rightarrow> cluster \<Rightarrow> cluster) \<Rightarrow>
    (string \<Rightarrow> 'o \<Rightarrow> 'o) \<Rightarrow> (cluster \<Rightarrow> 'o \<Rightarrow> bool) \<Rightarrow> namespaced_name \<Rightarrow> cluster \<Rightarrow> cluster \<Rightarrow> bool" where
  "stateSet objs put setState usable k c c' \<longleftrightarrow>
     (case objs c k of
        None \<Rightarrow> c' = c
      | Some x \<Rightarrow> c' = c \<and> \<not> usable c x \<or>
          (\<exists>st. c' = put k (setState st x) c \<and> (usable c x \<longrightarrow> st = ''Ready'')))"

definition usableHTTP :: "cluster \<Rightarrow> http_boot_config \<Rightarrow> bool" where
  "usableHTTP c x \<longleftrightarrow> metaDeletionTimestamp (httpMeta x) = None \<and>
     ignitionReady c (metaNamespace (httpMeta x)) (httpIgnitionSecretRef (httpSpec x))"

definition usableIPXE :: "cluster \<Rightarrow> ipxe_boot_config \<Rightarrow> bool" where
  "usableIPXE c x \<longleftrightarrow> metaDeletionTimestamp (ipxeMeta x) = None \<and>
     ignitionReady c (metaNamespace (ipxeMeta x)) (ipxeIgnitionSecretRef (ipxeSpec x))"

definition setHTTPState :: "string \<Rightarrow> http_boot_config \<Rightarrow> http_boot_config" where
  "setHTTPState st x = x\<lparr>httpStatus := (httpStatus x)\<lparr>httpState := st\<rparr>\<rparr>"

definition setIPXEState :: "string \<Rightarrow> ipxe_boot_config \<Rightarrow> ipxe_boot_config" where
  "setIPXEState st x = x\<lparr>ipxeStatus := (ipxeStatus x)\<lparr>ipxeState := st\<rparr>\<rparr>"

lemma ensureIgnition_runs:
  assumes "steadyCluster V E"
  shows "reaches V (httpEnsureIgnition E x) c (\<lambda>r c'. c' = c \<and>
      (ignitionReady c (metaNamespace (httpMeta x)) (httpIgnitionSecretRef (httpSpec x)) \<longrightarrow>
         r = (''Ready'', None)))"
    and "reaches V (ipxeEnsureIgnition E y) c (\<lambda>r c'. c' = c \<and>
      (ignitionReady c (metaNamespace (ipxeMeta y)) (ipxeIgnitionSecretRef (ipxeSpec y)) \<longrightarrow>
         r = (''Ready'', None)))"
proof -
  note states = HTTPBootConfigStateReady_def IPXEBootConfigStateReady_def
  have got: "reaches V (getSecret E ManagerClient (NN ns n)) c (\<lambda>got c'. c' = c \<and>
      (ignitionReady c ns (Some n) \<longrightarrow>
         (\<exists>s. got = Inr s \<and> dataIndex (secretData s) DefaultIgnitionKey \<noteq> NilBytes)))" for ns n
  proof (cases "clSecrets c (NN ns n)")
    case (Some s)
    then show ?thesis by (intro reaches_read [OF steadyD(1) [OF assms]]) (auto simp: ignitionReady_def)
  qed (intro reaches_unchanged [OF steadyD(1) [OF assms]], simp add: ignitionReady_def)
  show "reaches V (httpEnsureIgnition E x) c (\<lambda>r c'. c' = c \<and>
      (ignitionReady c (metaNamespace (httpMeta x)) (httpIgnitionSecretRef (httpSpec x)) \<longrightarrow>
         r = (''Ready'', None)))"
    by (cases "httpIgnitionSecretRef (httpSpec x)")
      (auto simp: httpEnsureIgnition_def states intro!: reaches_bind reaches_ret reaches_conseq [OF got])
  show "reaches V (ipxeEnsureIgnition E y) c (\<lambda>r c'. c' = c \<and>
      (ignitionReady c (metaNamespace (ipxeMeta y)) (ipxeIgnitionSecretRef (ipxeSpec y)) \<longrightarrow>
         r = (''Ready'', None)))"
    by (cases "ipxeIgnitionSecretRef (ipxeSpec y)")
      (auto simp: ipxeEnsureIgnition_def states intro!: reaches_bind reaches_ret reaches_conseq [OF got])
qed

lemma patchState_runs:
  assumes "steadyCluster V E"
  shows "clHTTPs c (objectKey (httpMeta x)) = Some x \<Longrightarrow>
      reaches V (httpPatchStatus E x st) c (\<lambda>err c'. err = None \<and> c' = putHTTP (objectKey (httpMeta x)) (setHTTPState st x) c)"
    and "clIPXEs c (objectKey (ipxeMeta y)) = Some y \<Longrightarrow>
      reaches V (ipxePatchStatus E y st) c (\<lambda>err c'. err = None \<and> c' = putIPXE (objectKey (ipxeMeta y)) (setIPXEState st y) c)"
proof -
  assume x: "clHTTPs c (objectKey (httpMeta x)) = Some x"
  have "setHTTPState st x = x" if "httpState (httpStatus x) = st"
    using that by (auto simp: setHTTPState_def)
  with x show "reaches V (httpPatchStatus E x st) c
      (\<lambda>err c'. err = None \<and> c' = putHTTP (objectKey (httpMeta x)) (setHTTPState st x) c)"
    unfolding httpPatchStatus_def
    by (auto simp: put_same setHTTPState_def intro!: reaches_ret reaches_patch [OF steadyD(6) [OF assms]])
next
  assume "clIPXEs c (objectKey (ipxeMeta y)) = Some y"
  then show "reaches V (ipxePatchStatus E y st) c
      (\<lambda>err c'. err = None \<and> c' = putIPXE (objectKey (ipxeMeta y)) (setIPXEState st y) c)"
    unfolding ipxePatchStatus_def
    by (auto simp: setIPXEState_def intro!: reaches_patch [OF steadyD(7) [OF assms]])
qed

lemma HTTPBootConfig_Reconcile_runs:
  assumes "steadyCluster V E" "\<And>x. clHTTPs c k = Some x \<Longrightarrow> objectKey (httpMeta x) = k"
  shows "reaches V (HTTPBootConfig_Reconcile E k) c (\<lambda>_. stateSet clHTTPs putHTTP setHTTPState usableHTTP k c)"
proof (cases "clHTTPs c k")
  case None
  then show ?thesis
    unfolding HTTPBootConfig_Reconcile_def
    by (auto simp: stateSet_def intro!: reaches_bind reaches_ret reaches_absent [OF steadyD(4) [OF assms(1)]])
next
  case (Some x)
  note k = assms(2) [OF Some]
  have run: "reaches V (httpReconcile E x) c (\<lambda>_ c'. \<exists>st. c' = putHTTP k (setHTTPState st x) c \<and>
      (usableHTTP c x \<longrightarrow> st = ''Ready''))"
    unfolding httpReconcile_def
    by (intro reaches_bind reaches_conseq [OF ensureIgnition_runs(1) [OF assms(1)]])
      (use Some k in \<open>auto simp: usableHTTP_def intro!: reaches_bind reaches_ret
        reaches_conseq [OF patchState_runs(1) [OF assms(1)]] split: option.split\<close>)
  have "reaches V (httpReconcileExists E x) c
      (\<lambda>_. stateSet clHTTPs putHTTP setHTTPState usableHTTP k c)"
  proof (cases "metaDeletionTimestamp (httpMeta x) = None")
    case True
    then show ?thesis
      unfolding httpReconcileExists_def
      by (simp, intro reaches_conseq [OF run]) (use Some in \<open>auto simp: stateSet_def\<close>)
  next
    case False
    with Some show ?thesis
      by (simp add: httpReconcileExists_def httpDelete_def reaches_ret stateSet_def usableHTTP_def)
  qed
  then show ?thesis
    unfolding HTTPBootConfig_Reconcile_def
    by (intro reaches_bind reaches_read [OF steadyD(4) [OF assms(1)] Some]) simp
qed

lemma IPXEBootConfig_Reconcile_runs:
  assumes "steadyCluster V E" "\<And>x. clIPXEs c k = Some x \<Longrightarrow> objectKey (ipxeMeta x) = k"
  shows "reaches V (IPXEBootConfig_Reconcile E k) c (\<lambda>_. stateSet clIPXEs putIPXE setIPXEState usableIPXE k c)"
proof (cases "clIPXEs c k")
  case None
  then show ?thesis
    unfolding IPXEBootConfig_Reconcile_def
    by (auto simp: stateSet_def intro!: reaches_bind reaches_ret reaches_absent [OF steadyD(5) [OF assms(1)]])
next
  case (Some x)
  note k = assms(2) [OF Some]
  have run: "reaches V (ipxeReconcile E x) c (\<lambda>_ c'. \<exists>st. c' = putIPXE k (setIPXEState st x) c \<and>
      (usableIPXE c x \<longrightarrow> st = ''Ready''))"
    unfolding ipxeReconcile_def
    by (intro reaches_bind reaches_conseq [OF ensureIgnition_runs(2) [OF assms(1)]])
      (use Some k in \<open>auto simp: usableIPXE_def intro!: reaches_bind reaches_ret
        reaches_conseq [OF patchState_runs(2) [OF assms(1)]] split: option.split\<close>)
  have "reaches V (ipxeReconcileExists E x) c
      (\<lambda>_. stateSet clIPXEs putIPXE setIPXEState usableIPXE k c)"
  proof (cases "metaDeletionTimestamp (ipxeMeta x) = None")
    case True
    then show ?thesis
      unfolding ipxeReconcileExists_def
      by (simp, intro reaches_conseq [OF run]) (use Some in \<open>auto simp: stateSet_def\<close>)
  next
    case False
    with Some show ?thesis
      by (simp add: ipxeReconcileExists_def ipxeDelete_def reaches_ret stateSet_def usableIPXE_def)
  qed
  then show ?thesis
    unfolding IPXEBootConfig_Reconcile_def
    by (intro reaches_bind reaches_read [OF steadyD(5) [OF assms(1)] Some]) simp
qed

section \<open>Boot configurations\<close>

text \<open>The state of a boot configuration after the state \<open>st\<close> of a resource was copied to it.\<close>

definition copyState :: "string \<Rightarrow> sbc_state \<Rightarrow> sbc_state" where
  "copyState st old =
     (if st = ''Ready'' then SBCStateReady else if st = ''Error'' then SBCStateError else old)"

text \<open>The conditions of a boot configuration after those of a resource in the state \<open>st\<close> were copied.\<close>

definition setAll :: "lib \<Rightarrow> condition list \<Rightarrow> condition list \<Rightarrow> condition list \<Rightarrow> bool" where
  "setAll L new old cs \<longleftrightarrow> (\<exists>times. length times = length new \<and>
     cs = foldl (\<lambda>cs tc. l_setStatusCondition L (fst tc) cs (snd tc)) old (zip times new))"

definition copiedConditions :: "lib \<Rightarrow> string \<Rightarrow> condition list \<Rightarrow> condition list \<Rightarrow> condition list \<Rightarrow> bool" where
  "copiedConditions L st new old cs \<longleftrightarrow>
     setAll L new (if st = ''Ready'' then l_removeStatusCondition L old ''ImageValidation'' else old) cs"

lemma setAll_Cons: "setAll L new (l_setStatusCondition L t old d) cs \<Longrightarrow> setAll L (d # new) old cs"
  unfolding setAll_def by (metis (no_types, lifting) fst_conv foldl_Cons length_Cons snd_conv zip_Cons_Cons)

lemma reaches_setStatusConditions:
  assumes "steadyCluster V E" "\<And>cs'. setAll L new cs cs' \<Longrightarrow> Q cs' c"
  shows "reaches V (setStatusConditions L E cs new) c Q"
  using assms(2)
proof (induction new arbitrary: cs)
  case Nil
  then show ?case by (simp add: reaches_ret setAll_def)
next
  case (Cons d new)
  then show ?case
    unfolding setStatusConditions.simps
    by (intro reaches_bind steady_now [OF assms(1)] Cons.IH) (simp add: setAll_Cons)
qed

lemma steady_patchSBC:
  assumes "steadyCluster V E" "clSBCs c k = Some b" "objectKey (sbcMeta b) = k"
    and "Q None (putSBC k (b\<lparr>sbcState := sbcState x, sbcConditions := sbcConditions x\<rparr>) c)"
  shows "reaches V (patchSBCStatus E b x) c Q"
  using assms by (auto intro: reaches_patch [OF steadyD(8) [OF assms(1)]])

definition copiesHTTP :: "lib \<Rightarrow> http_boot_config \<Rightarrow> condition list \<Rightarrow> condition list \<Rightarrow> bool" where
  "copiesHTTP L y = copiedConditions L (httpState (httpStatus y)) (httpConditions (httpStatus y))"

definition copiesIPXE :: "lib \<Rightarrow> ipxe_boot_config \<Rightarrow> condition list \<Rightarrow> condition list \<Rightarrow> bool" where
  "copiesIPXE L y = copiedConditions L (ipxeState (ipxeStatus y)) (ipxeConditions (ipxeStatus y))"

lemma transferState_runs:
  assumes "steadyCluster V E" "clSBCs c k = Some b" "objectKey (sbcMeta b) = k"
    and "\<And>cs. copiedConditions L st new (sbcConditions b) cs \<Longrightarrow>
      Q None (putSBC k (b\<lparr>sbcState := copyState st (sbcState b), sbcConditions := cs\<rparr>) c)"
  shows "reaches V (do { cs \<leftarrow> setStatusConditions L E (sbcConditions (transferState L st b)) new;
      patchSBCStatus E b ((transferState L st b)\<lparr>sbcConditions := cs\<rparr>) }) c Q"
  using assms(4) by (intro reaches_bind reaches_setStatusConditions [OF assms(1)] steady_patchSBC [OF assms(1-3)])
    (simp add: copyState_def copiedConditions_def)

lemma patchConfigState_runs:
  assumes "steadyCluster V E" "clSBCs c k = Some b" "objectKey (sbcMeta b) = k"
  shows "(\<And>cs. copiesHTTP L y (sbcConditions b) cs \<Longrightarrow>
        Q None (putSBC k (b\<lparr>sbcState := copyState (httpState (httpStatus y)) (sbcState b), sbcConditions := cs\<rparr>) c)) \<Longrightarrow>
      reaches V (patchConfigStateFromHTTPState L E y b) c Q"
    and "(\<And>cs. copiesIPXE L z (sbcConditions b) cs \<Longrightarrow>
        R None (putSBC k (b\<lparr>sbcState := copyState (ipxeState (ipxeStatus z)) (sbcState b), sbcConditions := cs\<rparr>) c)) \<Longrightarrow>
      reaches V (patchConfigStateFromIPXEState L E z b) c R"
proof -
  have k: "sbcKeyOf b = k" using assms(3) by (simp add: sbcKeyOf_def)
  note copied = transferState_runs [OF assms(1-3)]
  show "reaches V (patchConfigStateFromHTTPState L E y b) c Q"
    if "\<And>cs. copiesHTTP L y (sbcConditions b) cs \<Longrightarrow>
        Q None (putSBC k (b\<lparr>sbcState := copyState (httpState (httpStatus y)) (sbcState b), sbcConditions := cs\<rparr>) c)"
    unfolding patchConfigStateFromHTTPState_def Let_def k
    by (intro reaches_bind reaches_read [OF steadyD(3) [OF assms(1)] assms(2)])
      (simp only: sum.case, rule copied, rule that, simp add: copiesHTTP_def)
  show "reaches V (patchConfigStateFromIPXEState L E z b) c R"
    if "\<And>cs. copiesIPXE L z (sbcConditions b) cs \<Longrightarrow>
        R None (putSBC k (b\<lparr>sbcState := copyState (ipxeState (ipxeStatus z)) (sbcState b), sbcConditions := cs\<rparr>) c)"
    unfolding patchConfigStateFromIPXEState_def Let_def
    by (rule copied, rule that, simp add: copiesIPXE_def)
qed

lemma patchError_runs:
  assumes "steadyCluster V E" "clSBCs c k = Some b" "objectKey (sbcMeta b) = k"
    and "\<And>cs. Q None (putSBC k (b\<lparr>sbcState := SBCStateError, sbcConditions := cs\<rparr>) c)"
  shows "reaches V (PatchServerBootConfigWithError L E k msg) c Q"
  unfolding PatchServerBootConfigWithError_def
  by (intro reaches_bind reaches_read [OF steadyD(3) [OF assms(1)] assms(2)])
    (use assms in \<open>auto intro!: reaches_bind reaches_ret steady_now steady_patchSBC [OF assms(1)]\<close>)

lemma steady_server:
  assumes "steadyCluster V E" "clServers c (sbcServerRef b) = Some srv"
  shows "Q (Inr (serverSystemUUID srv)) c \<Longrightarrow> reaches V (getSystemUUID E b) c Q"
    "R (Inr (ExtractServerNetworkIDs srv macs)) c \<Longrightarrow> reaches V (getSystemNetworkIDs E macs b) c R"
  unfolding getSystemUUID_def getSystemNetworkIDs_def
  by (auto intro!: reaches_bind reaches_read [OF steadyD(2) [OF assms(1)] assms(2)] reaches_ret)

text \<open>What the image step of a reconciler comes to, without a change of the cluster.\<close>

definition comesTo :: "('s \<Rightarrow> cluster) \<Rightarrow> ('s, unit, 'r) io \<Rightarrow> 'r \<Rightarrow> bool" where
  "comesTo V m r \<longleftrightarrow> (\<forall>c. reaches V m c (\<lambda>r' c'. r' = r \<and> c' = c))"

lemma comesTo_reaches: "comesTo V m r \<Longrightarrow> Q r c \<Longrightarrow> reaches V m c Q"
  unfolding comesTo_def by (auto elim!: allE reaches_conseq)

text \<open>
  The effect of a run for a boot configuration \<open>b\<close> with key \<open>k\<close>: an image error is recorded;
  otherwise the resource is applied and its state copied.
\<close>

definition configured ::
  "(cluster \<Rightarrow> namespaced_name \<rightharpoonup> 'o) \<Rightarrow> (namespaced_name \<Rightarrow> 'o \<Rightarrow> cluster \<Rightarrow> cluster) \<Rightarrow>
     ('o option \<Rightarrow> 'o \<Rightarrow> 'o \<Rightarrow> bool) \<Rightarrow> ('o \<Rightarrow> string) \<Rightarrow>
     ('o \<Rightarrow> condition list \<Rightarrow> condition list \<Rightarrow> bool) \<Rightarrow> string + 'o \<Rightarrow> namespaced_name \<Rightarrow>
     server_boot_config \<Rightarrow> cluster \<Rightarrow> cluster \<Rightarrow> bool" where
  "configured objs put applied stateOf copied plan k b c c' \<longleftrightarrow>
     (case plan of
        Inl _ \<Rightarrow> \<exists>cs. c' = putSBC k (b\<lparr>sbcState := SBCStateError, sbcConditions := cs\<rparr>) c
      | Inr x \<Rightarrow> \<exists>y cs. applied (objs c k) x y \<and> copied y (sbcConditions b) cs \<and>
          c' = putSBC k (b\<lparr>sbcState := copyState (stateOf y) (sbcState b), sbcConditions := cs\<rparr>) (put k y c))"

definition plannedHTTP :: "server_boot_config \<Rightarrow> server \<Rightarrow> string \<Rightarrow> object_meta \<Rightarrow> http_boot_config" where
  "plannedHTTP b srv u meta = (newHTTPBootConfig b (serverSystemUUID srv)
     (ExtractServerNetworkIDs srv True) u)\<lparr>httpMeta := meta\<rparr>"

definition plannedIPXE ::
  "server_boot_config \<Rightarrow> server \<Rightarrow> string \<times> string \<times> string \<Rightarrow> object_meta \<Rightarrow> ipxe_boot_config" where
  "plannedIPXE b srv urls meta = (newIPXEBootConfig b (serverSystemUUID srv)
     (ExtractServerNetworkIDs srv False) urls)\<lparr>ipxeMeta := meta\<rparr>"

lemma configuredI:
  "configured objs put applied stateOf copied (Inl err) k b c
     (putSBC k (b\<lparr>sbcState := SBCStateError, sbcConditions := cs\<rparr>) c)"
  "applied (objs c k) x y \<Longrightarrow> copied y (sbcConditions b) cs \<Longrightarrow> configured objs put applied stateOf copied (Inr x) k b c
     (putSBC k (b\<lparr>sbcState := copyState (stateOf y) (sbcState b), sbcConditions := cs\<rparr>) (put k y c))"
  by (auto simp: configured_def)

lemma HTTP_Reconcile_runs:
  fixes E :: "'s env"
  assumes "steadyCluster V E" "clSBCs c k = Some b" "objectKey (sbcMeta b) = k"
    and "metaDeletionTimestamp (sbcMeta b) = None" "clServers c (sbcServerRef b) = Some srv"
    and "l_setControllerReference L b (configMeta b) = Inr meta" "objectKey meta = k"
    and "comesTo V (constructUKIURL L E r (sbcImage b)) found"
  shows "reaches V (ServerBootConfigurationHTTP_Reconcile L E r k :: ('s, unit, sbc_error option) io) c
    (\<lambda>_. configured clHTTPs putHTTP appliedHTTP (\<lambda>y. httpState (httpStatus y)) (copiesHTTP L)
      (map_sum id (\<lambda>u. plannedHTTP b srv u meta) found) k b c)"
proof -
  have k: "sbcKeyOf b = k" using assms(3) by (simp add: sbcKeyOf_def)
  note srv = steady_server [OF assms(1,5)]
  have "reaches V (httpBootReconcile L E r b :: ('s, unit, sbc_error option) io) c
    (\<lambda>_. configured clHTTPs putHTTP appliedHTTP (\<lambda>y. httpState (httpStatus y)) (copiesHTTP L)
      (map_sum id (\<lambda>u. plannedHTTP b srv u meta) found) k b c)"
  proof (cases found)
    case (Inl err)
    then show ?thesis
      unfolding httpBootReconcile_def Let_def k
      by (intro reaches_bind srv) (auto intro!: reaches_bind srv reaches_ret comesTo_reaches [OF assms(8)]
          patchError_runs [OF assms(1-3)] configuredI)
  next
    case (Inr u)
    let ?x = "plannedHTTP b srv u meta"
    let ?Q = "\<lambda>_. configured clHTTPs putHTTP appliedHTTP (\<lambda>y. httpState (httpStatus y)) (copiesHTTP L) (Inr ?x) k b c"
    have applied: "reaches V (applyHTTP E ow ?x) c R"
      if "\<And>y. appliedHTTP (clHTTPs c k) ?x y \<Longrightarrow> R None (putHTTP k y c)" for ow R
    proof (rule reaches_apply [OF steadyD(9) [OF assms(1)]])
      show "httpConforms ?x" by (simp add: plannedHTTP_def httpConforms_def newHTTPBootConfig_def)
    qed (use that assms(7) in \<open>simp add: plannedHTTP_def\<close>)
    have rest: "reaches V (do {
        got \<leftarrow> getHTTP E ManagerClient k;
        (case got of
           Inl err \<Rightarrow> ret (Some (GetConfigFailed err))
         | Inr config \<Rightarrow> do {
             perr \<leftarrow> patchConfigStateFromHTTPState L E config b;
             ret (map_option PatchStateFailed perr) }) }) (putHTTP k y c) ?Q"
      if "appliedHTTP (clHTTPs c k) ?x y" for y
      by (intro reaches_bind reaches_read [OF steadyD(4) [OF assms(1)], where x = y])
        (use that assms(2,3) Inr in \<open>auto intro!: reaches_bind reaches_ret patchConfigState_runs(1) [OF assms(1)]
          configuredI\<close>)
    show ?thesis
      unfolding httpBootReconcile_def Let_def k
      by (intro reaches_bind srv)
        (auto simp: Inr assms(6) plannedHTTP_def [symmetric] intro!: reaches_bind srv reaches_ret rest applied
          comesTo_reaches [OF assms(8)])
  qed
  then show ?thesis
    unfolding ServerBootConfigurationHTTP_Reconcile_def
    using assms(4) by (intro reaches_bind reaches_read [OF steadyD(3) [OF assms(1)] assms(2)]) simp
qed

lemma PXE_Reconcile_runs:
  fixes E :: "'s env"
  assumes "steadyCluster V E" "clSBCs c k = Some b" "objectKey (sbcMeta b) = k"
    and "metaDeletionTimestamp (sbcMeta b) = None" "clServers c (sbcServerRef b) = Some srv"
    and "l_setControllerReference L b (configMeta b) = Inr meta" "objectKey meta = k"
    and "comesTo V (getImageDetailsFromConfig L E r b) found"
    and "\<And>urls. found = Inr urls \<Longrightarrow> ipxeConforms (plannedIPXE b srv urls meta)"
  shows "reaches V (ServerBootConfigurationPXE_Reconcile L E r k :: ('s, unit, sbc_error option) io) c
    (\<lambda>_. configured clIPXEs putIPXE appliedIPXE (\<lambda>y. ipxeState (ipxeStatus y)) (copiesIPXE L)
      (map_sum id (\<lambda>urls. plannedIPXE b srv urls meta) found) k b c)"
proof -
  have k: "sbcKeyOf b = k" using assms(3) by (simp add: sbcKeyOf_def)
  note srv = steady_server [OF assms(1,5)]
  have "reaches V (pxeReconcile L E r b :: ('s, unit, sbc_error option) io) c
    (\<lambda>_. configured clIPXEs putIPXE appliedIPXE (\<lambda>y. ipxeState (ipxeStatus y)) (copiesIPXE L)
      (map_sum id (\<lambda>urls. plannedIPXE b srv urls meta) found) k b c)"
  proof (cases found)
    case (Inl err)
    then show ?thesis
      unfolding pxeReconcile_def Let_def k
      by (intro reaches_bind srv) (auto intro!: reaches_bind srv reaches_ret comesTo_reaches [OF assms(8)]
          patchError_runs [OF assms(1-3)] configuredI)
  next
    case (Inr urls)
    let ?x = "plannedIPXE b srv urls meta"
    let ?Q = "\<lambda>_. configured clIPXEs putIPXE appliedIPXE (\<lambda>y. ipxeState (ipxeStatus y)) (copiesIPXE L) (Inr ?x) k b c"
    have applied: "reaches V (applyIPXE E ow ?x) c R"
      if "\<And>y. appliedIPXE (clIPXEs c k) ?x y \<Longrightarrow> R None (putIPXE k y c)" for ow R
      by (rule reaches_apply [OF steadyD(10) [OF assms(1)]], rule assms(9) [OF Inr])
        (use that assms(7) in \<open>simp add: plannedIPXE_def\<close>)
    have rest: "reaches V (do {
        got \<leftarrow> getIPXE E ManagerClient k;
        (case got of
           Inl err \<Rightarrow> ret (Some (GetConfigFailed err))
         | Inr config \<Rightarrow> do {
             perr \<leftarrow> patchConfigStateFromIPXEState L E config b;
             ret (map_option PatchStateFailed perr) }) }) (putIPXE k y c) ?Q"
      if "appliedIPXE (clIPXEs c k) ?x y" for y
      by (intro reaches_bind reaches_read [OF steadyD(5) [OF assms(1)], where x = y])
        (use that assms(2,3) Inr in \<open>auto intro!: reaches_bind reaches_ret patchConfigState_runs(2) [OF assms(1)]
          configuredI\<close>)
    show ?thesis
      unfolding pxeReconcile_def Let_def k
      by (intro reaches_bind srv)
        (auto simp: Inr assms(6) plannedIPXE_def [symmetric] intro!: reaches_bind srv reaches_ret rest applied
          comesTo_reaches [OF assms(8)])
  qed
  then show ?thesis
    unfolding ServerBootConfigurationPXE_Reconcile_def
    using assms(4) by (intro reaches_bind reaches_read [OF steadyD(3) [OF assms(1)] assms(2)]) simp
qed

section \<open>The registry\<close>

text \<open>A call that answers \<open>a\<close> and does not change the cluster.\<close>

definition yields :: "('s \<Rightarrow> cluster) \<Rightarrow> ('s \<Rightarrow> 'r \<times> 's) \<Rightarrow> 'r \<Rightarrow> bool" where
  "yields V f a \<longleftrightarrow> (\<forall>s. fst (f s) = a \<and> V (snd (f s)) = V s)"

text \<open>The registry holds the reference under a single manifest \<open>m\<close>.\<close>

definition registryHolds ::
  "lib \<Rightarrow> ('s \<Rightarrow> cluster) \<Rightarrow> 's env \<Rightarrow> string \<Rightarrow> manifest \<Rightarrow> bool" where
  "registryHolds L V E ref m \<longleftrightarrow>
     (\<exists>resolved desc data. yields V (e_resolve E ref) (Inr (resolved, desc)) \<and>
        yields V (e_fetcher E resolved) None \<and> yields V (e_fetch E resolved desc) None \<and>
        yields V (e_readContent E resolved desc) (Inr data) \<and> yields V (e_closeReader E resolved desc) () \<and>
        int (length data) = descSize desc \<and> descMediaType desc \<noteq> l_mediaTypeImageIndex L \<and>
        l_decodeManifest L data = Inr m)"

lemma reaches_yields: "yields V f a \<Longrightarrow> Q a c \<Longrightarrow> reaches V (ext_call f ev) c Q"
  by (rule reaches_call) (simp add: yields_def)

text \<open>The image of a boot configuration: its name and version, admitted by an allow list.\<close>

definition imageHeld ::
  "lib \<Rightarrow> ('s \<Rightarrow> cluster) \<Rightarrow> 's env \<Rightarrow> validator \<Rightarrow> string \<Rightarrow> string \<Rightarrow> string \<Rightarrow> manifest \<Rightarrow> bool" where
  "imageHeld L V E v img name version m \<longleftrightarrow>
     ParseImageReference L img = Inr (name, version) \<and>
     ValidateImageRegistry L v (BuildImageReference name version) = None \<and>
     registryHolds L V E (BuildImageReference name version) m"

lemma manifest_reaches:
  fixes E :: "'s env"
  assumes "registryHolds L V E ref m"
  obtains resolved desc where "yields V (e_resolve E ref) (Inr (resolved, desc))"
    "\<And>arch opts c Q. Q (Inr m) c \<Longrightarrow>
      reaches V (FindManifestByArchitecture L E resolved desc arch opts :: ('s, unit, string + manifest) io) c Q"
proof -
  obtain resolved desc data where
    y: "yields V (e_resolve E ref) (Inr (resolved, desc))"
      "yields V (e_fetcher E resolved) None" "yields V (e_fetch E resolved desc) None"
      "yields V (e_readContent E resolved desc) (Inr data)" "yields V (e_closeReader E resolved desc) ()"
    and d: "int (length data) = descSize desc" "descMediaType desc \<noteq> l_mediaTypeImageIndex L"
      "l_decodeManifest L data = Inr m"
    using assms unfolding registryHolds_def by blast
  have content: "reaches V (FetchContent E resolved desc) c (\<lambda>res c'. res = Inr data \<and> c' = c)" for c
    unfolding FetchContent_def by (auto simp: d intro!: reaches_bind reaches_ret y [THEN reaches_yields])
  have "reaches V (FindManifestByArchitecture L E resolved desc arch opts :: ('s, unit, string + manifest) io) c Q" if "Q (Inr m) c" for arch opts c Q
    unfolding FindManifestByArchitecture_def Let_def
    using that by (auto simp: d intro!: reaches_bind reaches_ret reaches_conseq [OF content])
  with y(1) that show thesis by blast
qed

definition pxeURLsOf :: "pxe_reconciler \<Rightarrow> string \<Rightarrow> string \<Rightarrow> manifest \<Rightarrow> string \<times> string \<times> string" where
  "pxeURLsOf r name version m =
     (pxeURL r name version (lastDigest {MediaTypeKernel, MediaTypeKernelOld} m),
      pxeURL r name version (lastDigest {MediaTypeInitrd, MediaTypeInitrdOld} m),
      pxeURL r name version (lastDigest {MediaTypeSquashFS, MediaTypeSquashFSOld} m))"

text \<open>The UKI URL of an image, or the error of an image without a UKI layer.\<close>

definition ukiOutcome :: "http_reconciler \<Rightarrow> string \<Rightarrow> manifest \<Rightarrow> string + string" where
  "ukiOutcome r name m =
     (case findUKILayer m of
        Inl err \<Rightarrow> Inl (''failed to fetch UKI layer digest: '' @ err)
      | Inr digest \<Rightarrow> Inr (ukiFileURL (hrImageServerURL r) name digest))"

lemma imageHeld_uki:
  fixes E :: "'s env"
  assumes "imageHeld L V E (hrRegistryValidator r) img name version m"
  shows "comesTo V (constructUKIURL L E r img) (ukiOutcome r name m)"
proof -
  have p: "ParseImageReference L img = Inr (name, version)"
    "ValidateImageRegistry L (hrRegistryValidator r) (BuildImageReference name version) = None"
    and h: "registryHolds L V E (BuildImageReference name version) m"
    using assms by (simp_all add: imageHeld_def)
  obtain resolved desc where y: "yields V (e_resolve E (BuildImageReference name version)) (Inr (resolved, desc))"
    and m: "\<And>arch opts c Q. Q (Inr m) c \<Longrightarrow>
      reaches V (FindManifestByArchitecture L E resolved desc arch opts :: ('s, unit, string + manifest) io) c Q"
    using manifest_reaches [OF h] by blast
  show ?thesis
    unfolding comesTo_def constructUKIURL_def httpUKIDigest_def ukiOutcome_def Let_def
    by (auto simp: p ukiFileURL_def intro!: reaches_bind reaches_ret reaches_yields [OF y] m split: sum.split)
qed

lemma imageHeld_pxe:
  fixes E :: "'s env"
  assumes "imageHeld L V E (pxeRegistryValidator r) (sbcImage b) name version m"
  shows "comesTo V (getImageDetailsFromConfig L E r b) (Inr (pxeURLsOf r name version m))"
proof -
  have p: "ParseImageReference L (sbcImage b) = Inr (name, version)"
    "ValidateImageRegistry L (pxeRegistryValidator r) (BuildImageReference name version) = None"
    and h: "registryHolds L V E (BuildImageReference name version) m"
    using assms by (simp_all add: imageHeld_def)
  obtain resolved desc where y: "yields V (e_resolve E (BuildImageReference name version)) (Inr (resolved, desc))"
    and m: "\<And>arch opts c Q. Q (Inr m) c \<Longrightarrow>
      reaches V (FindManifestByArchitecture L E resolved desc arch opts :: ('s, unit, string + manifest) io) c Q"
    using manifest_reaches [OF h] by blast
  show ?thesis
    unfolding comesTo_def getImageDetailsFromConfig_def getLayerDigestsFromNestedManifest_def Let_def
    by (auto simp: p pxeURLsOf_def foldl_layerStep intro!: reaches_bind reaches_ret reaches_yields [OF y] m)
qed

end
