(* ===== verification/Paths.thy ===== *)
theory Paths
  imports Convergence
begin

text \<open>
  The two boot paths of a boot configuration, seen alike: each path has a resource of the
  configuration's name, a controller that configures it and one that sets its state. What the
  controllers owe each other is stated and proved over this view.
\<close>

section \<open>Paths, resources and controllers\<close>

datatype boot_path = HTTPPath | PXEPath

datatype controller = ConfigController boot_path | ResourceController boot_path

datatype boot_spec = HTTPSpec http_boot_config_spec | IPXESpec ipxe_boot_config_spec

fun specIgnition :: "boot_spec \<Rightarrow> string option" where
  "specIgnition (HTTPSpec s) = httpIgnitionSecretRef s"
| "specIgnition (IPXESpec s) = ipxeIgnitionSecretRef s"

record resource =
  rsType :: gvk
  rsMeta :: object_meta
  rsSpec :: boot_spec
  rsState :: string
  rsConditions :: "condition list"

definition viewHTTPResource :: "http_boot_config \<Rightarrow> resource" where
  "viewHTTPResource y = \<lparr>rsType = httpType y, rsMeta = httpMeta y, rsSpec = HTTPSpec (httpSpec y), rsState = httpState (httpStatus y),
     rsConditions = httpConditions (httpStatus y)\<rparr>"

definition viewIPXEResource :: "ipxe_boot_config \<Rightarrow> resource" where
  "viewIPXEResource y = \<lparr>rsType = ipxeType y, rsMeta = ipxeMeta y, rsSpec = IPXESpec (ipxeSpec y), rsState = ipxeState (ipxeStatus y),
     rsConditions = ipxeConditions (ipxeStatus y)\<rparr>"

fun resourceAt :: "boot_path \<Rightarrow> namespaced_name \<Rightarrow> cluster \<Rightarrow> resource option" where
  "resourceAt HTTPPath k c = map_option viewHTTPResource (clHTTPs c k)"
| "resourceAt PXEPath k c = map_option viewIPXEResource (clIPXEs c k)"

text \<open>
  A boot configuration that is to be booted on a server over some paths: what each path's
  controller makes of its image, an error or the specification of the resource, and the metadata
  that the resources are applied with. The flag \<open>controller\<close> of an owner reference, which the
  program does not look at, is \<open>bcIsCtl\<close>.
\<close>

record boot_case =
  bcConfig :: server_boot_config
  bcServer :: server
  bcPaths :: "boot_path list"
  bcPlan :: "boot_path \<Rightarrow> string + boot_spec"
  bcIsCtl :: "owner_reference \<Rightarrow> bool"
  bcMeta :: object_meta
  bcLib :: lib

abbreviation bcKey :: "boot_case \<Rightarrow> namespaced_name" where
  "bcKey g \<equiv> objectKey (sbcMeta (bcConfig g))"

definition withStatus :: "server_boot_config \<Rightarrow> sbc_state \<Rightarrow> condition list \<Rightarrow> server_boot_config" where
  "withStatus x st cs = x\<lparr>sbcState := st, sbcConditions := cs\<rparr>"

definition configState :: "boot_case \<Rightarrow> cluster \<Rightarrow> sbc_state" where
  "configState g c = (case clSBCs c (bcKey g) of Some b \<Rightarrow> sbcState b | None \<Rightarrow> SBCStateOther [])"

definition configConditions :: "boot_case \<Rightarrow> cluster \<Rightarrow> condition list" where
  "configConditions g c = (case clSBCs c (bcKey g) of Some b \<Rightarrow> sbcConditions b | None \<Rightarrow> [])"

definition controls :: "boot_case \<Rightarrow> object_meta \<Rightarrow> bool" where
  "controls g m \<longleftrightarrow> list_ex (\<lambda>ref. bcIsCtl g ref \<and> orKind ref = serverBootConfigurationKind \<and>
     orName ref = metaName (sbcMeta (bcConfig g))) (metaOwnerReferences m)"

definition wanted :: "boot_case \<Rightarrow> boot_path \<Rightarrow> resource \<Rightarrow> bool" where
  "wanted g p y \<longleftrightarrow> bcPlan g p = Inr (rsSpec y) \<and> controls g (rsMeta y)"

text \<open>The server, the ignition secret and the configuration are there, and nothing is in the way.\<close>

definition bootable :: "boot_case \<Rightarrow> cluster \<Rightarrow> bool" where
  "bootable g c \<longleftrightarrow>
     (case clSBCs c (bcKey g) of
        Some b \<Rightarrow> b = withStatus (bcConfig g) (sbcState b) (sbcConditions b) | None \<Rightarrow> False) \<and>
     clServers c (sbcServerRef (bcConfig g)) = Some (bcServer g) \<and>
     ignitionReady c (metaNamespace (sbcMeta (bcConfig g))) (sbcIgnitionSecretRef (bcConfig g)) \<and>
     (\<forall>p. case resourceAt p (bcKey g) c of
        Some y \<Rightarrow> objectKey (rsMeta y) = bcKey g \<and> metaDeletionTimestamp (rsMeta y) = None | None \<Rightarrow> True)"

text \<open>The specifications that the controllers plan name the configuration's ignition secret.\<close>

definition plansIgnition :: "boot_case \<Rightarrow> bool" where
  "plansIgnition g \<longleftrightarrow> (\<forall>p. case bcPlan g p of
     Inr spec \<Rightarrow> specIgnition spec = sbcIgnitionSecretRef (bcConfig g) | Inl _ \<Rightarrow> True)"

section \<open>What a run does\<close>

definition touchesOnly :: "boot_path \<Rightarrow> namespaced_name \<Rightarrow> cluster \<Rightarrow> cluster \<Rightarrow> bool" where
  "touchesOnly p k c c' \<longleftrightarrow> clSecrets c' = clSecrets c \<and> clServers c' = clServers c \<and>
     (\<forall>q k'. (q = p \<and> k' = k) \<or> resourceAt q k' c' = resourceAt q k' c)"

definition usable :: "cluster \<Rightarrow> resource \<Rightarrow> bool" where
  "usable c y \<longleftrightarrow> metaDeletionTimestamp (rsMeta y) = None \<and>
     ignitionReady c (metaNamespace (rsMeta y)) (specIgnition (rsSpec y))"

definition resourceRan :: "boot_path \<Rightarrow> namespaced_name \<Rightarrow> cluster \<Rightarrow> cluster \<Rightarrow> bool" where
  "resourceRan p k c c' \<longleftrightarrow> touchesOnly p k c c' \<and> clSBCs c' = clSBCs c \<and>
     (case resourceAt p k c of
        None \<Rightarrow> resourceAt p k c' = None
      | Some y \<Rightarrow> \<exists>st. resourceAt p k c' = Some (y\<lparr>rsState := st\<rparr>) \<and> (usable c y \<longrightarrow> st = ''Ready''))"

definition asPlanned :: "boot_case \<Rightarrow> resource option \<Rightarrow> boot_spec \<Rightarrow> resource \<Rightarrow> bool" where
  "asPlanned g old spec y \<longleftrightarrow> rsSpec y = spec \<and> controls g (rsMeta y) \<and>
     objectKey (rsMeta y) = bcKey g \<and> appliedMeta (map_option rsMeta old) (bcMeta g) (rsMeta y) \<and>
     rsState y = (case old of Some z \<Rightarrow> rsState z | None \<Rightarrow> []) \<and>
     rsConditions y = (case old of Some z \<Rightarrow> rsConditions z | None \<Rightarrow> []) \<and>
     (case old of Some z \<Rightarrow> rsSpec z \<noteq> spec \<or> \<not> holdsMeta (bcMeta g) (rsMeta z) \<or> y = z | None \<Rightarrow> True)"

definition configRan :: "boot_case \<Rightarrow> boot_path \<Rightarrow> cluster \<Rightarrow> cluster \<Rightarrow> bool" where
  "configRan g p c c' \<longleftrightarrow> touchesOnly p (bcKey g) c c' \<and>
     (case bcPlan g p of
        Inl _ \<Rightarrow> resourceAt p (bcKey g) c' = resourceAt p (bcKey g) c \<and>
          (\<exists>cs. clSBCs c' = (clSBCs c)(bcKey g \<mapsto> withStatus (bcConfig g) SBCStateError cs))
      | Inr spec \<Rightarrow> \<exists>y cs. resourceAt p (bcKey g) c' = Some y \<and>
          asPlanned g (resourceAt p (bcKey g) c) spec y \<and>
          copiedConditions (bcLib g) (rsState y) (rsConditions y) (configConditions g c) cs \<and>
          clSBCs c' = (clSBCs c)(bcKey g \<mapsto>
            withStatus (bcConfig g) (copyState (rsState y) (configState g c)) cs))"

fun controllerRan :: "boot_case \<Rightarrow> controller \<Rightarrow> cluster \<Rightarrow> cluster \<Rightarrow> bool" where
  "controllerRan g (ConfigController p) c c' = configRan g p c c'"
| "controllerRan g (ResourceController p) c c' = resourceRan p (bcKey g) c c'"

section \<open>Stages\<close>

text \<open>How far a path has come: the resource is as planned, and it is \<open>Ready\<close>.\<close>

datatype stage = Requested | Applied | ResourceReady

fun rank :: "stage \<Rightarrow> nat" where
  "rank Requested = 0"
| "rank Applied = 1"
| "rank ResourceReady = 2"

lemma rank_inj: "rank a = rank b \<Longrightarrow> a = b"
  by (cases a; cases b) simp_all

lemma rank_le: "rank a \<le> 2"
  by (cases a) simp_all

instantiation stage :: linorder
begin

definition less_eq_stage :: "stage \<Rightarrow> stage \<Rightarrow> bool" where "less_eq_stage a b \<longleftrightarrow> rank a \<le> rank b"
definition less_stage :: "stage \<Rightarrow> stage \<Rightarrow> bool" where "less_stage a b \<longleftrightarrow> rank a < rank b"

instance
  by standard (auto simp: less_eq_stage_def less_stage_def intro: rank_inj)

end

definition pathStage :: "boot_case \<Rightarrow> boot_path \<Rightarrow> cluster \<Rightarrow> stage" where
  "pathStage g p c =
     (case resourceAt p (bcKey g) c of
        None \<Rightarrow> Requested
      | Some y \<Rightarrow> if \<not> wanted g p y then Requested
          else if rsState y = ''Ready'' then ResourceReady else Applied)"

lemma pathStage_planned: "pathStage g p c \<noteq> Requested \<Longrightarrow> \<exists>spec. bcPlan g p = Inr spec"
  by (auto simp: pathStage_def wanted_def split: option.splits if_splits)

lemma bootable_config:
  assumes "bootable g c"
  obtains cs where "clSBCs c (bcKey g) = Some (withStatus (bcConfig g) (configState g c) cs)"
  using assms by (auto simp: bootable_def configState_def split: option.splits)

lemma bootable_resource:
  "bootable g c \<Longrightarrow> resourceAt p (bcKey g) c = Some y \<Longrightarrow>
     objectKey (rsMeta y) = bcKey g \<and> metaDeletionTimestamp (rsMeta y) = None"
  by (auto simp: bootable_def dest: spec [where x = p])

lemma withStatus_state [simp]:
  "sbcState (withStatus x st cs) = st" "sbcConditions (withStatus x st cs) = cs"
  by (simp_all add: withStatus_def)

text \<open>The other path is left alone.\<close>

lemma touchesOnly_resource:
  "touchesOnly p k c c' \<Longrightarrow> q \<noteq> p \<or> k' \<noteq> k \<Longrightarrow> resourceAt q k' c' = resourceAt q k' c"
  unfolding touchesOnly_def by blast

lemma touchesOnly_stage: "touchesOnly p (bcKey g) c c' \<Longrightarrow> q \<noteq> p \<Longrightarrow> pathStage g q c' = pathStage g q c"
  by (simp add: pathStage_def touchesOnly_resource)

lemma wanted_usable:
  assumes "bootable g c" "plansIgnition g" "resourceAt p (bcKey g) c = Some y" "wanted g p y"
  shows "usable c y"
proof -
  have "specIgnition (rsSpec y) = sbcIgnitionSecretRef (bcConfig g)"
    using assms(2,4) by (auto simp: wanted_def plansIgnition_def dest: spec [where x = p])
  moreover have "metaNamespace (rsMeta y) = metaNamespace (sbcMeta (bcConfig g))"
    using bootable_resource [OF assms(1,3)] by (simp add: objectKey_def)
  ultimately show ?thesis
    using bootable_resource [OF assms(1,3)] assms(1) by (simp add: usable_def bootable_def)
qed

lemma resourceRan_stage:
  assumes "resourceRan p (bcKey g) c c'" "bootable g c" "plansIgnition g"
  shows "configState g c' = configState g c"
    and "pathStage g p c' = (if pathStage g p c = Requested then Requested else ResourceReady)"
proof -
  show "configState g c' = configState g c"
    using assms(1) by (simp add: resourceRan_def configState_def)
  show "pathStage g p c' = (if pathStage g p c = Requested then Requested else ResourceReady)"
  proof (cases "resourceAt p (bcKey g) c")
    case None
    with assms(1) show ?thesis by (simp add: resourceRan_def pathStage_def)
  next
    case (Some y)
    with assms(1) obtain st where st: "resourceAt p (bcKey g) c' = Some (y\<lparr>rsState := st\<rparr>)" "usable c y \<longrightarrow> st = ''Ready''"
      by (auto simp: resourceRan_def)
    have w: "wanted g p (y\<lparr>rsState := st\<rparr>) = wanted g p y" by (simp add: wanted_def)
    have "usable c y" if "wanted g p y" by (rule wanted_usable [OF assms(2,3) Some that])
    with st Some w show ?thesis by (auto simp: pathStage_def)
  qed
qed

lemma configRan_stage:
  assumes "configRan g p c c'" "bcPlan g p = Inr spec"
  shows "pathStage g p c' \<noteq> Requested" "pathStage g p c \<le> pathStage g p c'"
    and "pathStage g p c' = ResourceReady \<Longrightarrow> configState g c' = SBCStateReady"
proof -
  obtain y cs where y: "resourceAt p (bcKey g) c' = Some y" "asPlanned g (resourceAt p (bcKey g) c) spec y"
    "clSBCs c' (bcKey g) = Some (withStatus (bcConfig g) (copyState (rsState y) (configState g c)) cs)"
    using assms by (auto simp: configRan_def)
  then have w: "wanted g p y" using assms(2) by (simp add: wanted_def asPlanned_def)
  then show "pathStage g p c' \<noteq> Requested" using y(1) by (simp add: pathStage_def)
  show "pathStage g p c \<le> pathStage g p c'"
    using y w by (auto simp: pathStage_def asPlanned_def less_eq_stage_def split: option.splits)
  show "pathStage g p c' = ResourceReady \<Longrightarrow> configState g c' = SBCStateReady"
    using y w by (auto simp: pathStage_def configState_def copyState_def split: if_splits)
qed

lemma configRan_failed:
  assumes "configRan g p c c'" "bcPlan g p = Inl err"
  shows "configState g c' = SBCStateError" "pathStage g q c' = pathStage g q c"
    and "resourceAt q (bcKey g) c' = resourceAt q (bcKey g) c"
proof -
  show "configState g c' = SBCStateError" using assms by (auto simp: configRan_def configState_def)
  show "resourceAt q (bcKey g) c' = resourceAt q (bcKey g) c"
    using assms by (auto simp: configRan_def touchesOnly_def)
  then show "pathStage g q c' = pathStage g q c" by (simp add: pathStage_def)
qed

lemma ran_touchesOnly: "controllerRan g k c c' \<Longrightarrow> touchesOnly (case k of ConfigController p \<Rightarrow> p | ResourceController p \<Rightarrow> p) (bcKey g) c c'"
  by (cases k) (simp_all add: configRan_def resourceRan_def)

lemma ran_bootable:
  assumes "controllerRan g k c c'" "bootable g c"
  shows "bootable g c'"
proof -
  have frame: "clSecrets c' = clSecrets c" "clServers c' = clServers c"
    using ran_touchesOnly [OF assms(1)] by (simp_all add: touchesOnly_def)
  have sbc: "\<exists>st cs. clSBCs c' (bcKey g) = Some (withStatus (bcConfig g) st cs)"
  proof (cases k)
    case (ConfigController p)
    with assms(1) show ?thesis
      by (cases "bcPlan g p") (simp_all add: configRan_def, (metis fun_upd_same)+)
  next
    case (ResourceController p)
    with assms(1) have "clSBCs c' = clSBCs c" by (simp add: resourceRan_def)
    then show ?thesis by (metis bootable_config [OF assms(2)])
  qed
  have "case resourceAt p (bcKey g) c' of
      Some y \<Rightarrow> objectKey (rsMeta y) = bcKey g \<and> metaDeletionTimestamp (rsMeta y) = None | None \<Rightarrow> True" for p
  proof (cases "resourceAt p (bcKey g) c' = resourceAt p (bcKey g) c")
    case True
    with bootable_resource [OF assms(2), of p] show ?thesis by (auto split: option.split)
  next
    case False
    with touchesOnly_resource [OF ran_touchesOnly [OF assms(1)], of p "bcKey g"]
    have p: "k = ConfigController p \<or> k = ResourceController p" by (cases k) auto
    then show ?thesis
    proof
      assume "k = ResourceController p"
      with assms(1) False show ?thesis
        by (cases "resourceAt p (bcKey g) c") (auto simp: resourceRan_def dest: bootable_resource [OF assms(2)])
    next
      assume "k = ConfigController p"
      with assms(1) False show ?thesis
        by (cases "bcPlan g p"; cases "resourceAt p (bcKey g) c")
          (auto simp: configRan_def asPlanned_def appliedMeta_def dest: bootable_resource [OF assms(2)])
    qed
  qed
  moreover have "ignitionReady c' = ignitionReady c" unfolding fun_eq_iff ignitionReady_def frame by simp
  ultimately show ?thesis using sbc assms(2) frame by (auto simp: bootable_def)
qed

section \<open>Pending requests\<close>

text \<open>The controller that has something to do for a path, and must have a request pending.\<close>

definition pending :: "boot_case \<Rightarrow> cluster \<Rightarrow> boot_path \<Rightarrow> controller option" where
  "pending g c p =
     (case bcPlan g p of
        Inl _ \<Rightarrow> if configState g c = SBCStateError then None else Some (ConfigController p)
      | Inr _ \<Rightarrow>
          (case pathStage g p c of
             Requested \<Rightarrow> Some (ConfigController p)
           | Applied \<Rightarrow> Some (ResourceController p)
           | ResourceReady \<Rightarrow> if configState g c = SBCStateReady then None else Some (ConfigController p)))"

definition live :: "boot_case \<Rightarrow> controller set \<Rightarrow> cluster \<Rightarrow> bool" where
  "live g Q c \<longleftrightarrow> (\<forall>p \<in> set (bcPaths g). set_option (pending g c p) \<subseteq> Q)"

definition controllersOf :: "boot_path list \<Rightarrow> controller list" where
  "controllersOf ps = concat (map (\<lambda>p. [ConfigController p, ResourceController p]) ps)"

lemma set_controllersOf [simp]: "set (controllersOf ps) = ConfigController ` set ps \<union> ResourceController ` set ps"
  by (induction ps) (auto simp: controllersOf_def)

lemma pending_controllers: "p \<in> set ps \<Longrightarrow> pending g c p = Some k \<Longrightarrow> k \<in> set (controllersOf ps)"
  by (auto simp: pending_def split: sum.splits stage.splits if_splits)

lemma live_all: "set (controllersOf (bcPaths g)) \<subseteq> Q \<Longrightarrow> live g Q c"
  by (auto simp: live_def simp del: set_controllersOf dest: pending_controllers)

text \<open>
  What the watches must do: a changed resource wakes its own controller and, through its owner
  reference, the controller of the boot configuration; a changed boot configuration wakes the
  controllers for it of all paths.
\<close>

definition wakes :: "boot_case \<Rightarrow> controller set \<Rightarrow> cluster \<Rightarrow> cluster \<Rightarrow> bool" where
  "wakes g W c c' \<longleftrightarrow> (\<forall>p \<in> set (bcPaths g).
     (case resourceAt p (bcKey g) c' of
        None \<Rightarrow> True
      | Some y \<Rightarrow> resourceAt p (bcKey g) c = Some y \<or>
          ResourceController p \<in> W \<and> (\<not> controls g (rsMeta y) \<or> ConfigController p \<in> W)) \<and>
     (configState g c' = configState g c \<or> ConfigController p \<in> W))"

lemma wakes_stage:
  assumes "wakes g W c c'" "p \<in> set (bcPaths g)" "pathStage g p c' \<noteq> pathStage g p c" "pathStage g p c' \<noteq> Requested"
  shows "ResourceController p \<in> W" "ConfigController p \<in> W"
proof -
  obtain y where y: "resourceAt p (bcKey g) c' = Some y" "wanted g p y"
    using assms(4) by (auto simp: pathStage_def split: option.splits if_splits)
  have "resourceAt p (bcKey g) c \<noteq> Some y"
    using assms(3) y(1) by (auto simp: pathStage_def)
  with assms(1,2) y show "ResourceController p \<in> W" "ConfigController p \<in> W"
    by (auto simp: wakes_def wanted_def dest!: bspec)
qed

lemma wakes_state:
  "wakes g W c c' \<Longrightarrow> p \<in> set (bcPaths g) \<Longrightarrow> configState g c' \<noteq> configState g c \<Longrightarrow> ConfigController p \<in> W"
  by (auto simp: wakes_def)

text \<open>The stage of a path after a run, and what is then pending for it.\<close>

lemma ran_stage_mono:
  assumes "controllerRan g k c c'" "bootable g c" "plansIgnition g"
  shows "pathStage g p c \<le> pathStage g p c'"
proof (cases k)
  case (ConfigController q)
  with assms(1) have run: "configRan g q c c'" by simp
  show ?thesis
  proof (cases "bcPlan g q")
    case (Inl err)
    with configRan_failed [OF run this] show ?thesis by simp
  next
    case (Inr spec)
    show ?thesis
      using configRan_stage(2) [OF run Inr] touchesOnly_stage [of q g c c' p] run
      by (cases "p = q") (simp_all add: configRan_def)
  qed
next
  case (ResourceController q)
  with assms(1) have run: "resourceRan q (bcKey g) c c'" by simp
  show ?thesis
    using resourceRan_stage(2) [OF run assms(2,3)] touchesOnly_stage [of q g c c' p] run
    by (cases "p = q"; cases "pathStage g p c") (simp_all add: resourceRan_def less_eq_stage_def)
qed

lemma ran_pending:
  assumes "controllerRan g k c c'" "bootable g c" "plansIgnition g" "pending g c p = Some k"
  shows "pending g c' p \<noteq> Some k"
proof (cases "bcPlan g p")
  case (Inl err)
  with assms(4) have "k = ConfigController p" by (simp add: pending_def split: if_splits)
  with assms(1) Inl configRan_failed(1) [of g p c c' err] show ?thesis by (simp add: pending_def)
next
  case (Inr spec)
  show ?thesis
  proof (cases "pathStage g p c")
    case Applied
    with assms(4) Inr have k: "k = ResourceController p" by (simp add: pending_def)
    with assms(1) have "resourceRan p (bcKey g) c c'" by simp
    from resourceRan_stage(2) [OF this assms(2,3)] Applied k Inr show ?thesis by (simp add: pending_def)
  next
    case Requested
    with assms(4) Inr have k: "k = ConfigController p" by (simp add: pending_def)
    with assms(1) have "configRan g p c c'" by simp
    from configRan_stage(1,3) [OF this Inr] k Inr show ?thesis
      by (cases "pathStage g p c'") (simp_all add: pending_def)
  next
    case ResourceReady
    with assms(4) Inr have k: "k = ConfigController p" by (simp add: pending_def split: if_splits)
    with assms(1) have "configRan g p c c'" by simp
    from configRan_stage(1,3) [OF this Inr] k Inr show ?thesis
      by (cases "pathStage g p c'") (simp_all add: pending_def)
  qed
qed

lemma ran_wakes_pending:
  assumes "controllerRan g k c c'" "bootable g c" "plansIgnition g" "wakes g W c c'" "p \<in> set (bcPaths g)"
    and "pending g c' p = Some j" "pending g c p \<noteq> Some j"
  shows "j \<in> W"
proof (cases "pathStage g p c' = pathStage g p c")
  case True
  with assms(6,7) have "j = ConfigController p \<and> configState g c' \<noteq> configState g c"
    by (auto simp: pending_def split: sum.splits stage.splits if_splits)
  with wakes_state [OF assms(4,5)] show ?thesis by blast
next
  case False
  with ran_stage_mono [OF assms(1-3), of p] have "pathStage g p c < pathStage g p c'" by simp
  then have "pathStage g p c' \<noteq> Requested" by (auto simp: less_stage_def)
  with wakes_stage [OF assms(4,5) False] assms(6) show ?thesis
    by (auto simp: pending_def split: sum.splits stage.splits if_splits)
qed

text \<open>No request is lost: whatever runs, the pending requests still suffice.\<close>

lemma ran_live:
  assumes "controllerRan g k c c'" "bootable g c" "plansIgnition g" "wakes g W c c'" "live g Q c"
  shows "live g (Q - {k} \<union> W) c'"
  unfolding live_def
proof (intro ballI subsetI)
  fix p j assume p: "p \<in> set (bcPaths g)" and j: "j \<in> set_option (pending g c' p)"
  show "j \<in> Q - {k} \<union> W"
  proof (cases "pending g c p = Some j")
    case True
    with assms(5) p have "j \<in> Q" by (auto simp: live_def)
    moreover have "j \<noteq> k" using ran_pending [OF assms(1-3)] True j by auto
    ultimately show ?thesis by simp
  next
    case False
    with ran_wakes_pending [OF assms(1-4) p] j show ?thesis by simp
  qed
qed

section \<open>Goals\<close>

text \<open>All resources are as planned and ready, and so is the boot configuration.\<close>

definition settled :: "boot_case \<Rightarrow> cluster \<Rightarrow> bool" where
  "settled g c \<longleftrightarrow> (\<forall>p \<in> set (bcPaths g). pathStage g p c = ResourceReady) \<and> configState g c = SBCStateReady"

definition stagesLeft :: "boot_case \<Rightarrow> cluster \<Rightarrow> nat" where
  "stagesLeft g c = sum_list (map (\<lambda>p. 2 - rank (pathStage g p c)) (bcPaths g))"

definition settleJobs :: "boot_case \<Rightarrow> cluster \<Rightarrow> nat" where
  "settleJobs g c = stagesLeft g c + (if settled g c then 0 else 1)"

definition settleUseful :: "boot_case \<Rightarrow> cluster \<Rightarrow> controller \<Rightarrow> bool" where
  "settleUseful g c k \<longleftrightarrow> (\<exists>p \<in> set (bcPaths g). pending g c p = Some k \<and>
     (pathStage g p c = ResourceReady \<longrightarrow> stagesLeft g c = 0))"

text \<open>The goals of a single path: that its controller makes the configuration \<open>Ready\<close>, or that it
  records its error.\<close>

definition readyJobs :: "boot_case \<Rightarrow> boot_path \<Rightarrow> cluster \<Rightarrow> nat" where
  "readyJobs g p c = (if configState g c = SBCStateReady then 0 else Suc (2 - rank (pathStage g p c)))"

definition errorJobs :: "boot_case \<Rightarrow> cluster \<Rightarrow> nat" where
  "errorJobs g c = (if configState g c = SBCStateError then 0 else 1)"

definition pathUseful :: "boot_case \<Rightarrow> boot_path \<Rightarrow> cluster \<Rightarrow> controller \<Rightarrow> bool" where
  "pathUseful g p c k \<longleftrightarrow> pending g c p = Some k"

definition plansAll :: "boot_case \<Rightarrow> bool" where
  "plansAll g \<longleftrightarrow> list_all (\<lambda>p. case bcPlan g p of Inr _ \<Rightarrow> True | Inl _ \<Rightarrow> False) (bcPaths g)"

lemma plansAllD: "plansAll g \<Longrightarrow> p \<in> set (bcPaths g) \<Longrightarrow> \<exists>spec. bcPlan g p = Inr spec"
  by (cases "bcPlan g p") (auto simp: plansAll_def list_all_iff)

lemma stagesLeft_0: "stagesLeft g c = 0 \<longleftrightarrow> (\<forall>p \<in> set (bcPaths g). pathStage g p c = ResourceReady)"
proof -
  have "2 - rank st = 0 \<longleftrightarrow> st = ResourceReady" for st by (cases st) simp_all
  then show ?thesis by (simp add: stagesLeft_def)
qed

lemma settleJobs_0: "settleJobs g c = 0 \<longleftrightarrow> settled g c"
  by (auto simp: settleJobs_def stagesLeft_0 settled_def)

lemma stagesLeft_le: "stagesLeft g c \<le> 2 * length (bcPaths g)"
  using sum_list_mono [of "bcPaths g" "\<lambda>p. 2 - rank (pathStage g p c)" "\<lambda>_. 2"]
  by (simp add: stagesLeft_def sum_list_triv)

lemma sum_list_strict_mono_elem:
  fixes f h :: "'a \<Rightarrow> nat"
  assumes "\<And>x. f x \<le> h x" "x \<in> set xs" "f x < h x"
  shows "sum_list (map f xs) < sum_list (map h xs)"
  using assms(2)
proof (induction xs)
  case (Cons y ys)
  have "sum_list (map f ys) \<le> sum_list (map h ys)" by (intro sum_list_mono assms(1))
  with Cons assms(1) [of y] assms(3) show ?case by fastforce
qed simp

lemma stagesLeft_mono:
  assumes "controllerRan g k c c'" "bootable g c" "plansIgnition g"
  shows "stagesLeft g c' \<le> stagesLeft g c"
    and "p \<in> set (bcPaths g) \<Longrightarrow> pathStage g p c' \<noteq> pathStage g p c \<Longrightarrow> stagesLeft g c' < stagesLeft g c"
proof -
  have mono: "2 - rank (pathStage g p c') \<le> 2 - rank (pathStage g p c)" for p
    using ran_stage_mono [OF assms, of p] by (simp add: less_eq_stage_def)
  then show "stagesLeft g c' \<le> stagesLeft g c" unfolding stagesLeft_def by (intro sum_list_mono) simp
  assume p: "p \<in> set (bcPaths g)" "pathStage g p c' \<noteq> pathStage g p c"
  then have "pathStage g p c < pathStage g p c'" using ran_stage_mono [OF assms, of p] by simp
  then have "2 - rank (pathStage g p c') < 2 - rank (pathStage g p c)"
    using rank_le [of "pathStage g p c'"] by (simp add: less_stage_def)
  with mono p(1) show "stagesLeft g c' < stagesLeft g c"
    unfolding stagesLeft_def by (intro sum_list_strict_mono_elem)
qed

lemma ran_advances:
  assumes "controllerRan g k c c'" "bootable g c" "plansIgnition g" "pending g c p = Some k"
    and "pathStage g p c \<noteq> ResourceReady" "bcPlan g p = Inr spec"
  shows "pathStage g p c' \<noteq> pathStage g p c"
  using ran_pending [OF assms(1-4)] assms(4-6) by (cases "pathStage g p c") (auto simp: pending_def)

text \<open>A configuration whose paths are all ready is made ready by any of its controllers, and stays so.\<close>

lemma ran_ready:
  assumes "controllerRan g k c c'" "bootable g c" "plansIgnition g" "plansAll g" "k \<in> set (controllersOf (bcPaths g))"
    and "stagesLeft g c = 0"
  shows "configState g c = SBCStateReady \<or> (\<exists>p. k = ConfigController p) \<Longrightarrow> configState g c' = SBCStateReady"
    and "stagesLeft g c' = 0"
proof -
  show left: "stagesLeft g c' = 0" using stagesLeft_mono(1) [OF assms(1-3)] assms(6) by simp
  assume *: "configState g c = SBCStateReady \<or> (\<exists>p. k = ConfigController p)"
  show "configState g c' = SBCStateReady"
  proof (cases k)
    case (ConfigController p)
    then have p: "p \<in> set (bcPaths g)" using assms(5) by auto
    then obtain spec where "bcPlan g p = Inr spec" using plansAllD [OF assms(4)] by blast
    moreover have "pathStage g p c' = ResourceReady" using left p by (simp add: stagesLeft_0)
    ultimately show ?thesis using configRan_stage(3) assms(1) ConfigController by simp
  next
    case (ResourceController p)
    with assms(1) * resourceRan_stage(1) [of p g c c'] assms(2,3) show ?thesis by simp
  qed
qed

lemma settle_progress:
  assumes "controllerRan g k c c'" "bootable g c" "plansIgnition g" "plansAll g" "k \<in> set (controllersOf (bcPaths g))"
    and "0 < settleJobs g c"
  shows "progress (settleJobs g) (settleUseful g) c k c'"
proof (cases "stagesLeft g c' < stagesLeft g c")
  case True
  then have "\<not> settled g c" by (auto simp: stagesLeft_0 [symmetric] settled_def)
  with True show ?thesis by (simp add: progress_def settleJobs_def)
next
  case False
  then have same: "pathStage g p c' = pathStage g p c" if "p \<in> set (bcPaths g)" for p
    using stagesLeft_mono(2) [OF assms(1-3) that] by blast
  have left: "stagesLeft g c' = stagesLeft g c" using False stagesLeft_mono(1) [OF assms(1-3)] by simp
  have unsettled: "\<not> settled g c" using assms(6) by (simp add: settleJobs_0 [symmetric])
  show ?thesis
  proof (cases "stagesLeft g c = 0")
    case True
    then have state: "configState g c \<noteq> SBCStateReady" using unsettled by (simp add: settled_def stagesLeft_0)
    show ?thesis
    proof (cases "\<exists>p. k = ConfigController p")
      case ready: True
      have "settled g c'"
        using ran_ready [OF assms(1-5) True] ready left True by (simp add: settled_def stagesLeft_0)
      with unsettled True left show ?thesis by (simp add: progress_def settleJobs_def)
    next
      case other: False
      then obtain p where k: "k = ResourceController p" by (cases k) auto
      with assms(1) have "configState g c' = configState g c"
        using resourceRan_stage(1) [OF _ assms(2,3)] by simp
      then have "pending g c' q = pending g c q" if "q \<in> set (bcPaths g)" for q
        using same [OF that] by (simp add: pending_def split: sum.split)
      then have "settleUseful g c' = settleUseful g c" using same left by (auto simp: settleUseful_def fun_eq_iff)
      moreover have "\<not> settleUseful g c k"
        using True state k plansAllD [OF assms(4)]
        by (auto simp: settleUseful_def pending_def stagesLeft_0 split: sum.splits)
      moreover have "settled g c' \<longleftrightarrow> settled g c"
        using same \<open>configState g c' = configState g c\<close> by (simp add: settled_def)
      ultimately show ?thesis using left by (simp add: progress_def settleJobs_def)
    qed
  next
    case some: False
    have "\<not> settled g c'" using some left by (auto simp: settled_def stagesLeft_0 [symmetric])
    moreover have "\<not> settleUseful g c k"
    proof
      assume "settleUseful g c k"
      then obtain p where p: "p \<in> set (bcPaths g)" "pending g c p = Some k" "pathStage g p c \<noteq> ResourceReady"
        using some by (auto simp: settleUseful_def)
      then obtain spec where "bcPlan g p = Inr spec" using plansAllD [OF assms(4)] by blast
      from ran_advances [OF assms(1-3) p(2,3) this] same [OF p(1)] show False by blast
    qed
    moreover have "settleUseful g c' j" if "settleUseful g c j" for j
    proof -
      from that some obtain p where p: "p \<in> set (bcPaths g)" "pending g c p = Some j" "pathStage g p c \<noteq> ResourceReady"
        by (auto simp: settleUseful_def)
      then obtain spec where "bcPlan g p = Inr spec" using plansAllD [OF assms(4)] by blast
      with p same [OF p(1)] have "pending g c' p = Some j"
        by (cases "pathStage g p c") (simp_all add: pending_def)
      with p same [OF p(1)] show ?thesis by (auto simp: settleUseful_def)
    qed
    ultimately show ?thesis using left unsettled by (simp add: progress_def settleJobs_def)
  qed
qed

lemma settle_pending:
  assumes "plansAll g" "bcPaths g \<noteq> []" "live g Q c" "0 < settleJobs g c"
  shows "\<exists>k \<in> Q. settleUseful g c k"
proof -
  have "\<exists>p \<in> set (bcPaths g). \<exists>k. pending g c p = Some k \<and> (pathStage g p c = ResourceReady \<longrightarrow> stagesLeft g c = 0)"
  proof (cases "stagesLeft g c = 0")
    case True
    moreover have "\<not> settled g c" using assms(4) by (simp add: settleJobs_0 [symmetric])
    ultimately have "configState g c \<noteq> SBCStateReady" by (simp add: settled_def stagesLeft_0)
    moreover obtain p where p: "p \<in> set (bcPaths g)" using assms(2) by (cases "bcPaths g") auto
    moreover obtain spec where "bcPlan g p = Inr spec" using plansAllD [OF assms(1) p] by blast
    moreover have "pathStage g p c = ResourceReady" using True p by (simp add: stagesLeft_0)
    ultimately have "pending g c p = Some (ConfigController p)" by (simp add: pending_def)
    with p True show ?thesis by blast
  next
    case False
    then obtain p where p: "p \<in> set (bcPaths g)" "pathStage g p c \<noteq> ResourceReady" by (auto simp: stagesLeft_0)
    then obtain spec where "bcPlan g p = Inr spec" using plansAllD [OF assms(1)] by blast
    with p(2) have "\<exists>k. pending g c p = Some k" by (cases "pathStage g p c") (simp_all add: pending_def)
    with p show ?thesis by blast
  qed
  with assms(3) show ?thesis by (fastforce simp: live_def settleUseful_def)
qed

lemma path_pending: "live g Q c \<Longrightarrow> p \<in> set (bcPaths g) \<Longrightarrow> pending g c p = Some k \<Longrightarrow> k \<in> Q"
  by (auto simp: live_def)

lemma ready_pending:
  assumes "bcPlan g p = Inr spec" "p \<in> set (bcPaths g)" "live g Q c" "0 < readyJobs g p c"
  shows "\<exists>k \<in> Q. pathUseful g p c k"
proof -
  have "\<exists>k. pending g c p = Some k"
    using assms(1,4) by (cases "pathStage g p c") (simp_all add: pending_def readyJobs_def split: if_splits)
  with path_pending [OF assms(3,2)] show ?thesis by (auto simp: pathUseful_def)
qed

lemma ready_progress:
  assumes "controllerRan g k c c'" "bootable g c" "plansIgnition g" "bcPlan g p = Inr spec" "0 < readyJobs g p c"
  shows "progress (readyJobs g p) (pathUseful g p) c k c'"
proof (cases "configState g c' = SBCStateReady")
  case True
  with assms(5) show ?thesis by (simp add: progress_def readyJobs_def)
next
  case False
  have state: "configState g c \<noteq> SBCStateReady" using assms(5) by (simp add: readyJobs_def split: if_splits)
  show ?thesis
  proof (cases "pathStage g p c' = pathStage g p c")
    case same: True
    have "pending g c' p = pending g c p"
      using same state False assms(4) by (cases "pathStage g p c") (simp_all add: pending_def)
    moreover from this ran_pending [OF assms(1-3)] have "pending g c p \<noteq> Some k" by auto
    ultimately show ?thesis using same state False by (simp add: progress_def readyJobs_def pathUseful_def)
  next
    case False
    with ran_stage_mono [OF assms(1-3), of p] have "pathStage g p c < pathStage g p c'" by simp
    then have "2 - rank (pathStage g p c') < 2 - rank (pathStage g p c)"
      using rank_le [of "pathStage g p c'"] by (simp add: less_stage_def)
    then show ?thesis using state by (simp add: progress_def readyJobs_def)
  qed
qed

lemma error_pending:
  assumes "bcPlan g p = Inl err" "p \<in> set (bcPaths g)" "live g Q c" "0 < errorJobs g c"
  shows "\<exists>k \<in> Q. pathUseful g p c k"
  using path_pending [OF assms(3,2)] assms(1,4)
  by (auto simp: pathUseful_def pending_def errorJobs_def split: if_splits)

lemma error_progress:
  assumes "controllerRan g k c c'" "bootable g c" "plansIgnition g" "bcPlan g p = Inl err" "0 < errorJobs g c"
  shows "progress (errorJobs g) (pathUseful g p) c k c'"
proof (cases "configState g c' = SBCStateError")
  case True
  with assms(5) show ?thesis by (simp add: progress_def errorJobs_def)
next
  case False
  have state: "configState g c \<noteq> SBCStateError" using assms(5) by (simp add: errorJobs_def split: if_splits)
  with False assms(4) have "pending g c' p = pending g c p" by (simp add: pending_def)
  moreover from this ran_pending [OF assms(1-3)] have "pending g c p \<noteq> Some k" by auto
  ultimately show ?thesis using state False by (simp add: progress_def errorJobs_def pathUseful_def)
qed

end
