(* ===== verification/Watches.thy ===== *)
theory Watches
  imports Paths
begin

text \<open>
  What wakes the controllers, the \<open>SetupWithManager\<close> functions of \<^verbatim>\<open>internal/controller\<close>, and the
  closed loop of the operator: the four controllers process the requests of a boot configuration
  from a work queue, and the changes they make put further requests on it.
\<close>

section \<open>SetupWithManager\<close>

datatype object_kind = KindServerBootConfiguration | KindHTTPBootConfig | KindIPXEBootConfig

text \<open>What a controller is for, the kinds it owns, and how it maps a secret to requests.\<close>

record ('s, 'z) controller_setup =
  csFor :: object_kind
  csOwns :: "object_kind list"
  csWatchesSecrets :: "client_object \<Rightarrow> ('s, 'z, namespaced_name list) io"

definition HTTPBootConfig_SetupWithManager :: "'s env \<Rightarrow> ('s, 'z) controller_setup" where
  "HTTPBootConfig_SetupWithManager E =
    \<lparr>csFor = KindHTTPBootConfig, csOwns = [],
     csWatchesSecrets = enqueueHTTPBootConfigReferencingIgnitionSecret E\<rparr>"

definition IPXEBootConfig_SetupWithManager :: "'s env \<Rightarrow> ('s, 'z) controller_setup" where
  "IPXEBootConfig_SetupWithManager E =
    \<lparr>csFor = KindIPXEBootConfig, csOwns = [],
     csWatchesSecrets = enqueueIPXEBootConfigReferencingIgnitionSecret E\<rparr>"

definition ServerBootConfigurationPXE_SetupWithManager :: "'s env \<Rightarrow> ('s, 'z) controller_setup" where
  "ServerBootConfigurationPXE_SetupWithManager E =
    \<lparr>csFor = KindServerBootConfiguration, csOwns = [KindIPXEBootConfig],
     csWatchesSecrets = EnqueueServerBootConfigsReferencingSecret E\<rparr>"

definition ServerBootConfigurationHTTP_SetupWithManager :: "'s env \<Rightarrow> ('s, 'z) controller_setup" where
  "ServerBootConfigurationHTTP_SetupWithManager E =
    \<lparr>csFor = KindServerBootConfiguration, csOwns = [KindHTTPBootConfig],
     csWatchesSecrets = EnqueueServerBootConfigsReferencingSecret E\<rparr>"

section \<open>Requests\<close>

fun kindName :: "object_kind \<Rightarrow> string" where
  "kindName KindServerBootConfiguration = serverBootConfigurationKind"
| "kindName KindHTTPBootConfig = ''HTTPBootConfig''"
| "kindName KindIPXEBootConfig = ''IPXEBootConfig''"

text \<open>
  The requests that controller-runtime makes of a change of an object: its own key, if the
  controller is for its kind, and the key of its controller (an object has at most one), if the
  controller owns its kind.
\<close>

definition objectRequests ::
  "(owner_reference \<Rightarrow> bool) \<Rightarrow> ('s, 'z) controller_setup \<Rightarrow> object_kind \<times> object_meta \<Rightarrow> namespaced_name list" where
  "objectRequests isCtl S = (\<lambda>(kind, meta).
     (if csFor S = kind then [objectKey meta] else []) @
     (if kind \<in> set (csOwns S)
      then map (\<lambda>ref. NN (metaNamespace meta) (orName ref))
        (filter (\<lambda>ref. isCtl ref \<and> orKind ref = kindName (csFor S)) (metaOwnerReferences meta))
      else []))"

fun controllerSetup :: "'s env \<Rightarrow> controller \<Rightarrow> ('s, 'z) controller_setup" where
  "controllerSetup E (ConfigController HTTPPath) = ServerBootConfigurationHTTP_SetupWithManager E"
| "controllerSetup E (ConfigController PXEPath) = ServerBootConfigurationPXE_SetupWithManager E"
| "controllerSetup E (ResourceController HTTPPath) = HTTPBootConfig_SetupWithManager E"
| "controllerSetup E (ResourceController PXEPath) = IPXEBootConfig_SetupWithManager E"

definition changedObject :: "'o option \<Rightarrow> 'o option \<Rightarrow> 'o list" where
  "changedObject old new = (if old = new then [] else case new of Some y \<Rightarrow> [y] | None \<Rightarrow> [])"

text \<open>The objects with key \<open>k\<close> that differ between two views.\<close>

definition changesAt :: "namespaced_name \<Rightarrow> cluster \<Rightarrow> cluster \<Rightarrow> (object_kind \<times> object_meta) list" where
  "changesAt k c c' =
     map (\<lambda>y. (KindHTTPBootConfig, httpMeta y)) (changedObject (clHTTPs c k) (clHTTPs c' k)) @
     map (\<lambda>y. (KindIPXEBootConfig, ipxeMeta y)) (changedObject (clIPXEs c k) (clIPXEs c' k)) @
     map (\<lambda>b. (KindServerBootConfiguration, sbcMeta b)) (changedObject (clSBCs c k) (clSBCs c' k))"

definition wokenBy ::
  "(owner_reference \<Rightarrow> bool) \<Rightarrow> ('s, 'z) controller_setup \<Rightarrow> namespaced_name \<Rightarrow> cluster \<Rightarrow> cluster \<Rightarrow> bool" where
  "wokenBy isCtl S k c c' \<longleftrightarrow> list_ex (\<lambda>ch. k \<in> set (objectRequests isCtl S ch)) (changesAt k c c')"

text \<open>The controllers of the enabled paths that a change makes a request for \<open>k\<close> to.\<close>

definition woken ::
  "(owner_reference \<Rightarrow> bool) \<Rightarrow> 's env \<Rightarrow> boot_path list \<Rightarrow> namespaced_name \<Rightarrow> cluster \<Rightarrow> cluster \<Rightarrow> controller list" where
  "woken isCtl E ps k c c' =
     filter (\<lambda>ctl. wokenBy isCtl (controllerSetup E ctl :: ('s, unit) controller_setup) k c c')
       (remdups (controllersOf ps))"

lemmas setups = HTTPBootConfig_SetupWithManager_def IPXEBootConfig_SetupWithManager_def
  ServerBootConfigurationPXE_SetupWithManager_def ServerBootConfigurationHTTP_SetupWithManager_def

lemma changedObject_new: "new = Some y \<Longrightarrow> old \<noteq> new \<Longrightarrow> changedObject old new = [y]"
  by (simp add: changedObject_def)

lemma controls_request:
  assumes "controls g m" "objectKey m = bcKey g"
  shows "bcKey g \<in> set (map (\<lambda>ref. NN (metaNamespace m) (orName ref))
    (filter (\<lambda>ref. bcIsCtl g ref \<and> orKind ref = serverBootConfigurationKind) (metaOwnerReferences m)))"
proof -
  obtain ref where "ref \<in> set (metaOwnerReferences m)" "bcIsCtl g ref"
    "orKind ref = serverBootConfigurationKind" "orName ref = metaName (sbcMeta (bcConfig g))"
    using assms(1) by (auto simp: controls_def list_ex_iff)
  with assms(2) show ?thesis by (auto simp: objectKey_def intro!: image_eqI [of _ _ ref])
qed

lemma resource_change_wakes:
  assumes "bootable g c'" "resourceAt p (bcKey g) c' = Some y" "resourceAt p (bcKey g) c \<noteq> Some y"
  shows "wokenBy (bcIsCtl g) (controllerSetup E (ResourceController p)) (bcKey g) c c'"
    and "controls g (rsMeta y) \<Longrightarrow> wokenBy (bcIsCtl g) (controllerSetup E (ConfigController p)) (bcKey g) c c'"
proof -
  note k = bootable_resource [OF assms(1,2)]
  show "wokenBy (bcIsCtl g) (controllerSetup E (ResourceController p)) (bcKey g) c c'"
    using assms(2,3) k by (cases p)
      (auto simp: wokenBy_def changesAt_def objectRequests_def setups viewHTTPResource_def viewIPXEResource_def
        changedObject_def)
  assume "controls g (rsMeta y)"
  note request = controls_request [OF this conjunct1 [OF k]]
  show "wokenBy (bcIsCtl g) (controllerSetup E (ConfigController p)) (bcKey g) c c'"
    using assms(2,3) request by (cases p)
      (auto simp: wokenBy_def changesAt_def objectRequests_def setups viewHTTPResource_def viewIPXEResource_def
        changedObject_def)
qed

lemma config_change_wakes:
  assumes "bootable g c'" "configState g c' \<noteq> configState g c"
  shows "wokenBy (bcIsCtl g) (controllerSetup E (ConfigController p)) (bcKey g) c c'"
proof -
  obtain cs where b: "clSBCs c' (bcKey g) = Some (withStatus (bcConfig g) (configState g c') cs)"
    by (rule bootable_config [OF assms(1)])
  moreover from assms(2) have "clSBCs c (bcKey g) \<noteq> clSBCs c' (bcKey g)"
    by (auto simp: configState_def)
  ultimately show ?thesis
    by (cases p) (simp_all add: wokenBy_def changesAt_def changedObject_new objectRequests_def setups withStatus_def)
qed

text \<open>The watches of \<open>SetupWithManager\<close> lose no change that matters.\<close>

lemma woken_wakes:
  assumes "bootable g c'"
  shows "wakes g (set (woken (bcIsCtl g) E (bcPaths g) (bcKey g) c c')) c c'"
  unfolding wakes_def
proof (intro ballI conjI)
  fix p assume p: "p \<in> set (bcPaths g)"
  then have enabled: "ConfigController p \<in> set (controllersOf (bcPaths g))"
    "ResourceController p \<in> set (controllersOf (bcPaths g))" by simp_all
  note wake = resource_change_wakes [OF assms, of p]
  show "case resourceAt p (bcKey g) c' of
      None \<Rightarrow> True
    | Some y \<Rightarrow> resourceAt p (bcKey g) c = Some y \<or>
        ResourceController p \<in> set (woken (bcIsCtl g) E (bcPaths g) (bcKey g) c c') \<and>
        (\<not> controls g (rsMeta y) \<or> ConfigController p \<in> set (woken (bcIsCtl g) E (bcPaths g) (bcKey g) c c'))"
  proof (cases "resourceAt p (bcKey g) c'")
    case (Some y)
    with enabled wake [OF this] show ?thesis by (auto simp: woken_def simp del: set_controllersOf)
  qed simp
  show "configState g c' = configState g c \<or>
      ConfigController p \<in> set (woken (bcIsCtl g) E (bcPaths g) (bcKey g) c c')"
    using enabled(1) config_change_wakes [OF assms] by (auto simp: woken_def simp del: set_controllersOf)
qed

lemma length_controllersOf: "length (controllersOf ps) = 2 * length ps"
  by (induction ps) (simp_all add: controllersOf_def)

lemma card_controllersOf: "card (set (controllersOf ps)) \<le> 2 * length ps"
  using card_length [of "controllersOf ps"] by (simp only: length_controllersOf)

section \<open>The controllers of a boot configuration\<close>

record reconcilers =
  rcHTTP :: http_reconciler
  rcPXE :: pxe_reconciler

fun runController ::
  "lib \<Rightarrow> 's env \<Rightarrow> reconcilers \<Rightarrow> namespaced_name \<Rightarrow> controller \<Rightarrow> ('s, 'z, unit) io" where
  "runController L E rs k (ConfigController HTTPPath) =
     do { ServerBootConfigurationHTTP_Reconcile L E (rcHTTP rs) k; ret () }"
| "runController L E rs k (ConfigController PXEPath) =
     do { ServerBootConfigurationPXE_Reconcile L E (rcPXE rs) k; ret () }"
| "runController L E rs k (ResourceController HTTPPath) = do { HTTPBootConfig_Reconcile E k; ret () }"
| "runController L E rs k (ResourceController PXEPath) = do { IPXEBootConfig_Reconcile E k; ret () }"

fun pathValidator :: "reconcilers \<Rightarrow> boot_path \<Rightarrow> validator" where
  "pathValidator rs HTTPPath = hrRegistryValidator (rcHTTP rs)"
| "pathValidator rs PXEPath = pxeRegistryValidator (rcPXE rs)"

text \<open>What the controllers make of an image with the manifest \<open>m\<close>.\<close>

fun planOf ::
  "reconcilers \<Rightarrow> string \<Rightarrow> string \<Rightarrow> manifest \<Rightarrow> server_boot_config \<Rightarrow> server \<Rightarrow> boot_path \<Rightarrow> string + boot_spec" where
  "planOf rs name version m x srv HTTPPath =
     map_sum id (\<lambda>u. HTTPSpec (httpSpec (newHTTPBootConfig x (serverSystemUUID srv)
       (ExtractServerNetworkIDs srv True) u))) (ukiOutcome (rcHTTP rs) name m)"
| "planOf rs name version m x srv PXEPath =
     Inr (IPXESpec (ipxeSpec (newIPXEBootConfig x (serverSystemUUID srv)
       (ExtractServerNetworkIDs srv False) (pxeURLsOf (rcPXE rs) name version m))))"

definition bootCase ::
  "lib \<Rightarrow> reconcilers \<Rightarrow> (owner_reference \<Rightarrow> bool) \<Rightarrow> object_meta \<Rightarrow> boot_path list \<Rightarrow> string \<Rightarrow> string \<Rightarrow>
     manifest \<Rightarrow> server_boot_config \<Rightarrow> server \<Rightarrow> boot_case" where
  "bootCase L rs isCtl meta ps name version m x srv =
     \<lparr>bcConfig = x, bcServer = srv, bcPaths = ps, bcPlan = planOf rs name version m x srv, bcIsCtl = isCtl,
      bcMeta = meta, bcLib = L\<rparr>"

text \<open>\<open>SetControllerReference\<close> succeeds, with the same result whatever the status of the configuration.\<close>

definition ownable :: "lib \<Rightarrow> boot_case \<Rightarrow> bool" where
  "ownable L g \<longleftrightarrow> objectKey (bcMeta g) = bcKey g \<and> controls g (bcMeta g) \<and>
     (\<forall>st cs. l_setControllerReference L (withStatus (bcConfig g) st cs) (configMeta (bcConfig g)) = Inr (bcMeta g))"

text \<open>
  The cluster is steady, the allow lists admit the image of the configuration, the registry holds it
  with the manifest \<open>m\<close>, and if the PXE path is enabled it has the layers to boot from.
\<close>

definition operates ::
  "lib \<Rightarrow> ('s \<Rightarrow> cluster) \<Rightarrow> 's env \<Rightarrow> reconcilers \<Rightarrow> string \<Rightarrow> string \<Rightarrow> manifest \<Rightarrow> boot_case \<Rightarrow> bool" where
  "operates L V E rs name version m g \<longleftrightarrow>
     steadyCluster V E \<and> metaDeletionTimestamp (sbcMeta (bcConfig g)) = None \<and> ownable L g \<and>
     bcPlan g = planOf rs name version m (bcConfig g) (bcServer g) \<and> bcLib g = L \<and>
     list_all (\<lambda>p. imageHeld L V E (pathValidator rs p) (sbcImage (bcConfig g)) name version m) (bcPaths g) \<and>
     (PXEPath \<notin> set (bcPaths g) \<or> bootable_layers m) \<and> distinct (bcPaths g) \<and> bcPaths g \<noteq> []"

lemma operates_plansIgnition: "operates L V E rs name version m g \<Longrightarrow> plansIgnition g"
proof -
  have "case planOf rs name version m x srv p of
      Inr spec \<Rightarrow> specIgnition spec = sbcIgnitionSecretRef x | Inl _ \<Rightarrow> True" for x srv p
    by (cases p) (auto simp: newHTTPBootConfig_def newIPXEBootConfig_def pxeURLsOf_def map_sum_def
        split: sum.split)
  then show "operates L V E rs name version m g \<Longrightarrow> plansIgnition g"
    by (simp add: operates_def plansIgnition_def)
qed

text \<open>The runs over the objects are runs over the abstract resources.\<close>

lemma touches_put [simp]:
  "touchesOnly HTTPPath k c (putHTTP k y c)" "touchesOnly PXEPath k c (putIPXE k z c)"
  "touchesOnly p k c (putSBC k' b c') = touchesOnly p k c c'"
  "touchesOnly p k c c"
proof -
  have "resourceAt q k' (putHTTP k y c) = resourceAt q k' c" if "q \<noteq> HTTPPath \<or> k' \<noteq> k" for q k'
    using that by (cases q) simp_all
  then show "touchesOnly HTTPPath k c (putHTTP k y c)" by (auto simp: touchesOnly_def)
  have "resourceAt q k' (putIPXE k z c) = resourceAt q k' c" if "q \<noteq> PXEPath \<or> k' \<noteq> k" for q k'
    using that by (cases q) simp_all
  then show "touchesOnly PXEPath k c (putIPXE k z c)" by (auto simp: touchesOnly_def)
  have "resourceAt q k'' (putSBC k' b c') = resourceAt q k'' c'" for q k''
    by (cases q) simp_all
  then show "touchesOnly p k c (putSBC k' b c') = touchesOnly p k c c'" by (simp add: touchesOnly_def)
qed (simp add: touchesOnly_def)

lemma resourceAt_putSBC [simp]: "resourceAt p k (putSBC k' b c) = resourceAt p k c"
  by (cases p) simp_all

lemma stateSet_ran:
  "stateSet clHTTPs putHTTP setHTTPState usableHTTP k c c' \<Longrightarrow> resourceRan HTTPPath k c c'"
  "stateSet clIPXEs putIPXE setIPXEState usableIPXE k c c'' \<Longrightarrow> resourceRan PXEPath k c c''"
proof -
  have same: "r\<lparr>rsState := rsState r\<rparr> = r" for r :: resource by simp
  have view: "viewHTTPResource (setHTTPState st y) = (viewHTTPResource y)\<lparr>rsState := st\<rparr>"
    "viewIPXEResource (setIPXEState st z) = (viewIPXEResource z)\<lparr>rsState := st\<rparr>"
    "usable d (viewHTTPResource y) = usableHTTP d y" "usable d (viewIPXEResource z) = usableIPXE d z" for st y z d
    by (simp_all add: viewHTTPResource_def viewIPXEResource_def setHTTPState_def setIPXEState_def usable_def
        usableHTTP_def usableIPXE_def)
  show "stateSet clHTTPs putHTTP setHTTPState usableHTTP k c c' \<Longrightarrow> resourceRan HTTPPath k c c'"
    by (cases "clHTTPs c k") (auto simp: stateSet_def resourceRan_def view intro: same [symmetric])
  show "stateSet clIPXEs putIPXE setIPXEState usableIPXE k c c'' \<Longrightarrow> resourceRan PXEPath k c c''"
    by (cases "clIPXEs c k") (auto simp: stateSet_def resourceRan_def view intro: same [symmetric])
qed

lemma withStatus_planned:
  "newHTTPBootConfig (withStatus x st cs) = newHTTPBootConfig x"
  "newIPXEBootConfig (withStatus x st cs) = newIPXEBootConfig x"
  "configMeta (withStatus x st cs) = configMeta x" "sbcMeta (withStatus x st cs) = sbcMeta x"
  "sbcImage (withStatus x st cs) = sbcImage x" "sbcServerRef (withStatus x st cs) = sbcServerRef x"
  "(withStatus x st cs)\<lparr>sbcState := st', sbcConditions := cs'\<rparr> = withStatus x st' cs'"
  by (simp_all add: fun_eq_iff newHTTPBootConfig_def newIPXEBootConfig_def configMeta_def withStatus_def)

lemma applied_asPlanned:
  assumes "controls g (bcMeta g)" "objectKey (bcMeta g) = bcKey g" and meta: "meta = bcMeta g"
  shows "appliedHTTP old (plannedHTTP b srv u meta) y \<Longrightarrow> asPlanned g (map_option viewHTTPResource old)
      (HTTPSpec (httpSpec (plannedHTTP b srv u meta))) (viewHTTPResource y)"
    and "appliedIPXE old' (plannedIPXE b srv urls meta) z \<Longrightarrow> asPlanned g (map_option viewIPXEResource old')
      (IPXESpec (ipxeSpec (plannedIPXE b srv urls meta))) (viewIPXEResource z)"
proof -
  have controlled: "holdsMeta (bcMeta g) z \<Longrightarrow> controls g z \<and> objectKey z = bcKey g" for z
    using assms(1,2) by (auto simp: controls_def list_ex_iff holdsMeta_def)
  show "appliedHTTP old (plannedHTTP b srv u meta) y \<Longrightarrow> asPlanned g (map_option viewHTTPResource old)
      (HTTPSpec (httpSpec (plannedHTTP b srv u meta))) (viewHTTPResource y)"
    using controlled [of "httpMeta y"]
    by (auto simp: meta asPlanned_def appliedHTTP_def appliedMeta_def viewHTTPResource_def plannedHTTP_def
        split: option.splits)
  show "appliedIPXE old' (plannedIPXE b srv urls meta) z \<Longrightarrow> asPlanned g (map_option viewIPXEResource old')
      (IPXESpec (ipxeSpec (plannedIPXE b srv urls meta))) (viewIPXEResource z)"
    using controlled [of "ipxeMeta z"]
    by (auto simp: meta asPlanned_def appliedIPXE_def appliedMeta_def viewIPXEResource_def plannedIPXE_def
        split: option.splits)
qed

lemma configured_ran:
  assumes "bootable g c" "bcKey g = k" "controls g (bcMeta g)" "objectKey (bcMeta g) = k" "meta = bcMeta g"
    and "bcLib g = L"
    and "clSBCs c k = Some (withStatus (bcConfig g) st cs)"
  shows "configured clHTTPs putHTTP appliedHTTP (\<lambda>y. httpState (httpStatus y)) (copiesHTTP L)
      (map_sum id (\<lambda>u. plannedHTTP (withStatus (bcConfig g) st cs) srv u meta) found) k
      (withStatus (bcConfig g) st cs) c c' \<Longrightarrow>
    bcPlan g HTTPPath = map_sum id (\<lambda>u. HTTPSpec (httpSpec (plannedHTTP (bcConfig g) srv u meta))) found \<Longrightarrow>
    configRan g HTTPPath c c'"
    and "configured clIPXEs putIPXE appliedIPXE (\<lambda>y. ipxeState (ipxeStatus y)) (copiesIPXE L)
      (map_sum id (\<lambda>urls. plannedIPXE (withStatus (bcConfig g) st cs) srv urls meta) found') k
      (withStatus (bcConfig g) st cs) c c'' \<Longrightarrow>
    bcPlan g PXEPath = map_sum id (\<lambda>urls. IPXESpec (ipxeSpec (plannedIPXE (bcConfig g) srv urls meta))) found' \<Longrightarrow>
    configRan g PXEPath c c''"
proof -
  have st: "configState g c = st" "configConditions g c = cs"
    using assms(2,7) by (simp_all add: configState_def configConditions_def)
  have planned: "plannedHTTP (withStatus (bcConfig g) st cs) = plannedHTTP (bcConfig g)"
    "plannedIPXE (withStatus (bcConfig g) st cs) = plannedIPXE (bcConfig g)"
    by (simp_all add: fun_eq_iff plannedHTTP_def plannedIPXE_def withStatus_planned)
  note applied = applied_asPlanned [OF assms(3), unfolded assms(2), OF assms(4,5)]
  show "configured clHTTPs putHTTP appliedHTTP (\<lambda>y. httpState (httpStatus y)) (copiesHTTP L)
      (map_sum id (\<lambda>u. plannedHTTP (withStatus (bcConfig g) st cs) srv u meta) found) k
      (withStatus (bcConfig g) st cs) c c' \<Longrightarrow>
    bcPlan g HTTPPath = map_sum id (\<lambda>u. HTTPSpec (httpSpec (plannedHTTP (bcConfig g) srv u meta))) found \<Longrightarrow>
    configRan g HTTPPath c c'"
    using assms(2,6) st applied(1) unfolding planned
    by (cases found) (auto simp: configured_def configRan_def copiesHTTP_def withStatus_planned,
      auto simp: viewHTTPResource_def)
  show "configured clIPXEs putIPXE appliedIPXE (\<lambda>y. ipxeState (ipxeStatus y)) (copiesIPXE L)
      (map_sum id (\<lambda>urls. plannedIPXE (withStatus (bcConfig g) st cs) srv urls meta) found') k
      (withStatus (bcConfig g) st cs) c c'' \<Longrightarrow>
    bcPlan g PXEPath = map_sum id (\<lambda>urls. IPXESpec (ipxeSpec (plannedIPXE (bcConfig g) srv urls meta))) found' \<Longrightarrow>
    configRan g PXEPath c c''"
    using assms(2,6) st applied(2) unfolding planned
    by (cases found') (auto simp: configured_def configRan_def copiesIPXE_def withStatus_planned,
      auto simp: viewIPXEResource_def)
qed

lemma reaches_discard:
  "reaches V m c (\<lambda>_. Q) \<Longrightarrow> (\<And>c'. Q c' \<Longrightarrow> R c') \<Longrightarrow> reaches V (do { m; ret () }) c (\<lambda>_. R)"
  by (intro reaches_bind) (auto intro!: reaches_ret elim!: reaches_conseq)

lemma runController_ran:
  fixes E :: "'s env"
  assumes "operates L V E rs name version m g" "bootable g c" "ctl \<in> set (controllersOf (bcPaths g))"
  shows "reaches V (runController L E rs (bcKey g) ctl :: ('s, unit, unit) io) c (\<lambda>_. controllerRan g ctl c)"
proof -
  have steady: "steadyCluster V E" and plan: "bcPlan g = planOf rs name version m (bcConfig g) (bcServer g)"
    and nodel: "metaDeletionTimestamp (sbcMeta (bcConfig g)) = None"
    using assms(1) by (simp_all add: operates_def)
  have held: "imageHeld L V E (pathValidator rs p) (sbcImage (bcConfig g)) name version m" if "p \<in> set (bcPaths g)" for p
    using assms(1) that by (simp add: operates_def list_all_iff)
  obtain cs where b: "clSBCs c (bcKey g) = Some (withStatus (bcConfig g) (configState g c) cs)" (is "_ = Some ?b")
    by (rule bootable_config [OF assms(2)])
  have meta: "l_setControllerReference L ?b (configMeta (bcConfig g)) = Inr (bcMeta g)"
    "objectKey (bcMeta g) = bcKey g" "controls g (bcMeta g)" "bcLib g = L"
    using assms(1) unfolding operates_def ownable_def by blast+
  have srv: "clServers c (sbcServerRef (bcConfig g)) = Some (bcServer g)"
    using assms(2) by (simp add: bootable_def)
  note ran = configured_ran [OF assms(2) refl meta(3,2) refl meta(4) b]
  have keys: "clHTTPs c (bcKey g) = Some y \<Longrightarrow> objectKey (httpMeta y) = bcKey g"
    "clIPXEs c (bcKey g) = Some z \<Longrightarrow> objectKey (ipxeMeta z) = bcKey g" for y z
    using bootable_resource [OF assms(2), of HTTPPath "viewHTTPResource y"]
      bootable_resource [OF assms(2), of PXEPath "viewIPXEResource z"]
    by (simp_all add: viewHTTPResource_def viewIPXEResource_def)
  show ?thesis
  proof (cases ctl)
    case (ResourceController p)
    show ?thesis
    proof (cases p)
      case HTTPPath
      show ?thesis
        unfolding ResourceController HTTPPath runController.simps controllerRan.simps
        by (intro reaches_discard [OF HTTPBootConfig_Reconcile_runs [OF steady]] stateSet_ran(1)) (rule keys)
    next
      case PXEPath
      show ?thesis
        unfolding ResourceController PXEPath runController.simps controllerRan.simps
        by (intro reaches_discard [OF IPXEBootConfig_Reconcile_runs [OF steady]] stateSet_ran(2)) (rule keys)
    qed
  next
    case (ConfigController p)
    with assms(3) have p: "p \<in> set (bcPaths g)" by auto
    show ?thesis
    proof (cases p)
      case HTTPPath
      have found: "comesTo V (constructUKIURL L E (rcHTTP rs) (sbcImage ?b)) (ukiOutcome (rcHTTP rs) name m)"
        using imageHeld_uki held [OF p] by (simp add: HTTPPath withStatus_planned)
      show ?thesis
        unfolding ConfigController HTTPPath runController.simps controllerRan.simps
      proof (rule reaches_discard [OF HTTP_Reconcile_runs [OF steady b _ _ _ _ meta(2) found]])
        fix c' assume "configured clHTTPs putHTTP appliedHTTP (\<lambda>y. httpState (httpStatus y)) (copiesHTTP L)
          (map_sum id (\<lambda>u. plannedHTTP ?b (bcServer g) u (bcMeta g)) (ukiOutcome (rcHTTP rs) name m)) (bcKey g) ?b c c'"
        then show "configRan g HTTPPath c c'"
          by (rule ran(1)) (simp add: plan plannedHTTP_def)
      qed (use meta(1) nodel srv in \<open>simp_all add: withStatus_planned\<close>)
    next
      case PXEPath
      have found: "comesTo V (getImageDetailsFromConfig L E (rcPXE rs) ?b) (Inr (pxeURLsOf (rcPXE rs) name version m))"
        using imageHeld_pxe [where b = ?b] held [OF p] by (simp add: PXEPath withStatus_planned)
      have layers: "bootable_layers m" using assms(1) p PXEPath by (auto simp: operates_def)
      show ?thesis
        unfolding ConfigController PXEPath runController.simps controllerRan.simps
      proof (rule reaches_discard [OF PXE_Reconcile_runs [OF steady b _ _ _ _ meta(2) found]])
        fix c' assume "configured clIPXEs putIPXE appliedIPXE (\<lambda>y. ipxeState (ipxeStatus y)) (copiesIPXE L)
          (map_sum id (\<lambda>urls. plannedIPXE ?b (bcServer g) urls (bcMeta g)) (Inr (pxeURLsOf (rcPXE rs) name version m)))
          (bcKey g) ?b c c'"
        then show "configRan g PXEPath c c'"
          by (rule ran(2)) (simp add: plan plannedIPXE_def)
      next
        fix urls assume "Inr (pxeURLsOf (rcPXE rs) name version m) = (Inr urls :: string + _)"
        then show "ipxeConforms (plannedIPXE ?b (bcServer g) urls (bcMeta g))"
          using layers by (auto simp: plannedIPXE_def ipxeConforms_def newIPXEBootConfig_def pxeURLsOf_def
              bootable_layers_def pxeURL_empty)
      qed (use meta(1) nodel srv in \<open>simp_all add: withStatus_planned\<close>)
    qed
  qed
qed

section \<open>The controllers as a work queue\<close>

text \<open>The goals, for cases in which they are to be reached: of all paths that can boot together,
  and of a path that can boot or that cannot.\<close>

definition settleGoal :: "boot_case \<Rightarrow> cluster \<Rightarrow> nat" where
  "settleGoal g c = (if plansAll g then settleJobs g c else 0)"

fun readyGoal :: "boot_case \<Rightarrow> boot_path \<Rightarrow> cluster \<Rightarrow> nat" where
  "readyGoal g p c = (if p \<in> set (bcPaths g) \<and> \<not> isl (bcPlan g p) then readyJobs g p c else 0)"

fun errorGoal :: "boot_case \<Rightarrow> boot_path \<Rightarrow> cluster \<Rightarrow> nat" where
  "errorGoal g p c = (if p \<in> set (bcPaths g) \<and> isl (bcPlan g p) then errorJobs g c else 0)"

lemma runController_step:
  fixes E :: "'s env"
  assumes "operates L V E rs name version m g \<and> bootable g c" "live g Q c" "ctl \<in> Q"
    "Q \<subseteq> set (controllersOf (bcPaths g))"
    and "\<And>c'. controllerRan g ctl c c' \<Longrightarrow> bootable g c' \<Longrightarrow>
      live g (Q - {ctl} \<union> set (woken (bcIsCtl g) E (bcPaths g) (bcKey g) c c')) c' \<Longrightarrow> R c'"
  shows "reaches V (runController L E rs (bcKey g) ctl :: ('s, unit, unit) io) c (\<lambda>_. R)"
proof -
  have op: "operates L V E rs name version m g" and boot: "bootable g c" and ctl: "ctl \<in> set (controllersOf (bcPaths g))"
    using assms(1,3,4) by auto
  show ?thesis
  proof (rule reaches_conseq [OF runController_ran [OF op boot ctl]])
    fix c' assume run: "controllerRan g ctl c c'"
    note boot' = ran_bootable [OF run boot]
    show "R c'"
      by (rule assms(5) [OF run boot' ran_live [OF run boot operates_plansIgnition [OF op] woken_wakes [OF boot'] assms(2)]])
  qed
qed

interpretation controllers: work_queue V "runController L E rs (bcKey g) :: controller \<Rightarrow> ('s, unit, unit) io"
    "woken (bcIsCtl g) E (bcPaths g) (bcKey g)" "set (controllersOf (bcPaths g))"
    "\<lambda>c. operates L V E rs name version m g \<and> bootable g c" "live g"
  for V :: "'s \<Rightarrow> cluster" and L and E :: "'s env" and rs name version m g
proof unfold_locales
  fix c c' show "distinct (woken (bcIsCtl g) E (bcPaths g) (bcKey g) c c')"
    "set (woken (bcIsCtl g) E (bcPaths g) (bcKey g) c c') \<subseteq> set (controllersOf (bcPaths g))"
    by (auto simp: woken_def)
next
  fix c Q ctl
  assume *: "operates L V E rs name version m g \<and> bootable g c" "live g Q c" "ctl \<in> Q"
    "Q \<subseteq> set (controllersOf (bcPaths g))"
  show "reaches V (runController L E rs (bcKey g) ctl :: ('s, unit, unit) io) c
    (\<lambda>_ c'. (operates L V E rs name version m g \<and> bootable g c') \<and>
       live g (Q - {ctl} \<union> set (woken (bcIsCtl g) E (bcPaths g) (bcKey g) c c')) c')"
    by (rule runController_step [OF *]) (use *(1) in simp)
qed simp

interpretation settling: settling_queue V "runController L E rs (bcKey g) :: controller \<Rightarrow> ('s, unit, unit) io"
    "woken (bcIsCtl g) E (bcPaths g) (bcKey g)" "set (controllersOf (bcPaths g))"
    "\<lambda>c. operates L V E rs name version m g \<and> bootable g c" "live g" "settleUseful g" "settleGoal g"
  for V :: "'s \<Rightarrow> cluster" and L and E :: "'s env" and rs name version m g
proof unfold_locales
  fix c Q
  assume "operates L V E rs name version m g \<and> bootable g c" "live g Q c" "0 < settleGoal g c"
  then show "\<exists>k \<in> Q. settleUseful g c k"
    by (intro settle_pending) (auto simp: settleGoal_def operates_def split: if_splits)
next
  fix c Q ctl
  assume *: "operates L V E rs name version m g \<and> bootable g c" "live g Q c" "ctl \<in> Q"
    "Q \<subseteq> set (controllersOf (bcPaths g))"
  have ig: "plansIgnition g" and boot: "bootable g c" and ctl: "ctl \<in> set (controllersOf (bcPaths g))"
    using * operates_plansIgnition by blast+
  show "reaches V (runController L E rs (bcKey g) ctl :: ('s, unit, unit) io) c
    (\<lambda>_. progress (settleGoal g) (settleUseful g) c ctl)" if "0 < settleGoal g c"
  proof (rule runController_step [OF *])
    fix c' assume run: "controllerRan g ctl c c'"
    have plans: "plansAll g" "0 < settleJobs g c" using that by (simp_all add: settleGoal_def split: if_splits)
    then have goal: "settleGoal g = settleJobs g" by (simp add: settleGoal_def fun_eq_iff)
    show "progress (settleGoal g) (settleUseful g) c ctl c'"
      unfolding goal by (rule settle_progress [OF run boot ig plans(1) ctl plans(2)])
  qed
  show "reaches V (runController L E rs (bcKey g) ctl :: ('s, unit, unit) io) c (\<lambda>_ c'. settleGoal g c' = 0)"
    if "settleGoal g c = 0"
  proof (rule runController_step [OF *])
    fix c' assume run: "controllerRan g ctl c c'"
    show "settleGoal g c' = 0"
    proof (cases "plansAll g")
      case True
      with that have "settled g c" by (simp add: settleGoal_def settleJobs_0)
      then have "stagesLeft g c = 0" "configState g c = SBCStateReady" by (simp_all add: settled_def stagesLeft_0)
      with ran_ready [OF run boot ig True ctl] have "settled g c'" by (simp add: settled_def stagesLeft_0)
      then show ?thesis by (simp add: settleGoal_def settleJobs_0)
    qed (simp add: settleGoal_def)
  qed
qed

interpretation readying: progressing_queue V "runController L E rs (bcKey g) :: controller \<Rightarrow> ('s, unit, unit) io"
    "woken (bcIsCtl g) E (bcPaths g) (bcKey g)" "set (controllersOf (bcPaths g))"
    "\<lambda>c. operates L V E rs name version m g \<and> bootable g c" "live g" "pathUseful g p" "readyGoal g p"
  for V :: "'s \<Rightarrow> cluster" and L and E :: "'s env" and rs name version m g p
proof unfold_locales
  fix c Q
  assume "live g Q c" "0 < readyGoal g p c"
  then show "\<exists>k \<in> Q. pathUseful g p c k"
    by (cases "bcPlan g p") (auto intro: ready_pending split: if_splits)
next
  fix c Q ctl
  assume *: "operates L V E rs name version m g \<and> bootable g c" "live g Q c" "ctl \<in> Q"
    "Q \<subseteq> set (controllersOf (bcPaths g))" and "0 < readyGoal g p c"
  then obtain spec where p: "p \<in> set (bcPaths g)" "bcPlan g p = Inr spec" "0 < readyJobs g p c"
    by (cases "bcPlan g p") (simp_all split: if_splits)
  then have goal: "readyGoal g p = readyJobs g p" by (simp add: fun_eq_iff)
  show "reaches V (runController L E rs (bcKey g) ctl :: ('s, unit, unit) io) c
    (\<lambda>_. progress (readyGoal g p) (pathUseful g p) c ctl)"
    unfolding goal
    by (rule runController_step [OF *], rule ready_progress [OF _ _ _ p(2,3)])
      (use * operates_plansIgnition in blast)+
qed

interpretation failing: progressing_queue V "runController L E rs (bcKey g) :: controller \<Rightarrow> ('s, unit, unit) io"
    "woken (bcIsCtl g) E (bcPaths g) (bcKey g)" "set (controllersOf (bcPaths g))"
    "\<lambda>c. operates L V E rs name version m g \<and> bootable g c" "live g" "pathUseful g p" "errorGoal g p"
  for V :: "'s \<Rightarrow> cluster" and L and E :: "'s env" and rs name version m g p
proof unfold_locales
  fix c Q
  assume "live g Q c" "0 < errorGoal g p c"
  then show "\<exists>k \<in> Q. pathUseful g p c k"
    by (cases "bcPlan g p") (auto intro: error_pending split: if_splits)
next
  fix c Q ctl
  assume *: "operates L V E rs name version m g \<and> bootable g c" "live g Q c" "ctl \<in> Q"
    "Q \<subseteq> set (controllersOf (bcPaths g))" and "0 < errorGoal g p c"
  then obtain err where p: "p \<in> set (bcPaths g)" "bcPlan g p = Inl err" "0 < errorJobs g c"
    by (cases "bcPlan g p") (simp_all split: if_splits)
  then have goal: "errorGoal g p = errorJobs g" by (simp add: fun_eq_iff)
  show "reaches V (runController L E rs (bcKey g) ctl :: ('s, unit, unit) io) c
    (\<lambda>_. progress (errorGoal g p) (pathUseful g p) c ctl)"
    unfolding goal
    by (rule runController_step [OF *], rule error_progress [OF _ _ _ p(2,3)])
      (use * operates_plansIgnition in blast)+
qed

section \<open>Goals in terms of the image\<close>

definition has_uki :: "manifest \<Rightarrow> bool" where
  "has_uki m \<longleftrightarrow> list_ex (\<lambda>layer. descMediaType layer = MediaTypeUKI) m"

lemma findUKILayer_has: "isl (findUKILayer m) \<longleftrightarrow> \<not> has_uki m"
  by (auto simp: findUKILayer_def has_uki_def list_ex_iff find_None_iff split: option.split dest: find_SomeD)

lemma plan_isl:
  assumes "operates L V E rs name version m g"
  shows "isl (bcPlan g p) \<longleftrightarrow> p = HTTPPath \<and> \<not> has_uki m"
proof -
  have "isl (ukiOutcome r name m) \<longleftrightarrow> \<not> has_uki m" for r
    unfolding findUKILayer_has [symmetric] ukiOutcome_def by (cases "findUKILayer m") simp_all
  then show ?thesis using assms by (cases p) (simp_all add: operates_def isl_map_sum)
qed

lemma operates_plansAll:
  assumes "operates L V E rs name version m g" "HTTPPath \<notin> set (bcPaths g) \<or> has_uki m"
  shows "plansAll g"
proof -
  have "case bcPlan g p of Inr _ \<Rightarrow> True | Inl _ \<Rightarrow> False" if "p \<in> set (bcPaths g)" for p
    using plan_isl [OF assms(1), of p] assms(2) that by (cases "bcPlan g p") auto
  then show ?thesis by (simp add: plansAll_def list_all_iff)
qed

lemma serving_start:
  fixes E :: "'s env"
  assumes "operates L V E rs name version m g" "bootable g c" "distinct queue"
    and "set queue = set (controllersOf (bcPaths g))"
  shows "controllers.serving TYPE('s) g L V E rs name version m queue c"
  unfolding controllers.serving_def using assms by (simp add: live_all del: set_controllersOf)

lemma settleGoal_bound:
  "settleGoal g c * card (set (controllersOf (bcPaths g))) \<le>
     (2 * length (bcPaths g) + 1) * (2 * length (bcPaths g))"
  using stagesLeft_le [of g c] card_controllersOf [of "bcPaths g"]
  by (intro mult_le_mono) (auto simp: settleGoal_def settleJobs_def)

lemma pathGoal_bounds:
  "readyGoal g p c * card (set (controllersOf (bcPaths g))) \<le> 3 * (2 * length (bcPaths g))"
  "errorGoal g p c * card (set (controllersOf (bcPaths g))) \<le> 1 * (2 * length (bcPaths g))"
  by (intro mult_le_mono card_controllersOf, simp add: readyJobs_def errorJobs_def)+

lemma converges:
  fixes E :: "'s env"
  assumes "operates L V E rs name version m g" "bootable g c" "HTTPPath \<notin> set (bcPaths g) \<or> has_uki m"
    and "distinct queue" "set queue = set (controllersOf (bcPaths g))"
    and "(2 * length (bcPaths g) + 1) * (2 * length (bcPaths g)) \<le> n"
  shows "reaches V (runLoop V (runController L E rs (bcKey g)) (woken (bcIsCtl g) E (bcPaths g) (bcKey g)) n queue
      :: ('s, unit, controller list) io) c (\<lambda>_ c'. bootable g c' \<and> settled g c')"
proof -
  have "settleGoal g c * card (set (controllersOf (bcPaths g))) \<le> n"
    using settleGoal_bound assms(6) order.trans by blast
  from settling.goal_settles [OF serving_start [OF assms(1,2,4,5)] this] show ?thesis
    by (rule reaches_conseq)
      (simp add: controllers.serving_def settleGoal_def operates_plansAll [OF assms(1,3)] settleJobs_0
        del: set_controllersOf)
qed

lemma oscillates:
  fixes E :: "'s env"
  assumes "operates L V E rs name version m g" "bootable g c" "set (bcPaths g) = {HTTPPath, PXEPath}" "\<not> has_uki m"
    and "distinct queue" "set queue = set (controllersOf (bcPaths g))"
  shows "reaches V (runLoop V (runController L E rs (bcKey g)) (woken (bcIsCtl g) E (bcPaths g) (bcKey g)) n queue
      :: ('s, unit, controller list) io) c
    (\<lambda>queue c.
      within V (runController L E rs (bcKey g) :: controller \<Rightarrow> ('s, unit, unit) io)
        (woken (bcIsCtl g) E (bcPaths g) (bcKey g)) (\<lambda>_ c'. configState g c' = SBCStateReady) 12 queue c \<and>
      within V (runController L E rs (bcKey g) :: controller \<Rightarrow> ('s, unit, unit) io)
        (woken (bcIsCtl g) E (bcPaths g) (bcKey g)) (\<lambda>_ c'. configState g c' = SBCStateError) 4 queue c)"
    (is "reaches V ?loop c (\<lambda>queue c. ?ready queue c \<and> ?error queue c)")
proof -
  have two: "length (bcPaths g) = 2"
    using assms(1,3) distinct_card [of "bcPaths g"] by (simp add: operates_def)
  have goals: "?ready queue c \<and> ?error queue c"
    if "controllers.serving TYPE('s) g L V E rs name version m queue c" for queue c
  proof
    have "readyGoal g PXEPath c * card (set (controllersOf (bcPaths g))) \<le> 12"
      using pathGoal_bounds(1) [of g PXEPath c] two by simp
    from readying.goal_within [OF that this] show "?ready queue c"
      by (rule within_mono)
        (auto simp: assms(3) plan_isl [OF assms(1)] readyJobs_def split: if_splits)
    have "errorGoal g HTTPPath c * card (set (controllersOf (bcPaths g))) \<le> 4"
      using pathGoal_bounds(2) [of g HTTPPath c] two by simp
    from failing.goal_within [OF that this] show "?error queue c"
      by (rule within_mono)
        (auto simp: assms(3,4) plan_isl [OF assms(1)] errorJobs_def split: if_splits)
  qed
  show ?thesis
    by (rule reaches_conseq [OF controllers.runLoop_serving [OF serving_start [OF assms(1,2,5,6)]] goals])
qed

section \<open>A sample cluster\<close>

definition lookupObj :: "('k \<rightharpoonup> 'o) \<Rightarrow> 'k \<Rightarrow> api_error + 'o" where
  "lookupObj m k = (case m k of Some x \<Rightarrow> Inr x | None \<Rightarrow> Inl (APINotFound ''not found''))"

definition mergeHTTP :: "http_boot_config option \<Rightarrow> http_boot_config \<Rightarrow> http_boot_config" where
  "mergeHTTP old x =
     (case old of
        None \<Rightarrow> x\<lparr>httpStatus := \<lparr>httpState = [], httpConditions = []\<rparr>,
          httpMeta := (httpMeta x)\<lparr>metaDeletionTimestamp := None\<rparr>\<rparr>
      | Some z \<Rightarrow>
          if httpSpec z = httpSpec x \<and> holdsMeta (httpMeta x) (httpMeta z) then z
          else x\<lparr>httpStatus := httpStatus z,
            httpMeta := (httpMeta x)\<lparr>metaDeletionTimestamp := metaDeletionTimestamp (httpMeta z)\<rparr>\<rparr>)"

definition mergeIPXE :: "ipxe_boot_config option \<Rightarrow> ipxe_boot_config \<Rightarrow> ipxe_boot_config" where
  "mergeIPXE old x =
     (case old of
        None \<Rightarrow> x\<lparr>ipxeStatus := \<lparr>ipxeState = [], ipxeConditions = []\<rparr>,
          ipxeMeta := (ipxeMeta x)\<lparr>metaDeletionTimestamp := None\<rparr>\<rparr>
      | Some z \<Rightarrow>
          if ipxeSpec z = ipxeSpec x \<and> holdsMeta (ipxeMeta x) (ipxeMeta z) then z
          else x\<lparr>ipxeStatus := ipxeStatus z,
            ipxeMeta := (ipxeMeta x)\<lparr>metaDeletionTimestamp := metaDeletionTimestamp (ipxeMeta z)\<rparr>\<rparr>)"

text \<open>An API server that is a cluster, with the registry of \<open>onlineEnv\<close>.\<close>

definition clusterEnv :: "cluster env" where
  "clusterEnv = onlineEnv\<lparr>
     e_getSecret := \<lambda>_ k s. (lookupObj (clSecrets s) k, s),
     e_getServer := \<lambda>_ k s. (lookupObj (clServers s) k, s),
     e_getSBC := \<lambda>_ k s. (lookupObj (clSBCs s) k, s),
     e_getHTTP := \<lambda>_ k s. (lookupObj (clHTTPs s) k, s),
     e_getIPXE := \<lambda>_ k s. (lookupObj (clIPXEs s) k, s),
     e_patchHTTPStatus := \<lambda>b x s. (None, putHTTP (objectKey (httpMeta b)) (b\<lparr>httpStatus := httpStatus x\<rparr>) s),
     e_patchIPXEStatus := \<lambda>b x s. (None, putIPXE (objectKey (ipxeMeta b)) (b\<lparr>ipxeStatus := ipxeStatus x\<rparr>) s),
     e_patchSBCStatus := \<lambda>b x s. (None, putSBC (objectKey (sbcMeta b))
       (b\<lparr>sbcState := sbcState x, sbcConditions := sbcConditions x\<rparr>) s),
     e_applyHTTP := \<lambda>_ x s. (None, putHTTP (objectKey (httpMeta x))
       (mergeHTTP (clHTTPs s (objectKey (httpMeta x))) x) s),
     e_applyIPXE := \<lambda>_ x s. (None, putIPXE (objectKey (ipxeMeta x))
       (mergeIPXE (clIPXEs s (objectKey (ipxeMeta x))) x) s)\<rparr>"

lemma answers_lookup: "answers (\<lambda>s. s) (\<lambda>k s. (lookupObj (objs s) k, s)) objs"
  by (simp add: answers_def lookupObj_def split: option.split)

lemma applied_merge: "appliedHTTP old x (mergeHTTP old x)" "appliedIPXE old' z (mergeIPXE old' z)"
  by (simp_all add: appliedHTTP_def appliedIPXE_def appliedMeta_def mergeHTTP_def mergeIPXE_def objectKey_def
      holdsMeta_def split: option.split)

lemma steady_clusterEnv: "steadyCluster (\<lambda>s. s) clusterEnv"
proof -
  have "applies (\<lambda>s. s) (e_applyHTTP clusterEnv) clHTTPs putHTTP (\<lambda>x. objectKey (httpMeta x)) httpConforms appliedHTTP"
    "applies (\<lambda>s. s) (e_applyIPXE clusterEnv) clIPXEs putIPXE (\<lambda>x. objectKey (ipxeMeta x)) ipxeConforms appliedIPXE"
    unfolding applies_def clusterEnv_def by (auto intro: applied_merge)
  then show ?thesis
    unfolding steadyCluster_def patches_def
    by (simp add: clusterEnv_def onlineEnv_def offlineEnv_def answers_lookup)
qed

definition sampleServer :: server where
  "sampleServer = \<lparr>serverName = ''server'', serverSystemUUID = ''4c4c4544'',
     serverBootConfigurationRef = None, serverMaintenanceBootConfigurationRef = None,
     serverState = ServerStateOther ''Available'', serverNetworkInterfaces = []\<rparr>"

definition sampleCluster :: cluster where
  "sampleCluster = \<lparr>clSecrets = (\<lambda>_. None), clServers = [''server'' \<mapsto> sampleServer],
     clSBCs = [NN ''ns'' ''boot'' \<mapsto> sampleConfig], clHTTPs = (\<lambda>_. None), clIPXEs = (\<lambda>_. None)\<rparr>"

text \<open>Images that boot over PXE, without and with a UKI.\<close>

definition pxeManifest :: manifest where
  "pxeManifest = [zeroDescriptor\<lparr>descMediaType := MediaTypeKernelOld, descDigest := ''sha256:ab''\<rparr>,
     zeroDescriptor\<lparr>descMediaType := MediaTypeInitrdOld, descDigest := ''sha256:ef''\<rparr>]"

definition fullManifest :: manifest where
  "fullManifest = zeroDescriptor\<lparr>descMediaType := MediaTypeUKI, descDigest := ''sha256:cd''\<rparr> # pxeManifest"

definition controllerRef :: "server_boot_config \<Rightarrow> owner_reference" where
  "controllerRef sbc = \<lparr>orAPIVersion = ''metal.ironcore.dev/v1alpha1'', orKind = serverBootConfigurationKind,
     orName = metaName (sbcMeta sbc), orUID = metaUID (sbcMeta sbc)\<rparr>"

definition clusterLib :: "manifest \<Rightarrow> lib" where
  "clusterLib m = imageLib\<lparr>l_decodeManifest := \<lambda>_. Inr m, l_setControllerReference :=
     \<lambda>sbc meta. Inr (meta\<lparr>metaOwnerReferences := [controllerRef sbc]\<rparr>),
   l_setStatusCondition := \<lambda>now cs d.
     if findCondition cs (condType d) = Some (condView d) then cs else updateCondition now cs d,
   l_removeStatusCondition := \<lambda>cs t. filter (\<lambda>d. condType d \<noteq> t) cs\<rparr>"

definition sampleReconcilers :: reconcilers where
  "sampleReconcilers = \<lparr>rcHTTP = sampleHTTPReconciler, rcPXE = samplePXE\<rparr>"

definition sampleCase :: "manifest \<Rightarrow> boot_case" where
  "sampleCase m = bootCase (clusterLib m) sampleReconcilers (\<lambda>_. True)
     ((configMeta sampleConfig)\<lparr>metaOwnerReferences := [controllerRef sampleConfig]\<rparr>) [HTTPPath, PXEPath]
     ''ghcr.io/org/os'' ''1.0'' m sampleConfig sampleServer"

lemma sample_layers: "bootable_layers pxeManifest" "bootable_layers fullManifest" "\<not> has_uki pxeManifest" "has_uki fullManifest"
  by (simp_all add: bootable_layers_def lastDigest_def pxeManifest_def fullManifest_def has_uki_def media_types
      MediaTypeUKI_def)

lemma sample_image:
  "ParseImageReference (clusterLib m) (sbcImage sampleConfig) = Inr (''ghcr.io/org/os'', ''1.0'')"
  "ValidateImageRegistry (clusterLib m) (NewValidator []) (BuildImageReference ''ghcr.io/org/os'' ''1.0'') = None"
  using layerless_image
  by (simp_all add: ParseImageReference_def ValidateImageRegistry_def ExtractRegistryDomain_def
      clusterLib_def layerlessLib_def samplePXE_def)

lemma sample_operates:
  assumes "bootable_layers m"
  shows "operates (clusterLib m) (\<lambda>s. s) clusterEnv sampleReconcilers ''ghcr.io/org/os'' ''1.0'' m (sampleCase m)"
proof -
  have registry: "registryHolds (clusterLib m) (\<lambda>s. s) clusterEnv ref m" for ref
    unfolding registryHolds_def
    by (intro exI [of _ ref] exI [of _ zeroDescriptor] exI [of _ "[]"])
      (simp add: yields_def clusterEnv_def onlineEnv_def offlineEnv_def zeroDescriptor_def
        clusterLib_def imageLib_def sampleLib_def)
  have "pathValidator sampleReconcilers p = NewValidator []" for p
    by (cases p) (simp_all add: sampleReconcilers_def sampleHTTPReconciler_def samplePXE_def)
  then have "imageHeld (clusterLib m) (\<lambda>s. s) clusterEnv (pathValidator sampleReconcilers p) (sbcImage sampleConfig)
      ''ghcr.io/org/os'' ''1.0'' m" for p
    by (simp add: imageHeld_def sample_image registry)
  then show ?thesis
    using assms steady_clusterEnv
    by (simp add: operates_def sampleCase_def bootCase_def ownable_def clusterLib_def controls_def controllerRef_def
        configMeta_def objectKey_def newMeta_def withStatus_planned)
      (simp add: sampleConfig_def newMeta_def)
qed

lemma sample_bootable: "bootable (sampleCase m) sampleCluster"
proof -
  have "resourceAt p k sampleCluster = None" for p k by (cases p) (simp_all add: sampleCluster_def)
  then show ?thesis
    by (simp add: bootable_def sampleCase_def bootCase_def sampleCluster_def)
      (simp add: sampleConfig_def ignitionReady_def objectKey_def newMeta_def withStatus_def)
qed

section \<open>Properties\<close>

text \<open>C4: In a cluster that answers every call and that nobody else changes, a boot configuration
  whose server, ignition secret and image (admitted, held by the registry, and with the layers
  that the enabled boot paths need) are there becomes \<open>Ready\<close>, however the requests of the enabled
  controllers, all pending as after a start, are ordered: within 6 runs with one boot path, within
  20 with both. Each path then has its resource, also \<open>Ready\<close>, which the configuration controls,
  with the server's UUID and addresses, the secret and the image's URLs. The runs make the
  requests that the next ones need, and further runs do not undo this.\<close>

theorem operator_converges:
  fixes E :: "'s env"
  assumes "operates L V E rs name version m g" "bootable g c" "HTTPPath \<notin> set (bcPaths g) \<or> has_uki m"
    and "distinct queue" "set queue = set (controllersOf (bcPaths g))"
    and "(2 * length (bcPaths g) + 1) * (2 * length (bcPaths g)) \<le> n"
  shows "reaches V (runLoop V (runController L E rs (bcKey g)) (woken (bcIsCtl g) E (bcPaths g) (bcKey g)) n queue
      :: ('s, unit, controller list) io) c (\<lambda>_ c'. bootable g c' \<and> settled g c')"
  by (rule converges [OF assms])

lemma sampleCase_fields:
  "bcKey (sampleCase m) = NN ''ns'' ''boot''" "bcPaths (sampleCase m) = [HTTPPath, PXEPath]"
  "bcIsCtl (sampleCase m) = (\<lambda>_. True)"
  by (simp_all add: sampleCase_def bootCase_def sampleConfig_def objectKey_def newMeta_def)

lemma sample_queue:
  "distinct (controllersOf [HTTPPath, PXEPath])"
  "set (controllersOf [HTTPPath, PXEPath]) = set (controllersOf (bcPaths (sampleCase m)))"
  by (simp_all add: sampleCase_fields) (simp add: controllersOf_def)

lemma operator_converges_witness:
  "settled (sampleCase fullManifest) (ext (snd (run_state (runLoop (\<lambda>s. s)
      (runController (clusterLib fullManifest) clusterEnv sampleReconcilers (NN ''ns'' ''boot''))
      (woken (\<lambda>_. True) clusterEnv [HTTPPath, PXEPath] (NN ''ns'' ''boot'')) 20
      (controllersOf [HTTPPath, PXEPath]) :: (cluster, unit, _) io) (startWorld sampleCluster))))"
proof -
  have n: "(2 * length (bcPaths (sampleCase fullManifest)) + 1) * (2 * length (bcPaths (sampleCase fullManifest))) \<le> 20"
    by (simp add: sampleCase_fields)
  note run = operator_converges [OF sample_operates [OF sample_layers(2)] sample_bootable _ sample_queue n]
  have "ext (startWorld sampleCluster) = sampleCluster" by (simp add: startWorld_def)
  from reaches_run [OF run this] show ?thesis by (simp add: sample_layers(4) sampleCase_fields)
qed

text \<open>C6: With both boot paths enabled, which is the default, an image that has the layers of the PXE path
  but no UKI never lets its boot configuration come to rest, in a cluster that nobody else changes:
  after any number of runs, the configuration is again \<open>Ready\<close> within 12 runs and again in
  \<open>Error\<close> within 4. The PXE controller copies the state of its resource, the HTTP controller
  records its image error, and each change wakes the other.\<close>

theorem paths_oscillate:
  fixes E :: "'s env"
  assumes "operates L V E rs name version m g" "bootable g c" "set (bcPaths g) = {HTTPPath, PXEPath}" "\<not> has_uki m"
    and "distinct queue" "set queue = set (controllersOf (bcPaths g))"
  shows "reaches V (runLoop V (runController L E rs (bcKey g)) (woken (bcIsCtl g) E (bcPaths g) (bcKey g)) n queue
      :: ('s, unit, controller list) io) c
    (\<lambda>queue c.
      within V (runController L E rs (bcKey g) :: controller \<Rightarrow> ('s, unit, unit) io)
        (woken (bcIsCtl g) E (bcPaths g) (bcKey g)) (\<lambda>_ c'. configState g c' = SBCStateReady) 12 queue c \<and>
      within V (runController L E rs (bcKey g) :: controller \<Rightarrow> ('s, unit, unit) io)
        (woken (bcIsCtl g) E (bcPaths g) (bcKey g)) (\<lambda>_ c'. configState g c' = SBCStateError) 4 queue c)"
  by (rule oscillates [OF assms])

lemma paths_oscillate_witness:
  "\<forall>n. reaches (\<lambda>s. s) (runLoop (\<lambda>s. s) (runController (clusterLib pxeManifest) clusterEnv sampleReconcilers (NN ''ns'' ''boot''))
      (woken (\<lambda>_. True) clusterEnv [HTTPPath, PXEPath] (NN ''ns'' ''boot'')) n
      (controllersOf [HTTPPath, PXEPath]) :: (cluster, unit, _) io) sampleCluster
    (\<lambda>queue c. within (\<lambda>s. s)
      (runController (clusterLib pxeManifest) clusterEnv sampleReconcilers (NN ''ns'' ''boot'') :: _ \<Rightarrow> (cluster, unit, _) io)
      (woken (\<lambda>_. True) clusterEnv [HTTPPath, PXEPath] (NN ''ns'' ''boot''))
      (\<lambda>_ c'. configState (sampleCase pxeManifest) c' = SBCStateError) 4 queue c)"
proof
  fix n
  have paths: "set (bcPaths (sampleCase pxeManifest)) = {HTTPPath, PXEPath}" by (auto simp: sampleCase_fields)
  note run = paths_oscillate [OF sample_operates [OF sample_layers(1)] sample_bootable paths sample_layers(3)
    sample_queue, where n = n, unfolded sampleCase_fields]
  show "reaches (\<lambda>s. s) (runLoop (\<lambda>s. s) (runController (clusterLib pxeManifest) clusterEnv sampleReconcilers (NN ''ns'' ''boot''))
      (woken (\<lambda>_. True) clusterEnv [HTTPPath, PXEPath] (NN ''ns'' ''boot'')) n
      (controllersOf [HTTPPath, PXEPath]) :: (cluster, unit, _) io) sampleCluster
    (\<lambda>queue c. within (\<lambda>s. s)
      (runController (clusterLib pxeManifest) clusterEnv sampleReconcilers (NN ''ns'' ''boot'') :: _ \<Rightarrow> (cluster, unit, _) io)
      (woken (\<lambda>_. True) clusterEnv [HTTPPath, PXEPath] (NN ''ns'' ''boot''))
      (\<lambda>_ c'. configState (sampleCase pxeManifest) c' = SBCStateError) 4 queue c)"
    by (rule reaches_conseq [OF run]) blast
qed

end
