(* ===== verification/Rest.thy ===== *)
theory Rest
  imports Watches
begin

text \<open>
  The operator comes to rest: when a boot configuration is settled, its controllers soon have
  nothing left to write, so they make no further requests and the work queue becomes empty.
\<close>

section \<open>Copied conditions\<close>

text \<open>
  The documented behaviour of \<open>apimeta.SetStatusCondition\<close> and \<open>RemoveStatusCondition\<close>: they set and
  remove a condition, and change nothing, the transition time included, where there is nothing to
  set or remove.
\<close>

definition conditionLaws :: "lib \<Rightarrow> bool" where
  "conditionLaws L \<longleftrightarrow>
     (\<forall>now. condition_upsert (l_setStatusCondition L now)) \<and> removes (l_removeStatusCondition L) \<and>
     (\<forall>now cs d. findCondition cs (condType d) = Some (condView d) \<longrightarrow> l_setStatusCondition L now cs d = cs) \<and>
     (\<forall>cs t. findCondition cs t = None \<longrightarrow> l_removeStatusCondition L cs t = cs)"

text \<open>Conditions as the boot server sets them on the resources, and a list that has them all.\<close>

definition deliveredView :: "string \<Rightarrow> condition_view option" where
  "deliveredView t = map_option condView (predefinedConditions t)"

definition delivered :: "condition list \<Rightarrow> bool" where
  "delivered ds \<longleftrightarrow> list_all (\<lambda>d. deliveredView (condType d) = Some (condView d)) ds"

definition hasAll :: "condition list \<Rightarrow> condition list \<Rightarrow> bool" where
  "hasAll cs ds \<longleftrightarrow> findCondition cs ''ImageValidation'' = None \<and>
     list_all (\<lambda>d. findCondition cs (condType d) = Some (condView d)) ds"

lemma deliveredD: "delivered ds \<Longrightarrow> d \<in> set ds \<Longrightarrow> deliveredView (condType d) = Some (condView d)"
  by (simp add: delivered_def list_all_iff)

lemma hasAllD: "hasAll cs ds \<Longrightarrow> d \<in> set ds \<Longrightarrow> findCondition cs (condType d) = Some (condView d)"
  by (simp add: hasAll_def list_all_iff)

lemma no_image_condition: "delivered ds \<Longrightarrow> ''ImageValidation'' \<notin> condType ` set ds"
proof
  assume "delivered ds" "''ImageValidation'' \<in> condType ` set ds"
  then have "deliveredView ''ImageValidation'' \<noteq> None" by (auto dest: deliveredD)
  then show False by (simp add: deliveredView_def predefinedConditions_def)
qed

lemma setAll_find:
  assumes "conditionLaws L" "delivered ds" "setAll L ds old cs"
  shows "findCondition cs t = (if t \<in> condType ` set ds then deliveredView t else findCondition old t)"
proof -
  obtain times where "length times = length ds"
    "cs = foldl (\<lambda>cs tc. l_setStatusCondition L (fst tc) cs (snd tc)) old (zip times ds)"
    using assms(3) by (auto simp: setAll_def)
  then have "findCondition cs t = (case lastCondition ds t of Some v \<Rightarrow> Some v | None \<Rightarrow> findCondition old t)"
    using find_copied [where f = "l_setStatusCondition L"] assms(1) by (simp add: conditionLaws_def)
  moreover have "lastCondition ds t = (if t \<in> condType ` set ds then deliveredView t else None)"
  proof (cases "List.find (\<lambda>c. condType c = t) (rev ds)")
    case None
    then show ?thesis by (auto simp: lastCondition_def find_None_iff)
  next
    case (Some d)
    from find_SomeD [OF this] show ?thesis
      using Some deliveredD [OF assms(2), of d] by (auto simp: lastCondition_def)
  qed
  ultimately show ?thesis using assms(2) by (auto dest: deliveredD)
qed

lemma copied_find:
  assumes "conditionLaws L" "delivered ds" "copiedConditions L st ds old cs"
  shows "findCondition cs t =
    (if t \<in> condType ` set ds then deliveredView t
     else if st = ''Ready'' \<and> t = ''ImageValidation'' then None else findCondition old t)"
  using setAll_find [OF assms(1,2) assms(3) [unfolded copiedConditions_def]] assms(1)
  by (simp add: conditionLaws_def removes_def)

lemma setAll_same:
  assumes "conditionLaws L" "hasAll cs ds" "setAll L ds cs cs'"
  shows "cs' = cs"
proof -
  obtain times where t: "length times = length ds"
    "cs' = foldl (\<lambda>cs tc. l_setStatusCondition L (fst tc) cs (snd tc)) cs (zip times ds)"
    using assms(3) by (auto simp: setAll_def)
  have "foldl (\<lambda>cs tc. l_setStatusCondition L (fst tc) cs (snd tc)) cs (zip times ds) = cs"
    using t(1) hasAllD [OF assms(2)]
  proof (induction times ds rule: list_induct2)
    case (Cons t times d ds)
    then show ?case using assms(1) by (simp add: conditionLaws_def)
  qed simp
  with t(2) show ?thesis by simp
qed

lemma copied_same:
  assumes "conditionLaws L" "hasAll cs ds" "copiedConditions L st ds cs cs'"
  shows "cs' = cs"
proof -
  have "l_removeStatusCondition L cs ''ImageValidation'' = cs"
    using assms(1,2) by (simp add: conditionLaws_def hasAll_def)
  with setAll_same [OF assms(1,2)] assms(3) show ?thesis by (simp add: copiedConditions_def split: if_splits)
qed

text \<open>What was copied stays when the conditions of another resource are copied.\<close>

lemma copied_hasAll:
  assumes "conditionLaws L" "delivered ds" "delivered ds'" "copiedConditions L st ds old cs"
  shows "hasAll old ds' \<Longrightarrow> hasAll cs ds'" "st = ''Ready'' \<Longrightarrow> hasAll cs ds"
  using copied_find [OF assms(1,2,4)] no_image_condition [OF assms(2)] no_image_condition [OF assms(3)]
    deliveredD [OF assms(2)] deliveredD [OF assms(3)]
  by (auto simp: hasAll_def list_all_iff image_iff)

section \<open>Paths that have nothing left to copy\<close>

text \<open>The resources have only conditions that the boot server gives them.\<close>

definition resourcesDelivered :: "boot_case \<Rightarrow> cluster \<Rightarrow> bool" where
  "resourcesDelivered g c \<longleftrightarrow> (\<forall>p. case resourceAt p (bcKey g) c of
     Some y \<Rightarrow> delivered (rsConditions y) | None \<Rightarrow> True)"

text \<open>The resource has the metadata, and the boot configuration the conditions, of a last run.\<close>

definition synced :: "boot_case \<Rightarrow> boot_path \<Rightarrow> cluster \<Rightarrow> bool" where
  "synced g p c \<longleftrightarrow> (case resourceAt p (bcKey g) c of
     Some y \<Rightarrow> holdsMeta (bcMeta g) (rsMeta y) \<and> hasAll (configConditions g c) (rsConditions y)
   | None \<Rightarrow> False)"

lemma deliveredAt: "resourcesDelivered g c \<Longrightarrow> resourceAt p (bcKey g) c = Some y \<Longrightarrow> delivered (rsConditions y)"
  by (auto simp: resourcesDelivered_def dest: spec [where x = p])

text \<open>No run changes the conditions of a resource or takes metadata from it.\<close>

lemma ran_resource:
  assumes "controllerRan g k c c'" "resourceAt p (bcKey g) c' = Some y'"
  shows "rsConditions y' = (case resourceAt p (bcKey g) c of Some y \<Rightarrow> rsConditions y | None \<Rightarrow> [])"
    and "resourceAt p (bcKey g) c = Some y \<Longrightarrow> holdsMeta (bcMeta g) (rsMeta y) \<Longrightarrow> holdsMeta (bcMeta g) (rsMeta y')"
proof -
  have "rsConditions y' = (case resourceAt p (bcKey g) c of Some y \<Rightarrow> rsConditions y | None \<Rightarrow> []) \<and>
    (resourceAt p (bcKey g) c = Some y \<and> holdsMeta (bcMeta g) (rsMeta y) \<longrightarrow> holdsMeta (bcMeta g) (rsMeta y'))"
  proof (cases "resourceAt p (bcKey g) c' = resourceAt p (bcKey g) c")
    case True
    with assms(2) show ?thesis by simp
  next
    case False
    with touchesOnly_resource [OF ran_touchesOnly [OF assms(1)], of p "bcKey g"]
    consider "k = ConfigController p" | "k = ResourceController p" by (cases k) auto
    then show ?thesis
    proof cases
      case 1
      with assms False show ?thesis
        by (cases "bcPlan g p") (auto simp: configRan_def asPlanned_def appliedMeta_def split: option.splits)
    next
      case 2
      with assms False show ?thesis by (auto simp: resourceRan_def split: option.splits)
    qed
  qed
  then show "rsConditions y' = (case resourceAt p (bcKey g) c of Some y \<Rightarrow> rsConditions y | None \<Rightarrow> [])"
    "resourceAt p (bcKey g) c = Some y \<Longrightarrow> holdsMeta (bcMeta g) (rsMeta y) \<Longrightarrow> holdsMeta (bcMeta g) (rsMeta y')"
    by simp_all
qed

lemma ran_delivered:
  assumes "controllerRan g k c c'" "resourcesDelivered g c"
  shows "resourcesDelivered g c'"
proof -
  have "delivered (rsConditions y')" if "resourceAt p (bcKey g) c' = Some y'" for p y'
    using ran_resource(1) [OF assms(1) that] deliveredAt [OF assms(2), of p]
    by (auto simp: delivered_def split: option.splits)
  then show ?thesis by (auto simp: resourcesDelivered_def split: option.split)
qed

lemma ran_present:
  assumes "controllerRan g k c c'" "resourceAt p (bcKey g) c \<noteq> None"
  shows "resourceAt p (bcKey g) c' \<noteq> None"
proof (cases k)
  case (ConfigController q)
  with assms touchesOnly_resource [OF ran_touchesOnly [OF assms(1)], of p "bcKey g"] show ?thesis
    by (cases "p = q"; cases "bcPlan g q") (auto simp: configRan_def)
next
  case (ResourceController q)
  with assms touchesOnly_resource [OF ran_touchesOnly [OF assms(1)], of p "bcKey g"] show ?thesis
    by (cases "p = q") (auto simp: resourceRan_def)
qed

text \<open>What a run for the boot configuration does to its conditions.\<close>

lemma configRan_conditions:
  assumes "configRan g q c c'" "bcPlan g q = Inr spec"
  obtains y where "resourceAt q (bcKey g) c' = Some y" "holdsMeta (bcMeta g) (rsMeta y)"
    "copiedConditions (bcLib g) (rsState y) (rsConditions y) (configConditions g c) (configConditions g c')"
  using assms by (auto simp: configRan_def asPlanned_def appliedMeta_def configConditions_def [of g c'])

lemma ran_synced:
  assumes "controllerRan g k c c'" "plansAll g" "k \<in> set (controllersOf (bcPaths g))" "conditionLaws (bcLib g)"
    and "resourcesDelivered g c" "synced g p c"
  shows "synced g p c'"
proof -
  obtain y where y: "resourceAt p (bcKey g) c = Some y" "holdsMeta (bcMeta g) (rsMeta y)"
    "hasAll (configConditions g c) (rsConditions y)"
    using assms(6) by (auto simp: synced_def split: option.splits)
  obtain y' where y': "resourceAt p (bcKey g) c' = Some y'" using ran_present [OF assms(1), of p] y(1) by auto
  note kept = ran_resource [OF assms(1) y']
  have conds: "rsConditions y' = rsConditions y" using kept(1) y(1) by simp
  have "hasAll (configConditions g c') (rsConditions y)"
  proof (cases k)
    case (ResourceController q)
    with assms(1) have "configConditions g c' = configConditions g c"
      by (simp add: resourceRan_def configConditions_def)
    with y(3) show ?thesis by simp
  next
    case (ConfigController q)
    then obtain spec where "bcPlan g q = Inr spec" using plansAllD [OF assms(2)] assms(3) by auto
    then obtain x where x: "resourceAt q (bcKey g) c' = Some x"
      "copiedConditions (bcLib g) (rsState x) (rsConditions x) (configConditions g c) (configConditions g c')"
      using configRan_conditions assms(1) ConfigController by (metis controllerRan.simps(1))
    from copied_hasAll(1) [OF assms(4) _ _ x(2) y(3)] deliveredAt [OF ran_delivered [OF assms(1,5)] x(1)]
      deliveredAt [OF assms(5) y(1)] show ?thesis by blast
  qed
  then show ?thesis using y' kept(2) [OF y(1,2)] conds by (simp add: synced_def)
qed

lemma config_synced:
  assumes "configRan g p c c'" "bcPlan g p = Inr spec" "conditionLaws (bcLib g)" "resourcesDelivered g c"
    and "pathStage g p c' = ResourceReady"
  shows "synced g p c'"
proof -
  obtain y where y: "resourceAt p (bcKey g) c' = Some y" "holdsMeta (bcMeta g) (rsMeta y)"
    "copiedConditions (bcLib g) (rsState y) (rsConditions y) (configConditions g c) (configConditions g c')"
    by (rule configRan_conditions [OF assms(1,2)])
  have "controllerRan g (ConfigController p) c c'" using assms(1) by simp
  from deliveredAt [OF ran_delivered [OF this assms(4)] y(1)]
  have d: "delivered (rsConditions y)" .
  have "rsState y = ''Ready''" using assms(5) y(1) by (simp add: pathStage_def split: if_splits)
  from copied_hasAll(2) [OF assms(3) d d y(3) this] y(1,2) show ?thesis by (simp add: synced_def)
qed

section \<open>Runs that change nothing\<close>

lemma view_inj: "inj viewHTTPResource" "inj viewIPXEResource"
  by (auto intro!: injI http_boot_config.equality http_boot_config_status.equality ipxe_boot_config.equality
      ipxe_boot_config_status.equality simp: viewHTTPResource_def viewIPXEResource_def)

lemma unchanged_cluster:
  assumes "touchesOnly p k c c'" "resourceAt p k c' = resourceAt p k c" "clSBCs c' = clSBCs c"
  shows "c' = c"
proof (rule cluster.equality)
  have same: "resourceAt q k' c' = resourceAt q k' c" for q k'
    using touchesOnly_resource [OF assms(1), of q k'] assms(2) by blast
  show "clHTTPs c' = clHTTPs c"
    using same [of HTTPPath] injD [OF option.inj_map [OF view_inj(1)]] by (auto simp: fun_eq_iff)
  show "clIPXEs c' = clIPXEs c"
    using same [of PXEPath] injD [OF option.inj_map [OF view_inj(2)]] by (auto simp: fun_eq_iff)
  show "clSecrets c' = clSecrets c" "clServers c' = clServers c" using assms(1) by (simp_all add: touchesOnly_def)
qed (use assms(3) in simp_all)

text \<open>At rest: settled, with nothing left to copy on any path.\<close>

definition resting :: "boot_case \<Rightarrow> cluster \<Rightarrow> bool" where
  "resting g c \<longleftrightarrow> settled g c \<and> list_all (\<lambda>p. synced g p c) (bcPaths g)"

lemma settled_resource:
  assumes "settled g c" "p \<in> set (bcPaths g)"
  obtains y where "resourceAt p (bcKey g) c = Some y" "wanted g p y" "rsState y = ''Ready''"
  using assms by (auto simp: settled_def pathStage_def split: option.splits if_splits dest: bspec)

lemma rest_config:
  assumes "configRan g p c c'" "settled g c" "synced g p c" "p \<in> set (bcPaths g)" "bootable g c"
    and "conditionLaws (bcLib g)"
  shows "c' = c"
proof -
  obtain y where y: "resourceAt p (bcKey g) c = Some y" "wanted g p y" "rsState y = ''Ready''"
    by (rule settled_resource [OF assms(2,4)])
  have plan: "bcPlan g p = Inr (rsSpec y)" using y(2) by (simp add: wanted_def)
  have synced: "holdsMeta (bcMeta g) (rsMeta y)" "hasAll (configConditions g c) (rsConditions y)"
    using assms(3) y(1) by (simp_all add: synced_def)
  obtain y' cs where run: "touchesOnly p (bcKey g) c c'" "resourceAt p (bcKey g) c' = Some y'"
    "asPlanned g (Some y) (rsSpec y) y'"
    "copiedConditions (bcLib g) (rsState y') (rsConditions y') (configConditions g c) cs"
    "clSBCs c' = (clSBCs c)(bcKey g \<mapsto> withStatus (bcConfig g) (copyState (rsState y') (configState g c)) cs)"
    using assms(1) plan y(1) by (auto simp: configRan_def)
  have same: "y' = y" using run(3) synced(1) by (simp add: asPlanned_def)
  have "cs = configConditions g c"
    by (rule copied_same [OF assms(6) synced(2) run(4) [unfolded same]])
  moreover have "clSBCs c (bcKey g) = Some (withStatus (bcConfig g) (configState g c) (configConditions g c))"
    using bootable_config [OF assms(5)] by (metis configConditions_def option.case(2) withStatus_state(2))
  moreover have "copyState (rsState y) (configState g c) = configState g c"
    using y(3) assms(2) by (simp add: copyState_def settled_def)
  ultimately have "clSBCs c' = clSBCs c" using run(5) same by (simp add: fun_upd_idem)
  then show ?thesis by (intro unchanged_cluster [OF run(1)]) (simp_all add: run(2) y(1) same)
qed

lemma rest_resource:
  assumes "resourceRan p (bcKey g) c c'" "settled g c" "p \<in> set (bcPaths g)" "bootable g c" "plansIgnition g"
  shows "c' = c"
proof -
  obtain y where y: "resourceAt p (bcKey g) c = Some y" "wanted g p y" "rsState y = ''Ready''"
    by (rule settled_resource [OF assms(2,3)])
  obtain st where st: "resourceAt p (bcKey g) c' = Some (y\<lparr>rsState := st\<rparr>)" "usable c y \<longrightarrow> st = ''Ready''"
    using assms(1) y(1) by (auto simp: resourceRan_def)
  have "st = ''Ready''" using st(2) wanted_usable [OF assms(4,5) y(1,2)] by simp
  then have "y\<lparr>rsState := st\<rparr> = y" using y(3) by simp
  with st(1) y(1) have "resourceAt p (bcKey g) c' = resourceAt p (bcKey g) c" by simp
  with assms(1) show ?thesis by (auto simp: resourceRan_def intro: unchanged_cluster)
qed

lemma ran_resting:
  assumes "controllerRan g k c c'" "resting g c" "bootable g c" "plansIgnition g" "conditionLaws (bcLib g)"
    and "k \<in> set (controllersOf (bcPaths g))"
  shows "c' = c"
proof (cases k)
  case (ConfigController p)
  then have p: "p \<in> set (bcPaths g)" using assms(6) by auto
  show ?thesis
    by (rule rest_config [OF _ _ _ p assms(3,5)])
      (use assms(1,2) ConfigController p in \<open>auto simp: resting_def list_all_iff\<close>)
next
  case (ResourceController p)
  then have p: "p \<in> set (bcPaths g)" using assms(6) by auto
  show ?thesis
    by (rule rest_resource [OF _ _ p assms(3,4)]) (use assms(1,2) ResourceController in \<open>simp_all add: resting_def\<close>)
qed

section \<open>The way to rest\<close>

text \<open>A ready path that is not synced has its request pending.\<close>

definition restLive :: "boot_case \<Rightarrow> controller set \<Rightarrow> cluster \<Rightarrow> bool" where
  "restLive g Q c \<longleftrightarrow> live g Q c \<and> (\<forall>p \<in> set (bcPaths g).
     pathStage g p c = ResourceReady \<longrightarrow> synced g p c \<or> ConfigController p \<in> Q)"

definition unsynced :: "boot_case \<Rightarrow> cluster \<Rightarrow> nat" where
  "unsynced g c = sum_list (map (\<lambda>p. if synced g p c then 0 else 1) (bcPaths g))"

definition restJobs :: "boot_case \<Rightarrow> cluster \<Rightarrow> nat" where
  "restJobs g c = settleJobs g c + (if settled g c then unsynced g c else length (bcPaths g))"

definition restUseful :: "boot_case \<Rightarrow> cluster \<Rightarrow> controller \<Rightarrow> bool" where
  "restUseful g c k \<longleftrightarrow>
     (if settled g c then \<exists>p \<in> set (bcPaths g). k = ConfigController p \<and> \<not> synced g p c
      else settleUseful g c k)"

lemma unsynced_le: "unsynced g c \<le> length (bcPaths g)"
  using sum_list_mono [of "bcPaths g" "\<lambda>p. if synced g p c then 0 else 1" "\<lambda>_. 1 :: nat"]
  by (simp add: unsynced_def sum_list_triv)

lemma restJobs_0: "restJobs g c = 0 \<longleftrightarrow> resting g c"
proof -
  have "unsynced g c = 0 \<longleftrightarrow> list_all (\<lambda>p. synced g p c) (bcPaths g)"
    by (auto simp: unsynced_def list_all_iff)
  then show ?thesis by (auto simp: restJobs_def resting_def settleJobs_0)
qed

lemma ran_restLive:
  assumes "controllerRan g k c c'" "bootable g c" "plansIgnition g" "plansAll g" "conditionLaws (bcLib g)"
    and "resourcesDelivered g c" "k \<in> set (controllersOf (bcPaths g))" "wakes g W c c'" "restLive g Q c"
  shows "restLive g (Q - {k} \<union> W) c'"
proof -
  have "synced g p c' \<or> ConfigController p \<in> Q - {k} \<union> W"
    if p: "p \<in> set (bcPaths g)" "pathStage g p c' = ResourceReady" for p
  proof (cases "pathStage g p c' = pathStage g p c")
    case False
    with wakes_stage(2) [OF assms(8) p(1)] p(2) show ?thesis by simp
  next
    case True
    show ?thesis
    proof (cases "synced g p c \<or> k = ConfigController p")
      case True
      then show ?thesis
        using ran_synced [OF assms(1,4,7,5,6)] config_synced [OF _ _ assms(5,6) p(2)] assms(1)
          plansAllD [OF assms(4) p(1)] by auto
    next
      case False
      with True p assms(9) show ?thesis by (auto simp: restLive_def)
    qed
  qed
  moreover have "live g (Q - {k} \<union> W) c'"
    using ran_live [OF assms(1-3,8)] assms(9) by (simp add: restLive_def)
  ultimately show ?thesis by (simp add: restLive_def)
qed

lemma rest_pending:
  assumes "plansAll g" "bcPaths g \<noteq> []" "restLive g Q c" "0 < restJobs g c"
  shows "\<exists>k \<in> Q. restUseful g c k"
proof (cases "settled g c")
  case True
  moreover have "\<not> resting g c" using assms(4) restJobs_0 [of g c] by simp
  ultimately obtain p where p: "p \<in> set (bcPaths g)" "\<not> synced g p c" by (auto simp: resting_def list_all_iff)
  with True assms(3) show ?thesis by (auto simp: restLive_def settled_def restUseful_def)
next
  case False
  then have "0 < settleJobs g c" using settleJobs_0 [of g c] by simp
  with settle_pending [OF assms(1,2), of Q c] assms(3) False
  show ?thesis by (simp add: restLive_def restUseful_def)
qed

lemma rest_progress:
  assumes "controllerRan g k c c'" "bootable g c" "plansIgnition g" "plansAll g" "conditionLaws (bcLib g)"
    and "resourcesDelivered g c" "k \<in> set (controllersOf (bcPaths g))" "0 < restJobs g c"
  shows "progress (restJobs g) (restUseful g) c k c'"
proof (cases "settled g c")
  case True
  then have "stagesLeft g c = 0" "configState g c = SBCStateReady" by (simp_all add: settled_def stagesLeft_0)
  with ran_ready [OF assms(1-4,7)] have settled': "settled g c'" by (simp add: settled_def stagesLeft_0)
  then have jobs: "restJobs g c' = unsynced g c'" "restJobs g c = unsynced g c"
    using True by (simp_all add: restJobs_def settleJobs_0 [THEN iffD2])
  note kept = ran_synced [OF assms(1,4,7,5,6)]
  show ?thesis
  proof (cases "\<exists>p \<in> set (bcPaths g). \<not> synced g p c \<and> synced g p c'")
    case less: True
    then have "unsynced g c' < unsynced g c"
      unfolding unsynced_def using kept by (auto intro: sum_list_strict_mono_elem)
    then show ?thesis by (simp add: progress_def jobs)
  next
    case same: False
    with kept have eq: "synced g p c' = synced g p c" if "p \<in> set (bcPaths g)" for p using that by blast
    then have "unsynced g c' = unsynced g c" by (simp add: unsynced_def cong: map_cong)
    moreover have "\<not> restUseful g c k"
    proof
      assume "restUseful g c k"
      then obtain p where p: "p \<in> set (bcPaths g)" "k = ConfigController p" "\<not> synced g p c"
        using True by (auto simp: restUseful_def)
      then have "synced g p c'"
        using config_synced [OF _ _ assms(5,6)] assms(1) plansAllD [OF assms(4) p(1)] settled'
        by (auto simp: settled_def)
      with eq p show False by simp
    qed
    ultimately show ?thesis using eq True settled' by (auto simp: progress_def jobs restUseful_def)
  qed
next
  case False
  then have "0 < settleJobs g c" using settleJobs_0 [of g c] by simp
  from settle_progress [OF assms(1-4,7) this]
  consider "settleJobs g c' < settleJobs g c"
    | "settleJobs g c' = settleJobs g c" "\<not> settleUseful g c k" "\<And>j. settleUseful g c j \<Longrightarrow> settleUseful g c' j"
    by (auto simp: progress_def)
  then show ?thesis
  proof cases
    case 1
    with False unsynced_le [of g c'] show ?thesis by (simp add: progress_def restJobs_def)
  next
    case 2
    with False have "\<not> settled g c'" by (metis settleJobs_0)
    with 2 False show ?thesis by (simp add: progress_def restJobs_def restUseful_def)
  qed
qed

section \<open>The controllers as a work queue that empties\<close>

definition restGood ::
  "lib \<Rightarrow> ('s \<Rightarrow> cluster) \<Rightarrow> 's env \<Rightarrow> reconcilers \<Rightarrow> string \<Rightarrow> string \<Rightarrow> manifest \<Rightarrow> boot_case \<Rightarrow> cluster \<Rightarrow> bool" where
  "restGood L V E rs name version m g c \<longleftrightarrow>
     operates L V E rs name version m g \<and> plansAll g \<and> conditionLaws L \<and> bootable g c \<and> resourcesDelivered g c"

lemma woken_unchanged: "woken isCtl E ps k c c = []"
  by (simp add: woken_def wokenBy_def changesAt_def changedObject_def)

lemma runController_rest:
  fixes E :: "'s env"
  assumes "restGood L V E rs name version m g c" "restLive g Q c" "ctl \<in> Q" "Q \<subseteq> set (controllersOf (bcPaths g))"
    and "\<And>c'. controllerRan g ctl c c' \<Longrightarrow> plansIgnition g \<Longrightarrow> ctl \<in> set (controllersOf (bcPaths g)) \<Longrightarrow>
      restGood L V E rs name version m g c' \<Longrightarrow>
      restLive g (Q - {ctl} \<union> set (woken (bcIsCtl g) E (bcPaths g) (bcKey g) c c')) c' \<Longrightarrow> R c'"
  shows "reaches V (runController L E rs (bcKey g) ctl :: ('s, unit, unit) io) c (\<lambda>_. R)"
proof -
  have g: "operates L V E rs name version m g" "plansAll g" "conditionLaws L" "bootable g c" "resourcesDelivered g c"
    using assms(1) by (simp_all add: restGood_def)
  have ctl: "ctl \<in> set (controllersOf (bcPaths g))" using assms(3,4) by blast
  have lib: "bcLib g = L" using g(1) by (simp add: operates_def)
  note ig = operates_plansIgnition [OF g(1)]
  show ?thesis
  proof (rule reaches_conseq [OF runController_ran [OF g(1,4) ctl]])
    fix c' assume run: "controllerRan g ctl c c'"
    note boot = ran_bootable [OF run g(4)]
    have "restGood L V E rs name version m g c'"
      using g boot ran_delivered [OF run g(5)] by (simp add: restGood_def)
    then show "R c'"
      by (rule assms(5) [OF run ig ctl _
          ran_restLive [OF run g(4) ig g(2) g(3) [folded lib] g(5) ctl woken_wakes [OF boot] assms(2)]])
  qed
qed

interpretation resting: resting_queue V "runController L E rs (bcKey g) :: controller \<Rightarrow> ('s, unit, unit) io"
    "woken (bcIsCtl g) E (bcPaths g) (bcKey g)" "set (controllersOf (bcPaths g))"
    "restGood L V E rs name version m g" "restLive g" "restUseful g" "restJobs g"
  for V :: "'s \<Rightarrow> cluster" and L and E :: "'s env" and rs name version m g
proof unfold_locales
  fix c c' show "distinct (woken (bcIsCtl g) E (bcPaths g) (bcKey g) c c')"
    "set (woken (bcIsCtl g) E (bcPaths g) (bcKey g) c c') \<subseteq> set (controllersOf (bcPaths g))"
    by (auto simp: woken_def)
next
  fix c Q
  assume "restGood L V E rs name version m g c" "restLive g Q c" "0 < restJobs g c"
  then show "\<exists>k \<in> Q. restUseful g c k"
    by (intro rest_pending) (simp_all add: restGood_def operates_def)
next
  fix c Q ctl
  assume *: "restGood L V E rs name version m g c" "restLive g Q c" "ctl \<in> Q" "Q \<subseteq> set (controllersOf (bcPaths g))"
  have g: "bootable g c" "plansAll g" "conditionLaws (bcLib g)" "resourcesDelivered g c"
    using *(1) by (simp_all add: restGood_def operates_def)
  show "reaches V (runController L E rs (bcKey g) ctl :: ('s, unit, unit) io) c
    (\<lambda>_ c'. restGood L V E rs name version m g c' \<and>
       restLive g (Q - {ctl} \<union> set (woken (bcIsCtl g) E (bcPaths g) (bcKey g) c c')) c')"
    by (rule runController_rest [OF *]) simp
  show "reaches V (runController L E rs (bcKey g) ctl :: ('s, unit, unit) io) c
    (\<lambda>_. progress (restJobs g) (restUseful g) c ctl)" if "0 < restJobs g c"
    by (rule runController_rest [OF *], rule rest_progress [OF _ g(1) _ g(2-4) _ that])
  show "reaches V (runController L E rs (bcKey g) ctl :: ('s, unit, unit) io) c (\<lambda>_ c'. c' = c)" if "restJobs g c = 0"
    by (rule runController_rest [OF *], rule ran_resting [OF _ _ g(1) _ g(3)])
      (use that in \<open>simp_all add: restJobs_0\<close>)
qed (simp_all add: woken_unchanged)

lemma restJobs_bound: "restJobs g c \<le> 3 * length (bcPaths g) + 1"
  using stagesLeft_le [of g c] unsynced_le [of g c]
  by (auto simp: restJobs_def settleJobs_def stagesLeft_0 settled_def)

lemma rests:
  fixes E :: "'s env"
  assumes "operates L V E rs name version m g" "bootable g c" "HTTPPath \<notin> set (bcPaths g) \<or> has_uki m"
    and "conditionLaws L" "resourcesDelivered g c"
    and "distinct queue" "set queue = set (controllersOf (bcPaths g))"
    and "(3 * length (bcPaths g) + 2) * (2 * length (bcPaths g)) \<le> n"
  shows "reaches V (runLoop V (runController L E rs (bcKey g)) (woken (bcIsCtl g) E (bcPaths g) (bcKey g)) n queue
      :: ('s, unit, controller list) io) c (\<lambda>queue' c'. queue' = [] \<and> resting g c' \<and>
    (\<forall>ctl \<in> set (controllersOf (bcPaths g)).
       reaches V (runController L E rs (bcKey g) ctl :: ('s, unit, unit) io) c' (\<lambda>_ c''. c'' = c')))"
proof -
  let ?K = "card (set (controllersOf (bcPaths g)))"
  have "restLive g (set queue) c" using assms(7) by (auto simp: restLive_def live_all)
  then have serving: "resting.serving TYPE('s) g L V E rs name version m queue c"
    unfolding resting.serving_def using assms operates_plansAll [OF assms(1,3)] by (simp add: restGood_def)
  have "restJobs g c * ?K + ?K \<le> (3 * length (bcPaths g) + 2) * (2 * length (bcPaths g))"
    using mult_le_mono [OF _ card_controllersOf, of "Suc (restJobs g c)" "3 * length (bcPaths g) + 2" "bcPaths g"]
      restJobs_bound [of g c]
    by (simp del: set_controllersOf)
  from resting.goal_rests [OF serving order.trans [OF this assms(8)]] show ?thesis
  proof (rule reaches_conseq)
    fix queue' c' assume *: "queue' = [] \<and> restGood L V E rs name version m g c' \<and> restJobs g c' = 0"
    have "reaches V (runController L E rs (bcKey g) ctl :: ('s, unit, unit) io) c' (\<lambda>_ c''. c'' = c')"
      if "ctl \<in> set (controllersOf (bcPaths g))" for ctl
      by (rule resting.at_rest [of L V E rs name version m g c' "set (controllersOf (bcPaths g))"])
        (use * that in \<open>auto simp: restLive_def live_all\<close>)
    with * show "queue' = [] \<and> resting g c' \<and> (\<forall>ctl \<in> set (controllersOf (bcPaths g)).
        reaches V (runController L E rs (bcKey g) ctl :: ('s, unit, unit) io) c' (\<lambda>_ c''. c'' = c'))"
      by (simp add: restJobs_0 del: set_controllersOf)
  qed
qed

section \<open>Properties\<close>

text \<open>C5: In a cluster that answers every call and that nobody else changes, the operator comes to rest
  for a boot configuration that can boot: within 10 runs with one boot path, and within 32 with
  both, however the requests of the enabled controllers, all pending as after a start, are
  ordered, no request is left in the work queue. The configuration and its resources are then
  \<open>Ready\<close>, the configuration has the conditions of its resources and no image error any more, and
  another run of any of its controllers would change nothing.\<close>

theorem operator_rests:
  fixes E :: "'s env"
  assumes "operates L V E rs name version m g" "bootable g c" "HTTPPath \<notin> set (bcPaths g) \<or> has_uki m"
    and "conditionLaws L" "resourcesDelivered g c"
    and "distinct queue" "set queue = set (controllersOf (bcPaths g))"
    and "(3 * length (bcPaths g) + 2) * (2 * length (bcPaths g)) \<le> n"
  shows "reaches V (runLoop V (runController L E rs (bcKey g)) (woken (bcIsCtl g) E (bcPaths g) (bcKey g)) n queue
      :: ('s, unit, controller list) io) c (\<lambda>queue' c'. queue' = [] \<and> resting g c' \<and>
    (\<forall>ctl \<in> set (controllersOf (bcPaths g)).
       reaches V (runController L E rs (bcKey g) ctl :: ('s, unit, unit) io) c' (\<lambda>_ c''. c'' = c')))"
  by (rule rests [OF assms])

lemma sample_laws: "conditionLaws (clusterLib m)"
proof -
  have "condition_upsert (l_setStatusCondition (clusterLib m) now)" for now
  proof
    fix cs d
    have "upsertBy cvType v vs = vs" if "List.find (\<lambda>w. cvType w = cvType v) vs = Some v" for v vs
      using that by (induction vs) (auto split: if_splits)
    from this [of "condView d" "map condView cs"]
    show "map condView (l_setStatusCondition (clusterLib m) now cs d) = upsertBy cvType (condView d) (map condView cs)"
      by (simp add: clusterLib_def updateCondition_view findCondition_def)
  qed
  moreover have "removes (l_removeStatusCondition (clusterLib m))"
  proof -
    have "List.find (\<lambda>v. cvType v = t') (map condView (filter (\<lambda>d. condType d \<noteq> t) cs)) =
      (if t' = t then None else List.find (\<lambda>v. cvType v = t') (map condView cs))" for cs t t'
      by (induction cs) auto
    then show ?thesis by (simp add: removes_def findCondition_def clusterLib_def)
  qed
  moreover have "filter (\<lambda>d. condType d \<noteq> t) cs = cs" if "findCondition cs t = None" for cs t
    using that by (auto simp: findCondition_def find_None_iff filter_id_conv)
  ultimately show ?thesis by (simp add: conditionLaws_def clusterLib_def)
qed

lemma operator_rests_witness:
  "case run_state (runLoop (\<lambda>s. s)
      (runController (clusterLib fullManifest) clusterEnv sampleReconcilers (NN ''ns'' ''boot''))
      (woken (\<lambda>_. True) clusterEnv [HTTPPath, PXEPath] (NN ''ns'' ''boot'')) 32
      (controllersOf [HTTPPath, PXEPath]) :: (cluster, unit, _) io) (startWorld sampleCluster) of
    (queue, w) \<Rightarrow> queue = [] \<and> resting (sampleCase fullManifest) (ext w)"
proof -
  have n: "(3 * length (bcPaths (sampleCase fullManifest)) + 2) * (2 * length (bcPaths (sampleCase fullManifest))) \<le> 32"
    by (simp add: sampleCase_fields)
  have "resourceAt p k sampleCluster = None" for p k by (cases p) (simp_all add: sampleCluster_def)
  then have "resourcesDelivered (sampleCase fullManifest) sampleCluster" by (simp add: resourcesDelivered_def)
  note run = operator_rests [OF sample_operates [OF sample_layers(2)] sample_bootable _ sample_laws this sample_queue n]
  have "ext (startWorld sampleCluster) = sampleCluster" by (simp add: startWorld_def)
  from reaches_run [OF run this] show ?thesis by (simp add: sample_layers(4) sampleCase_fields split_beta del: set_controllersOf)
qed

end
