(* ===== verification/Move.thy ===== *)
theory Move
  imports Samples
begin

text \<open>
  \<open>bootctl move\<close>, \<^verbatim>\<open>cmdutils/move.go\<close>: copying the boot configurations and the
  ignition secrets they name from a source to a target cluster, with the comparison of objects
  that exist already, the re-creation of owner references and the rollback after a failure.
\<close>

section \<open>The code\<close>

datatype move_error =
    ListHTTPFailed api_error
  | ListIPXEFailed api_error
  | TargetCheckFailed api_error
  | ObjectDiffers namespaced_name
  | SourceSecretFailed namespaced_name api_error
  | TargetSecretFailed namespaced_name api_error
  | SecretDiffers namespaced_name
  | OwnerReferenceFailed string
  | OwnerMissing namespaced_name api_error
  | OwnerCheckFailed api_error
  | CreateFailed namespaced_name api_error
  | MoveAborted move_error "api_error list"

definition getCrs ::
  "'s env \<Rightarrow> string \<Rightarrow> ('s, 'z, move_error + (http_boot_config list \<times> ipxe_boot_config list)) io" where
  "getCrs E namespace = do {
     https \<leftarrow> listHTTP E SourceClient (InNamespace namespace);
     (case https of
        Inl err \<Rightarrow> ret (Inl (ListHTTPFailed err))
      | Inr httpBootConfigList \<Rightarrow> do {
          ipxes \<leftarrow> listIPXE E SourceClient (InNamespace namespace);
          ret (case ipxes of
             Inl err \<Rightarrow> Inl (ListIPXEFailed err)
           | Inr ipxeBootConfigList \<Rightarrow> Inr (httpBootConfigList, ipxeBootConfigList)) }) }"

definition getUidToSecretNameMap ::
  "http_boot_config list \<Rightarrow> ipxe_boot_config list \<Rightarrow> (string \<rightharpoonup> string)" where
  "getUidToSecretNameMap sourceHttpCrs sourceIpxeCrs =
     (let m = foldl (\<lambda>m c. case httpIgnitionSecretRef (httpSpec c) of
            Some ref \<Rightarrow> m(metaUID (httpMeta c) \<mapsto> ref) | None \<Rightarrow> m) Map.empty sourceHttpCrs
      in foldl (\<lambda>m c. case ipxeIgnitionSecretRef (ipxeSpec c) of
            Some ref \<Rightarrow> m(metaUID (ipxeMeta c) \<mapsto> ref) | None \<Rightarrow> m) m sourceIpxeCrs)"

fun objectType :: "client_object \<Rightarrow> gvk" where
  "objectType (HTTPObj x) = httpType x"
| "objectType (IPXEObj x) = ipxeType x"
| "objectType (SecretObj x) = secretType x"

fun setObjectType :: "gvk \<Rightarrow> client_object \<Rightarrow> client_object" where
  "setObjectType g (HTTPObj x) = HTTPObj (x\<lparr>httpType := g\<rparr>)"
| "setObjectType g (IPXEObj x) = IPXEObj (x\<lparr>ipxeType := g\<rparr>)"
| "setObjectType g (SecretObj x) = SecretObj (x\<lparr>secretType := g\<rparr>)"

definition clearFields :: "client_object \<Rightarrow> client_object" where
  "clearFields obj =
     setObjectType emptyGVK (setObjectMeta ((objectMeta obj)\<lparr>metaResourceVersion := [], metaUID := [],
       metaGeneration := 0, metaCreationTimestamp := None, metaManagedFields := []\<rparr>) obj)"

text \<open>
  \<open>Get\<close> into a deep copy of the source object: what the caller then compares is the answer
  decoded over that copy.
\<close>

definition getSameKind ::
  "lib \<Rightarrow> 's env \<Rightarrow> api_client \<Rightarrow> client_object \<Rightarrow> ('s, 'z, api_error + client_object) io" where
  "getSameKind L E c obj =
     (let k = objectKey (objectMeta obj); into = l_getInto L obj in
      case obj of
        HTTPObj _ \<Rightarrow> do { r \<leftarrow> getHTTP E c k; ret (map_sum id (\<lambda>x. into (HTTPObj x)) r) }
      | IPXEObj _ \<Rightarrow> do { r \<leftarrow> getIPXE E c k; ret (map_sum id (\<lambda>x. into (IPXEObj x)) r) }
      | SecretObj _ \<Rightarrow> do { r \<leftarrow> getSecret E c k; ret (map_sum id (\<lambda>x. into (SecretObj x)) r) })"

text \<open>\<open>getSecret\<close> of the code; \<open>None\<close> is the nil secret.\<close>

definition secretToMove ::
  "'s env \<Rightarrow> string \<Rightarrow> string \<Rightarrow> ('s, 'z, move_error + secret option) io" where
  "secretToMove E name namespace =
     (if name = [] then ret (Inr None)
      else let nn = NN namespace name in do {
        source \<leftarrow> getSecret E SourceClient nn;
        (case source of
           Inl err \<Rightarrow> ret (Inl (SourceSecretFailed nn err))
         | Inr sourceSecret \<Rightarrow> do {
             target \<leftarrow> getSecret E TargetClient nn;
             ret (case target of
                Inl err \<Rightarrow> if isNotFound err then Inr (Some sourceSecret)
                  else Inl (TargetSecretFailed nn err)
              | Inr targetSecret \<Rightarrow>
                  if clearFields (SecretObj sourceSecret) = clearFields (SecretObj targetSecret)
                  then Inr None else Inl (SecretDiffers nn)) }) })"

primrec objsToMoveLoop ::
  "lib \<Rightarrow> 's env \<Rightarrow> (string \<rightharpoonup> string) \<Rightarrow> client_object list \<Rightarrow> client_object list \<Rightarrow>
     ('s, 'z, move_error + client_object list) io" where
  "objsToMoveLoop L E secretNames objsToMove [] = ret (Inr objsToMove)"
| "objsToMoveLoop L E secretNames objsToMove (sourceObj # sourceObjs) = do {
     got \<leftarrow> getSameKind L E TargetClient sourceObj;
     (case got of
        Inl err \<Rightarrow>
          if isNotFound err then do {
            secret \<leftarrow> secretToMove E
              (case secretNames (metaUID (objectMeta sourceObj)) of Some n \<Rightarrow> n | None \<Rightarrow> [])
              (metaNamespace (objectMeta sourceObj));
            (case secret of
               Inl err \<Rightarrow> ret (Inl err)
             | Inr None \<Rightarrow> objsToMoveLoop L E secretNames (objsToMove @ [sourceObj]) sourceObjs
             | Inr (Some s) \<Rightarrow>
                 objsToMoveLoop L E secretNames (objsToMove @ [sourceObj, SecretObj s]) sourceObjs) }
          else ret (Inl (TargetCheckFailed err))
      | Inr targetObj \<Rightarrow>
          if clearFields sourceObj = clearFields targetObj
          then objsToMoveLoop L E secretNames objsToMove sourceObjs
          else ret (Inl (ObjectDiffers (objectKey (objectMeta sourceObj))))) }"

definition getObjsToBeMoved ::
  "lib \<Rightarrow> 's env \<Rightarrow> http_boot_config list \<Rightarrow> ipxe_boot_config list \<Rightarrow>
     ('s, 'z, move_error + client_object list) io" where
  "getObjsToBeMoved L E sourceHttpCrs sourceIpxeCrs =
     objsToMoveLoop L E (getUidToSecretNameMap sourceHttpCrs sourceIpxeCrs) []
       (map HTTPObj sourceHttpCrs @ map IPXEObj sourceIpxeCrs)"

definition bootGroup :: string where "bootGroup = ''boot.ironcore.dev''"

text \<open>The owner references of an object in the target cluster.\<close>

definition prepareOwner ::
  "lib \<Rightarrow> 's env \<Rightarrow> bool \<Rightarrow> client_object \<Rightarrow> ('s, 'z, move_error + client_object) io" where
  "prepareOwner L E requireOwners obj =
     (if gvkGroup (objectType obj) = bootGroup \<and> length (metaOwnerReferences (objectMeta obj)) = 1 then
        (let objKey = objectKey (objectMeta obj);
             obj = setObjectMeta ((objectMeta obj)\<lparr>metaOwnerReferences := []\<rparr>) obj
         in do {
           got \<leftarrow> getSBC E TargetClient objKey;
           ret (case got of
              Inr serverBootConfiguration \<Rightarrow>
                (case l_setControllerReference L serverBootConfiguration (objectMeta obj) of
                   Inl err \<Rightarrow> Inl (OwnerReferenceFailed err)
                 | Inr m \<Rightarrow> Inr (setObjectMeta m obj))
            | Inl err \<Rightarrow>
                if isNotFound err \<and> requireOwners then Inl (OwnerMissing objKey err)
                else if \<not> isNotFound err then Inl (OwnerCheckFailed err)
                else Inr obj) })
      else ret (Inr obj))"

text \<open>The objects created so far, and the error that ended the loop, if any.\<close>

primrec moveObjsLoop ::
  "lib \<Rightarrow> 's env \<Rightarrow> bool \<Rightarrow> client_object list \<Rightarrow> client_object list \<Rightarrow>
     ('s, 'z, client_object list \<times> move_error option) io" where
  "moveObjsLoop L E requireOwners movedObjs [] = ret (movedObjs, None)"
| "moveObjsLoop L E requireOwners movedObjs (obj # objs) = do {
     prepared \<leftarrow> prepareOwner L E requireOwners obj;
     (case prepared of
        Inl err \<Rightarrow> ret (movedObjs, Some err)
      | Inr p \<Rightarrow>
          (let p = setObjectMeta ((objectMeta p)\<lparr>metaResourceVersion := []\<rparr>) p in do {
             err \<leftarrow> createObj E TargetClient p;
             (case err of
                Some err \<Rightarrow> ret (movedObjs, Some (CreateFailed (objectKey (objectMeta obj)) err))
              | None \<Rightarrow> moveObjsLoop L E requireOwners (movedObjs @ [p]) objs) })) }"

definition moveObjs ::
  "lib \<Rightarrow> 's env \<Rightarrow> client_object list \<Rightarrow> bool \<Rightarrow>
     ('s, 'z, client_object list \<times> move_error option) io" where
  "moveObjs L E objs requireOwners = moveObjsLoop L E requireOwners [] objs"

text \<open>The result is the list of the errors that \<open>errors.Join\<close> joins.\<close>

primrec cleanup :: "'s env \<Rightarrow> client_object list \<Rightarrow> ('s, 'z, api_error list) io" where
  "cleanup E [] = ret []"
| "cleanup E (obj # objs) = do {
     err \<leftarrow> deleteObj E TargetClient obj;
     errs \<leftarrow> cleanup E objs;
     ret (case err of Some e \<Rightarrow> e # errs | None \<Rightarrow> errs) }"

definition move ::
  "lib \<Rightarrow> 's env \<Rightarrow> string \<Rightarrow> bool \<Rightarrow> bool \<Rightarrow> ('s, 'z, move_error option) io" where
  "move L E namespace requireOwners dryRun = do {
     crs \<leftarrow> getCrs E namespace;
     (case crs of
        Inl err \<Rightarrow> ret (Some err)
      | Inr (httpConfigs, ipxeConfigs) \<Rightarrow> do {
          objs \<leftarrow> getObjsToBeMoved L E httpConfigs ipxeConfigs;
          (case objs of
             Inl err \<Rightarrow> ret (Some err)
           | Inr objsToMove \<Rightarrow>
               if \<not> dryRun then do {
                 (movedObjs, err) \<leftarrow> moveObjs L E objsToMove requireOwners;
                 (case err of
                    Some err \<Rightarrow> do {
                      cleanupErrs \<leftarrow> cleanup E movedObjs;
                      ret (Some (MoveAborted err cleanupErrs)) }
                  | None \<Rightarrow> ret None) }
               else ret None) }) }"

section \<open>Reading\<close>

text \<open>The calls before anything is created: reads of the two clusters.\<close>

fun isClusterRead :: "event \<Rightarrow> bool" where
  "isClusterRead (EListHTTP c q _) = (c = SourceClient)"
| "isClusterRead (EListIPXE c q _) = (c = SourceClient)"
| "isClusterRead (EGetHTTP c k _) = (c = TargetClient)"
| "isClusterRead (EGetIPXE c k _) = (c = TargetClient)"
| "isClusterRead (EGetSecret c k _) = True"
| "isClusterRead _ = False"

text \<open>
  When the code takes two objects for the same: they are of one kind and agree in name, namespace,
  deletion timestamp, owners, labels and annotations and in all of their content.
\<close>

definition sameMeta :: "object_meta \<Rightarrow> object_meta \<Rightarrow> bool" where
  "sameMeta m n \<longleftrightarrow> metaName m = metaName n \<and> metaNamespace m = metaNamespace n \<and>
     metaDeletionTimestamp m = metaDeletionTimestamp n \<and>
     metaOwnerReferences m = metaOwnerReferences n \<and>
     metaLabels m = metaLabels n \<and> metaAnnotations m = metaAnnotations n"

fun sameContent :: "client_object \<Rightarrow> client_object \<Rightarrow> bool" where
  "sameContent (HTTPObj x) (HTTPObj y) \<longleftrightarrow> sameMeta (httpMeta x) (httpMeta y) \<and>
     httpSpec x = httpSpec y \<and> httpStatus x = httpStatus y"
| "sameContent (IPXEObj x) (IPXEObj y) \<longleftrightarrow> sameMeta (ipxeMeta x) (ipxeMeta y) \<and>
     ipxeSpec x = ipxeSpec y \<and> ipxeStatus x = ipxeStatus y"
| "sameContent (SecretObj x) (SecretObj y) \<longleftrightarrow> sameMeta (secretMeta x) (secretMeta y) \<and>
     secretData x = secretData y \<and> secretOther x = secretOther y"
| "sameContent _ _ \<longleftrightarrow> False"

lemma clearedMeta_eq_iff:
  fixes m n :: object_meta
  shows "m\<lparr>metaResourceVersion := v, metaUID := u, metaGeneration := g, metaCreationTimestamp := t,
      metaManagedFields := f\<rparr> = n\<lparr>metaResourceVersion := v, metaUID := u, metaGeneration := g,
      metaCreationTimestamp := t, metaManagedFields := f\<rparr> \<longleftrightarrow> sameMeta m n"
  by (cases m; cases n) (auto simp: sameMeta_def)

lemma updated_eq_iff:
  fixes h h' :: http_boot_config and i i' :: ipxe_boot_config and s s' :: secret
  shows "h\<lparr>httpMeta := m, httpType := t\<rparr> = h'\<lparr>httpMeta := n, httpType := t\<rparr> \<longleftrightarrow>
      m = n \<and> httpSpec h = httpSpec h' \<and> httpStatus h = httpStatus h'"
    and "i\<lparr>ipxeMeta := m, ipxeType := t\<rparr> = i'\<lparr>ipxeMeta := n, ipxeType := t\<rparr> \<longleftrightarrow>
      m = n \<and> ipxeSpec i = ipxeSpec i' \<and> ipxeStatus i = ipxeStatus i'"
    and "s\<lparr>secretMeta := m, secretType := t\<rparr> = s'\<lparr>secretMeta := n, secretType := t\<rparr> \<longleftrightarrow>
      m = n \<and> secretData s = secretData s' \<and> secretOther s = secretOther s'"
  subgoal by (cases h; cases h') auto
  subgoal by (cases i; cases i') auto
  subgoal by (cases s; cases s') auto
  done

lemma clearFields_eq_iff: "clearFields x = clearFields y \<longleftrightarrow> sameContent x y"
  by (cases x; cases y) (simp_all add: clearFields_def clearedMeta_eq_iff updated_eq_iff
    httpSetMeta_def ipxeSetMeta_def secretSetMeta_def)

text \<open>
  The names of the secrets, by the UID of the configuration: of two configurations with one UID
  the last that names a secret counts, and the iPXE configurations come last.
\<close>

definition secretRefs ::
  "('a \<Rightarrow> object_meta) \<Rightarrow> ('a \<Rightarrow> string option) \<Rightarrow> 'a list \<Rightarrow> (string \<times> string) list" where
  "secretRefs getMeta ref cs = List.map_filter (\<lambda>c. map_option (Pair (metaUID (getMeta c))) (ref c)) cs"

definition secretNames :: "http_boot_config list \<Rightarrow> ipxe_boot_config list \<Rightarrow> (string \<rightharpoonup> string)" where
  "secretNames hs is = map_of (rev
     (secretRefs httpMeta (\<lambda>c. httpIgnitionSecretRef (httpSpec c)) hs @
      secretRefs ipxeMeta (\<lambda>c. ipxeIgnitionSecretRef (ipxeSpec c)) is))"

lemma foldl_secretRefs:
  "foldl (\<lambda>m c. case ref c of Some r \<Rightarrow> m(metaUID (getMeta c) \<mapsto> r) | None \<Rightarrow> m) m cs =
     m ++ map_of (rev (secretRefs getMeta ref cs))"
  by (induction cs arbitrary: m)
    (simp_all add: secretRefs_def List.map_filter_def map_of_append split: option.split)

lemma getUidToSecretNameMap_eq: "getUidToSecretNameMap hs is = secretNames hs is"
  by (simp add: getUidToSecretNameMap_def secretNames_def foldl_secretRefs map_of_append)

text \<open>
  The read of one source object in the target, and what the client leaves in the copy.
\<close>

inductive readInTarget ::
  "lib \<Rightarrow> client_object \<Rightarrow> event \<Rightarrow> api_error + client_object \<Rightarrow> bool" for L where
  http: "readInTarget L (HTTPObj x) (EGetHTTP TargetClient (objectKey (httpMeta x)) r)
    (map_sum id (\<lambda>y. l_getInto L (HTTPObj x) (HTTPObj y)) r)"
| ipxe: "readInTarget L (IPXEObj x) (EGetIPXE TargetClient (objectKey (ipxeMeta x)) r)
    (map_sum id (\<lambda>y. l_getInto L (IPXEObj x) (IPXEObj y)) r)"
| secret: "readInTarget L (SecretObj x) (EGetSecret TargetClient (objectKey (secretMeta x)) r)
    (map_sum id (\<lambda>y. l_getInto L (SecretObj x) (SecretObj y)) r)"

text \<open>The name of an object's ignition secret, empty if it has none.\<close>

definition secretFor :: "(string \<rightharpoonup> string) \<Rightarrow> client_object \<Rightarrow> string" where
  "secretFor names obj = (case names (metaUID (objectMeta obj)) of Some n \<Rightarrow> n | None \<Rightarrow> [])"

text \<open>Whether a secret is to be created: it is when the target has none, it is not when the
  target has an equal one, and a different one in the target is an error.\<close>

inductive secretChecked ::
  "namespaced_name \<Rightarrow> event list \<Rightarrow> move_error + secret option \<Rightarrow> bool" for nn where
  unnamed:
    "nnName nn = [] \<Longrightarrow> secretChecked nn [] (Inr None)"
| no_source:
    "nnName nn \<noteq> [] \<Longrightarrow>
       secretChecked nn [EGetSecret SourceClient nn (Inl err)] (Inl (SourceSecretFailed nn err))"
| missing:
    "nnName nn \<noteq> [] \<Longrightarrow> isNotFound err \<Longrightarrow>
       secretChecked nn [EGetSecret SourceClient nn (Inr x), EGetSecret TargetClient nn (Inl err)]
         (Inr (Some x))"
| not_checked:
    "nnName nn \<noteq> [] \<Longrightarrow> \<not> isNotFound err \<Longrightarrow>
       secretChecked nn [EGetSecret SourceClient nn (Inr x), EGetSecret TargetClient nn (Inl err)]
         (Inl (TargetSecretFailed nn err))"
| equal:
    "nnName nn \<noteq> [] \<Longrightarrow> sameContent (SecretObj x) (SecretObj y) \<Longrightarrow>
       secretChecked nn [EGetSecret SourceClient nn (Inr x), EGetSecret TargetClient nn (Inr y)]
         (Inr None)"
| differs:
    "nnName nn \<noteq> [] \<Longrightarrow> \<not> sameContent (SecretObj x) (SecretObj y) \<Longrightarrow>
       secretChecked nn [EGetSecret SourceClient nn (Inr x), EGetSecret TargetClient nn (Inr y)]
         (Inl (SecretDiffers nn))"

text \<open>
  The complete planning: the reads for the source objects, in order, and the plan or the error
  they give.
\<close>

definition secretKey :: "(string \<rightharpoonup> string) \<Rightarrow> client_object \<Rightarrow> namespaced_name" where
  "secretKey names obj = NN (metaNamespace (objectMeta obj)) (secretFor names obj)"

inductive plans ::
  "lib \<Rightarrow> (string \<rightharpoonup> string) \<Rightarrow> client_object list \<Rightarrow> event list \<Rightarrow> move_error + client_object list \<Rightarrow> bool"
  for L names where
  nothing:
    "plans L names [] [] (Inr [])"
| present:
    "readInTarget L obj e (Inr t) \<Longrightarrow> sameContent obj t \<Longrightarrow> plans L names objs es r \<Longrightarrow>
       plans L names (obj # objs) (e # es) r"
| differs:
    "readInTarget L obj e (Inr t) \<Longrightarrow> \<not> sameContent obj t \<Longrightarrow>
       plans L names (obj # objs) [e] (Inl (ObjectDiffers (objectKey (objectMeta obj))))"
| not_checked:
    "readInTarget L obj e (Inl err) \<Longrightarrow> \<not> isNotFound err \<Longrightarrow>
       plans L names (obj # objs) [e] (Inl (TargetCheckFailed err))"
| secret_refused:
    "readInTarget L obj e (Inl err) \<Longrightarrow> isNotFound err \<Longrightarrow>
       secretChecked (secretKey names obj) es (Inl err') \<Longrightarrow>
       plans L names (obj # objs) (e # es) (Inl err')"
| absent:
    "readInTarget L obj e (Inl err) \<Longrightarrow> isNotFound err \<Longrightarrow>
       secretChecked (secretKey names obj) es (Inr s) \<Longrightarrow> plans L names objs es' r \<Longrightarrow>
       plans L names (obj # objs) (e # es @ es')
         (map_sum id (\<lambda>ps. obj # (case s of Some x \<Rightarrow> [SecretObj x] | None \<Rightarrow> []) @ ps) r)"

lemma readInTarget_read: "readInTarget L obj e r \<Longrightarrow> isClusterRead e"
  by (induction rule: readInTarget.induct) simp_all

lemma secretChecked_reads: "secretChecked nn es r \<Longrightarrow> list_all isClusterRead es"
  by (induction rule: secretChecked.induct) simp_all

lemma plans_reads: "plans L names objs es r \<Longrightarrow> list_all isClusterRead es"
  by (induction rule: plans.induct) (auto dest: readInTarget_read secretChecked_reads)

lemma emits_getSameKind:
  assumes "\<And>r e. readInTarget L obj e r \<Longrightarrow> R r [e]"
  shows "emits (getSameKind L E TargetClient obj) R"
  unfolding getSameKind_def Let_def
  by (cases obj) (auto intro!: emits_rules assms intro: readInTarget.intros)

lemma emits_secretToMove:
  "emits (secretToMove E name ns) (\<lambda>r es. secretChecked (NN ns name) es r)"
  unfolding secretToMove_def Let_def clearFields_eq_iff
  by (intro emits_rules) (auto intro: secretChecked.intros split: sum.split)

text \<open>The planning loop, from the objects \<open>acc\<close> already planned.\<close>

definition plansFrom ::
  "lib \<Rightarrow> (string \<rightharpoonup> string) \<Rightarrow> client_object list \<Rightarrow> client_object list \<Rightarrow>
     move_error + client_object list \<Rightarrow> event list \<Rightarrow> bool" where
  "plansFrom L names acc objs r es \<longleftrightarrow>
     (\<exists>r'. plans L names objs es r' \<and> r = map_sum id (append acc) r')"

lemma plansFrom_absent:
  assumes "readInTarget L obj e (Inl err)" "isNotFound err"
    and "secretChecked (secretKey names obj) es (Inr s)"
    and "plansFrom L names (acc @ obj # (case s of Some x \<Rightarrow> [SecretObj x] | None \<Rightarrow> [])) objs r es'"
  shows "plansFrom L names acc (obj # objs) r (e # es @ es')"
proof -
  from assms(4) obtain r' where r': "plans L names objs es' r'"
    "r = map_sum id (append (acc @ obj # (case s of Some x \<Rightarrow> [SecretObj x] | None \<Rightarrow> []))) r'"
    unfolding plansFrom_def by blast
  show ?thesis
    unfolding plansFrom_def
    by (intro exI conjI, rule plans.absent [OF assms(1-3) r'(1)])
      (cases r', simp_all add: r'(2))
qed

lemmas plansFrom_absent_none = plansFrom_absent [where s = None, simplified]
lemmas plansFrom_absent_some = plansFrom_absent [where s = "Some x" for x, simplified]

lemma plansFrom_rest:
  "readInTarget L obj e (Inr t) \<Longrightarrow> sameContent obj t \<Longrightarrow>
     plansFrom L names acc objs r es \<Longrightarrow> plansFrom L names acc (obj # objs) r (e # es)"
  unfolding plansFrom_def by (blast intro: plans.present)

lemma plansFrom_error: "plans L names objs es (Inl err) \<Longrightarrow> plansFrom L names acc objs (Inl err) es"
  unfolding plansFrom_def by (rule exI [of _ "Inl err"]) simp

lemma emits_objsToMoveLoop:
  "emits (objsToMoveLoop L E names acc objs :: ('s, 'z, _) io) (plansFrom L names acc objs)"
proof (induction objs arbitrary: acc)
  case Nil
  show ?case
    by (auto intro!: emits_rules exI [of _ "Inr []"] plans.nothing simp: plansFrom_def)
next
  case (Cons obj objs)
  show ?case
    unfolding objsToMoveLoop.simps secretFor_def [symmetric] clearFields_eq_iff
    by (intro emits_rules emits_getSameKind emits_conseq [OF emits_secretToMove]
        emits_conseq [OF Cons.IH]; simp add: secretKey_def [symmetric];
        rule plansFrom_error plansFrom_rest plansFrom_absent_none plansFrom_absent_some;
        (assumption | rule plans.intros)+)
qed

section \<open>Writing\<close>

text \<open>The objects created in, and deleted from, the target cluster, in order.\<close>

fun createdOf :: "event \<Rightarrow> client_object option" where
  "createdOf (ECreate TargetClient x None) = Some x"
| "createdOf _ = None"

fun deletedOf :: "event \<Rightarrow> (client_object \<times> api_error option) option" where
  "deletedOf (EDelete TargetClient x err) = Some (x, err)"
| "deletedOf _ = None"

definition created :: "event list \<Rightarrow> client_object list" where
  "created es = List.map_filter createdOf es"

definition deleted :: "event list \<Rightarrow> (client_object \<times> api_error option) list" where
  "deleted es = List.map_filter deletedOf es"

lemma created_simps [simp]:
  "created [] = []" "created (e # es) = (case createdOf e of Some x \<Rightarrow> [x] | None \<Rightarrow> []) @ created es"
  "created (es @ es') = created es @ created es'"
  "deleted [] = []" "deleted (e # es) = (case deletedOf e of Some x \<Rightarrow> [x] | None \<Rightarrow> []) @ deleted es"
  "deleted (es @ es') = deleted es @ deleted es'"
  by (simp_all add: created_def deleted_def List.map_filter_def split: option.split)

lemma reads_create_nothing [simp]:
  "list_all isClusterRead es \<Longrightarrow> created es = []" "list_all isClusterRead es \<Longrightarrow> deleted es = []"
proof -
  have "isClusterRead e \<Longrightarrow> createdOf e = None \<and> deletedOf e = None" for e
    by (cases e) auto
  then show "list_all isClusterRead es \<Longrightarrow> created es = []" "list_all isClusterRead es \<Longrightarrow> deleted es = []"
    by (induction es) auto
qed

text \<open>
  How the object \<open>p\<close> that is created comes from the object \<open>obj\<close> of the source: its content
  is the same; its only owner, if it is a boot configuration with one, is replaced by the
  configuration of the same name in the target, or dropped if there is none and none is
  required; its resource version is cleared.
\<close>

definition withOwners :: "owner_reference list \<Rightarrow> client_object \<Rightarrow> client_object" where
  "withOwners refs obj = setObjectMeta ((objectMeta obj)\<lparr>metaOwnerReferences := refs\<rparr>) obj"

definition withoutVersion :: "client_object \<Rightarrow> client_object" where
  "withoutVersion obj = setObjectMeta ((objectMeta obj)\<lparr>metaResourceVersion := []\<rparr>) obj"

definition solelyOwned :: "client_object \<Rightarrow> bool" where
  "solelyOwned obj \<longleftrightarrow> gvkGroup (objectType obj) = bootGroup \<and>
     length (metaOwnerReferences (objectMeta obj)) = 1"

text \<open>What is prepared for creation, and the reads of the target this takes.\<close>

inductive preparedAs :: "lib \<Rightarrow> bool \<Rightarrow> client_object \<Rightarrow> client_object \<Rightarrow> event list \<Rightarrow> bool"
  for L requireOwners obj where
  as_is: "\<not> solelyOwned obj \<Longrightarrow> preparedAs L requireOwners obj (withoutVersion obj) []"
| adopted: "solelyOwned obj \<Longrightarrow>
    l_setControllerReference L sbc (objectMeta (withOwners [] obj)) = Inr m \<Longrightarrow>
    preparedAs L requireOwners obj (withoutVersion (setObjectMeta m obj))
      [EGetSBC TargetClient (objectKey (objectMeta obj)) (Inr sbc)]"
| orphaned: "solelyOwned obj \<Longrightarrow> isNotFound err \<Longrightarrow> \<not> requireOwners \<Longrightarrow>
    preparedAs L requireOwners obj (withoutVersion (withOwners [] obj))
      [EGetSBC TargetClient (objectKey (objectMeta obj)) (Inl err)]"

definition movedAs ::
  "lib \<Rightarrow> bool \<Rightarrow> client_object \<Rightarrow> client_object \<Rightarrow> event list \<Rightarrow> bool" where
  "movedAs L requireOwners obj p es \<longleftrightarrow>
     (\<exists>rs. preparedAs L requireOwners obj p rs \<and> es = rs @ [ECreate TargetClient p None])"

lemma preparedAs_reads: "preparedAs L q obj p es \<Longrightarrow>
  created es = [] \<and> deleted es = [] \<and> list_all (\<lambda>e. \<exists>k a. e = EGetSBC TargetClient k a) es"
  by (induction rule: preparedAs.induct) auto

lemma movedAs_created: "movedAs L q obj p es \<Longrightarrow> created es = [p] \<and> deleted es = []"
  by (auto simp: movedAs_def dest: preparedAs_reads)

inductive allMoved :: "lib \<Rightarrow> bool \<Rightarrow> client_object list \<Rightarrow> client_object list \<Rightarrow> event list \<Rightarrow> bool"
  for L requireOwners where
  none: "allMoved L requireOwners [] [] []"
| more: "movedAs L requireOwners obj p es \<Longrightarrow> allMoved L requireOwners objs ps es' \<Longrightarrow>
    allMoved L requireOwners (obj # objs) (p # ps) (es @ es')"

lemma allMoved_created: "allMoved L q objs ps es \<Longrightarrow> created es = ps \<and> deleted es = [] \<and> length ps = length objs"
  by (induction rule: allMoved.induct) (auto dest: movedAs_created)

text \<open>The one failing step and its error: it creates nothing.\<close>

inductive failsAs :: "lib \<Rightarrow> bool \<Rightarrow> client_object \<Rightarrow> move_error \<Rightarrow> event list \<Rightarrow> bool"
  for L requireOwners obj where
  no_reference: "solelyOwned obj \<Longrightarrow>
    l_setControllerReference L sbc (objectMeta (withOwners [] obj)) = Inl err \<Longrightarrow>
    failsAs L requireOwners obj (OwnerReferenceFailed err)
      [EGetSBC TargetClient (objectKey (objectMeta obj)) (Inr sbc)]"
| no_owner: "solelyOwned obj \<Longrightarrow> isNotFound err \<Longrightarrow> requireOwners \<Longrightarrow>
    failsAs L requireOwners obj (OwnerMissing (objectKey (objectMeta obj)) err)
      [EGetSBC TargetClient (objectKey (objectMeta obj)) (Inl err)]"
| not_checked: "solelyOwned obj \<Longrightarrow> \<not> isNotFound err \<Longrightarrow>
    failsAs L requireOwners obj (OwnerCheckFailed err)
      [EGetSBC TargetClient (objectKey (objectMeta obj)) (Inl err)]"
| not_created: "preparedAs L requireOwners obj p rs \<Longrightarrow>
    failsAs L requireOwners obj (CreateFailed (objectKey (objectMeta obj)) err)
      (rs @ [ECreate TargetClient p (Some err)])"

lemma failsAs_creates_nothing: "failsAs L q obj err es \<Longrightarrow> created es = [] \<and> deleted es = [] \<and>
  list_all (\<lambda>e. (\<exists>k a. e = EGetSBC TargetClient k a) \<or> (\<exists>x a. e = ECreate TargetClient x a)) es"
  by (induction rule: failsAs.induct) (auto dest: preparedAs_reads simp: list_all_iff)

definition moveOutcome ::
  "lib \<Rightarrow> bool \<Rightarrow> client_object list \<Rightarrow> client_object list \<Rightarrow>
     client_object list \<times> move_error option \<Rightarrow> event list \<Rightarrow> bool" where
  "moveOutcome L requireOwners acc objs r es \<longleftrightarrow>
     (case snd r of
        None \<Rightarrow> \<exists>ps. fst r = acc @ ps \<and> allMoved L requireOwners objs ps es
      | Some err \<Rightarrow> \<exists>n ps es1 es2. n < length objs \<and> fst r = acc @ ps \<and> es = es1 @ es2 \<and>
          allMoved L requireOwners (take n objs) ps es1 \<and>
          failsAs L requireOwners (objs ! n) err es2)"

lemma moveOutcome_stop:
  assumes "n < length objs" "allMoved L q (take n objs) ps es1" "failsAs L q (objs ! n) err es2"
    and "r = (acc @ ps, Some err)"
  shows "moveOutcome L q acc objs r (es1 @ es2)"
proof -
  have "\<exists>n' ps' es1' es2'. n' < length objs \<and> acc @ ps = acc @ ps' \<and> es1 @ es2 = es1' @ es2' \<and>
      allMoved L q (take n' objs) ps' es1' \<and> failsAs L q (objs ! n') err es2'"
    using assms(1-3) by blast
  then show ?thesis using assms(4) by (simp add: moveOutcome_def)
qed

lemma moveOutcome_failed:
  "failsAs L q obj err es \<Longrightarrow> moveOutcome L q acc (obj # objs) (acc, Some err) es"
  using moveOutcome_stop [of 0 "obj # objs" L q "[]" "[]" err es] by (simp add: allMoved.none)

lemma moveOutcome_more:
  assumes "movedAs L q obj p es" "moveOutcome L q (acc @ [p]) objs r es'"
  shows "moveOutcome L q acc (obj # objs) r (es @ es')"
proof (cases "snd r")
  case None
  then obtain ps where "fst r = (acc @ [p]) @ ps" "allMoved L q objs ps es'"
    using assms(2) by (auto simp: moveOutcome_def)
  with None assms(1) show ?thesis
    by (auto simp: moveOutcome_def intro!: exI [of _ "p # ps"] allMoved.more)
next
  case (Some err)
  then obtain n ps es1 es2 where *: "n < length objs" "fst r = (acc @ [p]) @ ps" "es' = es1 @ es2"
    "allMoved L q (take n objs) ps es1" "failsAs L q (objs ! n) err es2"
    using assms(2) by (auto simp: moveOutcome_def)
  have "allMoved L q (take (Suc n) (obj # objs)) (p # ps) (es @ es1)"
    using allMoved.more [OF assms(1) *(4)] by simp
  then have "moveOutcome L q acc (obj # objs) r ((es @ es1) @ es2)"
    by (rule moveOutcome_stop [rotated]) (use Some * in \<open>simp_all add: prod_eq_iff\<close>)
  then show ?thesis using *(3) by simp
qed

lemma setMeta_withOwners [simp]: "setObjectMeta m (withOwners refs obj) = setObjectMeta m obj"
  by (simp add: withOwners_def any_object.set_set)

lemma emits_prepareOwner:
  assumes "\<And>p es. preparedAs L requireOwners obj (withoutVersion p) es \<Longrightarrow> R (Inr p) es"
    and "\<And>err es. failsAs L requireOwners obj err es \<Longrightarrow> R (Inl err) es"
  shows "emits (prepareOwner L E requireOwners obj) R"
  unfolding prepareOwner_def Let_def withOwners_def [symmetric] solelyOwned_def [symmetric]
  by (intro emits_rules)
    (auto intro!: assms intro: preparedAs.intros failsAs.intros split: sum.split)

lemma emits_moveObjsLoop:
  "emits (moveObjsLoop L E q acc objs :: ('s, 'z, _) io) (moveOutcome L q acc objs)"
proof (induction objs arbitrary: acc)
  case Nil
  show ?case by (auto intro!: emits_rules allMoved.none simp: moveOutcome_def)
next
  case (Cons obj objs)
  have more: "moveOutcome L q acc (obj # objs) r (es @ ECreate TargetClient p None # es')"
    if "preparedAs L q obj p es" "moveOutcome L q (acc @ [p]) objs r es'" for p es es' r
    using moveOutcome_more [OF _ that(2), of obj "es @ [ECreate TargetClient p None]"] that(1)
    by (auto simp: movedAs_def)
  show ?case
    unfolding moveObjsLoop.simps Let_def withoutVersion_def [symmetric]
    by (intro emits_rules emits_prepareOwner emits_conseq [OF Cons.IH])
      (auto intro: moveOutcome_failed failsAs.not_created more)
qed

section \<open>Rolling back\<close>

text \<open>The deletions of exactly the given objects, in order, and the errors they reported.\<close>

definition undone :: "client_object list \<Rightarrow> api_error list \<Rightarrow> event list \<Rightarrow> bool" where
  "undone objs errs es \<longleftrightarrow>
     (\<exists>as. length as = length objs \<and> es = map2 (EDelete TargetClient) objs as \<and>
        errs = List.map_filter id as)"

lemma undone_deleted: "undone objs errs es \<Longrightarrow> map fst (deleted es) = objs \<and> created es = [] \<and>
  errs = List.map_filter snd (deleted es)"
proof -
  have "map fst (deleted (map2 (EDelete TargetClient) objs as)) = objs \<and>
      created (map2 (EDelete TargetClient) objs as) = [] \<and>
      List.map_filter id as = List.map_filter snd (deleted (map2 (EDelete TargetClient) objs as))"
    if "length as = length objs" for as
    using that by (induction as objs rule: list_induct2)
      (auto simp: List.map_filter_simps split: option.split)
  then show "undone objs errs es \<Longrightarrow> map fst (deleted es) = objs \<and> created es = [] \<and>
      errs = List.map_filter snd (deleted es)"
    by (auto simp: undone_def)
qed

lemma emits_cleanup: "emits (cleanup E objs :: ('s, 'z, _) io) (undone objs)"
proof (induction objs)
  case Nil
  show ?case by (auto intro!: emits_rules simp: undone_def List.map_filter_simps)
next
  case (Cons obj objs)
  have step: "undone (obj # objs) (case err of Some e \<Rightarrow> e # errs | None \<Rightarrow> errs)
      (EDelete TargetClient obj err # es)" if undone: "undone objs errs es" for err errs es
  proof -
    obtain as where "length as = length objs" "es = map2 (EDelete TargetClient) objs as"
      "errs = List.map_filter id as"
      using undone by (auto simp: undone_def)
    then show ?thesis
      unfolding undone_def
      by (intro exI [of _ "err # as"]) (auto simp: List.map_filter_simps split: option.split)
  qed
  show ?case
    unfolding cleanup.simps
    by (intro emits_rules emits_conseq [OF Cons.IH]) (use step in simp)
qed

section \<open>The whole move\<close>

definition crsListed ::
  "string \<Rightarrow> http_boot_config list \<Rightarrow> ipxe_boot_config list \<Rightarrow> event list \<Rightarrow> bool" where
  "crsListed ns hs ps es \<longleftrightarrow>
     es = [EListHTTP SourceClient (InNamespace ns) (Inr hs), EListIPXE SourceClient (InNamespace ns) (Inr ps)]"

text \<open>The plan of a move, or the refusal: what the reads \<open>rs\<close> say about the listed objects.\<close>

definition plannedFrom ::
  "lib \<Rightarrow> string \<Rightarrow> event list \<Rightarrow> move_error + client_object list \<Rightarrow> bool" where
  "plannedFrom L ns rs r \<longleftrightarrow>
     (\<exists>hs is ls es. rs = ls @ es \<and> crsListed ns hs is ls \<and>
        plans L (secretNames hs is) (map HTTPObj hs @ map IPXEObj is) es r)"

lemma plannedFrom_reads: "plannedFrom L ns rs r \<Longrightarrow> list_all isClusterRead rs"
  by (auto simp: plannedFrom_def crsListed_def dest: plans_reads)

lemma secretChecked_error: "secretChecked nn es (Inl err) \<Longrightarrow> err \<noteq> MoveAborted e errs"
  by (auto elim: secretChecked.cases)

lemma map_sum_Inl: "map_sum id f r = Inl e \<longleftrightarrow> r = Inl e"
  by (cases r) auto

lemma plans_error: "plans L names objs es r \<Longrightarrow> r \<noteq> Inl (MoveAborted e errs)"
  by (induction rule: plans.induct) (auto dest: secretChecked_error simp: map_sum_Inl)

lemma plannedFrom_nothing: "plannedFrom L ns rs r \<Longrightarrow>
  created rs = [] \<and> deleted rs = [] \<and> (\<forall>e errs. r \<noteq> Inl (MoveAborted e errs))"
  using plannedFrom_reads [of L ns rs r] by (auto simp: plannedFrom_def dest: plans_error)

inductive moveRun ::
  "lib \<Rightarrow> string \<Rightarrow> bool \<Rightarrow> bool \<Rightarrow> move_error option \<Rightarrow> event list \<Rightarrow> bool"
  for L ns requireOwners dryRun where
  https_not_listed:
    "moveRun L ns requireOwners dryRun (Some (ListHTTPFailed err))
       [EListHTTP SourceClient (InNamespace ns) (Inl err)]"
| ipxes_not_listed:
    "moveRun L ns requireOwners dryRun (Some (ListIPXEFailed err))
       [EListHTTP SourceClient (InNamespace ns) (Inr hs), EListIPXE SourceClient (InNamespace ns) (Inl err)]"
| refused: "plannedFrom L ns rs (Inl err) \<Longrightarrow> moveRun L ns requireOwners dryRun (Some err) rs"
| dry: "dryRun \<Longrightarrow> plannedFrom L ns rs (Inr objs) \<Longrightarrow> moveRun L ns requireOwners dryRun None rs"
| moved: "\<not> dryRun \<Longrightarrow> plannedFrom L ns rs (Inr objs) \<Longrightarrow> allMoved L requireOwners objs ps ws \<Longrightarrow>
    moveRun L ns requireOwners dryRun None (rs @ ws)"
| rolled_back: "\<not> dryRun \<Longrightarrow> plannedFrom L ns rs (Inr objs) \<Longrightarrow> n < length objs \<Longrightarrow>
    allMoved L requireOwners (take n objs) ps ws \<Longrightarrow> failsAs L requireOwners (objs ! n) err fs \<Longrightarrow>
    undone ps errs ds \<Longrightarrow>
    moveRun L ns requireOwners dryRun (Some (MoveAborted err errs)) (rs @ ws @ fs @ ds)"

lemma emits_getCrs:
  assumes "\<And>err. R (Inl (ListHTTPFailed err)) [EListHTTP SourceClient (InNamespace ns) (Inl err)]"
    and "\<And>hs err. R (Inl (ListIPXEFailed err)) [EListHTTP SourceClient (InNamespace ns) (Inr hs),
      EListIPXE SourceClient (InNamespace ns) (Inl err)]"
    and "\<And>hs ps es. crsListed ns hs ps es \<Longrightarrow> R (Inr (hs, ps)) es"
  shows "emits (getCrs E ns) R"
  unfolding getCrs_def
  by (intro emits_rules) (auto intro!: assms simp: crsListed_def split: sum.split)

lemma emits_moveObjs:
  assumes "\<And>ps ws. allMoved L q objs ps ws \<Longrightarrow> R (ps, None) ws"
    and "\<And>n ps ws fs err. n < length objs \<Longrightarrow> allMoved L q (take n objs) ps ws \<Longrightarrow>
      failsAs L q (objs ! n) err fs \<Longrightarrow> R (ps, Some err) (ws @ fs)"
  shows "emits (moveObjs L E objs q) R"
  unfolding moveObjs_def
  by (rule emits_conseq [OF emits_moveObjsLoop])
    (auto simp: moveOutcome_def intro: assms split: option.splits)

lemma map_sum_append_Nil: "map_sum id (append []) r = r"
  by (cases r) auto

lemma emits_getObjsToBeMoved:
  "emits (getObjsToBeMoved L E hs is) (\<lambda>r es.
     plans L (secretNames hs is) (map HTTPObj hs @ map IPXEObj is) es r)"
  unfolding getObjsToBeMoved_def getUidToSecretNameMap_eq
  by (rule emits_conseq [OF emits_objsToMoveLoop]) (simp add: plansFrom_def map_sum_append_Nil)

lemma crsListed_reads: "crsListed ns hs is es \<Longrightarrow> list_all isClusterRead es"
  by (auto simp: crsListed_def)

lemma plannedFromI:
  "crsListed ns hs is ls \<Longrightarrow>
     plans L (secretNames hs is) (map HTTPObj hs @ map IPXEObj is) es r \<Longrightarrow>
     plannedFrom L ns (ls @ es) r"
  unfolding plannedFrom_def by blast

lemma emits_move: "emits (move L E ns q dryRun) (moveRun L ns q dryRun)"
  unfolding move_def
  by (intro emits_rules emits_getCrs emits_conseq [OF emits_getObjsToBeMoved] emits_moveObjs
      emits_conseq [OF emits_cleanup])
    (auto intro: moveRun.https_not_listed moveRun.ipxes_not_listed
      moveRun.refused [where rs = "a @ b" for a b, simplified]
      moveRun.dry [where rs = "a @ b" for a b, simplified]
      moveRun.moved [where rs = "a @ b" for a b, simplified]
      moveRun.rolled_back [where rs = "a @ b" for a b, simplified] plannedFromI)

section \<open>Which cluster is written\<close>

definition targetAccess :: "bool \<Rightarrow> event \<Rightarrow> bool" where
  "targetAccess dryRun e \<longleftrightarrow> isClusterRead e \<or> (\<not> dryRun \<and>
     ((\<exists>k a. e = EGetSBC TargetClient k a) \<or> (\<exists>x a. e = ECreate TargetClient x a) \<or>
      (\<exists>x a. e = EDelete TargetClient x a)))"

lemma reads_targetAccess: "list_all isClusterRead es \<Longrightarrow> list_all (targetAccess d) es"
  by (auto simp: list_all_iff targetAccess_def)

lemma read_targetAccess: "isClusterRead e \<Longrightarrow> targetAccess d e"
  by (simp add: targetAccess_def)

lemma movedAs_targetAccess: "movedAs L q obj p es \<Longrightarrow> list_all (targetAccess False) es"
  by (fastforce simp: movedAs_def targetAccess_def list_all_iff dest!: preparedAs_reads)

lemma allMoved_targetAccess: "allMoved L q objs ps es \<Longrightarrow> list_all (targetAccess False) es"
  by (induction rule: allMoved.induct) (auto dest: movedAs_targetAccess)

lemma failsAs_targetAccess: "failsAs L q obj err es \<Longrightarrow> list_all (targetAccess False) es"
  by (fastforce simp: list_all_iff targetAccess_def dest!: failsAs_creates_nothing)

lemma undone_targetAccess: "undone objs errs es \<Longrightarrow> list_all (targetAccess False) es"
  by (auto simp: undone_def list_all_iff targetAccess_def set_zip)

lemma moveRun_targetAccess: "moveRun L ns q d r es \<Longrightarrow> list_all (targetAccess d) es"
  by (induction rule: moveRun.induct)
    (auto dest: plannedFrom_reads crsListed_reads reads_targetAccess allMoved_targetAccess
      failsAs_targetAccess undone_targetAccess intro: read_targetAccess)

text \<open>
  The net effect: the objects created and then deleted.
\<close>

lemma moveRun_created:
  "moveRun L ns q d r es \<Longrightarrow>
     (case r of
        Some (MoveAborted _ errs) \<Rightarrow>
          map fst (deleted es) = created es \<and> errs = List.map_filter snd (deleted es)
      | Some _ \<Rightarrow> created es = [] \<and> deleted es = []
      | None \<Rightarrow> deleted es = [])"
  by (induction rule: moveRun.induct)
    (auto dest!: plannedFrom_nothing allMoved_created undone_deleted
      failsAs_creates_nothing split: move_error.split)

section \<open>Properties\<close>

text \<open>C9: A move lists the boot configurations of the source and compares them in order with the
  target, reading exactly what \<open>plans\<close> says: a configuration that is absent there is planned for
  creation; one that is present and equal is skipped; one that is present and differs ends the
  move. An absent configuration's ignition secret is read from the source, and is planned if the
  target has none, skipped if the target's is equal, and ends the move if the target's differs.
  Any of these refusals, and any failed read, ends the move with the error of that kind and object
  and without a write. Equal means equal in content, owners, labels and annotations, and a
  configuration is compared with what \<open>Get\<close> leaves in its copy; the name of a secret is found by
  the UID of the configuration. Without dry run the move then
  creates exactly the planned objects in order, with unchanged content and adopted by the owner of
  the same name in the target; if a step fails, with the error of that step, the objects created
  so far, and no others, are deleted again.\<close>

theorem move_correct: "emits (move L E ns requireOwners dryRun) (moveRun L ns requireOwners dryRun)"
  by (rule emits_move)

text \<open>The source cluster is only ever read, and a dry run only reads.\<close>

lemma move_writes_target_only:
  "onlyEmits (move L E ns requireOwners dryRun) (targetAccess dryRun)"
  by (rule emits_conseq [OF emits_move]) (rule moveRun_targetAccess)

text \<open>C10: A move that fails has deleted exactly what it created, in the order of creation, and
  reports the errors of these deletions; a move that is refused has created nothing; and one that
  succeeds deletes nothing.\<close>

theorem move_rolls_back:
  "emits (move L E ns requireOwners dryRun) (\<lambda>r es.
     case r of
       Some (MoveAborted _ errs) \<Rightarrow>
         map fst (deleted es) = created es \<and> errs = List.map_filter snd (deleted es)
     | Some _ \<Rightarrow> created es = [] \<and> deleted es = []
     | None \<Rightarrow> deleted es = [])"
  by (rule emits_conseq [OF emits_move]) (rule moveRun_created)

text \<open>C38: An HTTP and an IPXE configuration that name the same ignition secret, as both reconcilers
  produce for one \<open>ServerBootConfiguration\<close>, put that secret on the list of the objects to be
  created twice when the target has none of the three, so that its second creation must fail.\<close>

theorem shared_secret_planned_twice:
  assumes "\<And>k s. e_getHTTP E TargetClient k s = (Inl (APINotFound ''absent''), s)"
    and "\<And>k s. e_getIPXE E TargetClient k s = (Inl (APINotFound ''absent''), s)"
    and "\<And>k s. e_getSecret E TargetClient k s = (Inl (APINotFound ''absent''), s)"
    and "\<And>k s. e_getSecret E SourceClient k s = (Inr secret, s)"
    and "httpIgnitionSecretRef (httpSpec h) = Some n" "ipxeIgnitionSecretRef (ipxeSpec p) = Some n"
    and "n \<noteq> []" "metaUID (httpMeta h) \<noteq> metaUID (ipxeMeta p)"
  shows "fst (run_state (getObjsToBeMoved L E [h] [p]) w) =
    Inr [HTTPObj h, SecretObj secret, IPXEObj p, SecretObj secret]"
  using assms
  by (simp add: getObjsToBeMoved_def getUidToSecretNameMap_def getSameKind_def secretToMove_def
      Let_def split_beta)

definition emptySecret :: "string \<Rightarrow> string \<Rightarrow> secret" where
  "emptySecret ns n = \<lparr>secretType = emptyGVK, secretMeta = newMeta ns n, secretData = Map.empty,
     secretOther = []\<rparr>"

definition moveEnv :: "unit env" where
  "moveEnv = offlineEnv\<lparr>
     e_getHTTP := \<lambda>_ _ s. (Inl (APINotFound ''absent''), s),
     e_getIPXE := \<lambda>_ _ s. (Inl (APINotFound ''absent''), s),
     e_getSecret := \<lambda>c _ s. (case c of SourceClient \<Rightarrow> Inr (emptySecret ''ns'' ''ignition'')
       | _ \<Rightarrow> Inl (APINotFound ''absent''), s)\<rparr>"

definition sampleHTTP :: http_boot_config where
  "sampleHTTP = (emptyHTTP ''ns'' ''boot'')\<lparr>httpMeta := (newMeta ''ns'' ''boot'')\<lparr>metaUID := ''1''\<rparr>,
     httpSpec := \<lparr>httpSystemUUID = [], httpIgnitionSecretRef = Some ''ignition'',
       httpNetworkIdentifiers = [], httpUKIURL = []\<rparr>\<rparr>"

definition sampleIPXE :: ipxe_boot_config where
  "sampleIPXE = (emptyIPXE ''ns'' ''boot'')\<lparr>
     ipxeSpec := (ipxeSpec (emptyIPXE ''ns'' ''boot''))\<lparr>ipxeIgnitionSecretRef := Some ''ignition''\<rparr>\<rparr>"

lemma shared_secret_witness:
  "fst (run_state (getObjsToBeMoved sampleLib moveEnv [sampleHTTP] [sampleIPXE]) (startWorld ())) =
     Inr [HTTPObj sampleHTTP, SecretObj (emptySecret ''ns'' ''ignition''), IPXEObj sampleIPXE,
       SecretObj (emptySecret ''ns'' ''ignition'')]"
  by (rule shared_secret_planned_twice [where n = "''ignition''"])
    (simp_all add: moveEnv_def sampleHTTP_def sampleIPXE_def emptyIPXE_def newMeta_def)

end
