(* ===== verification/Bootctl.thy ===== *)
theory Bootctl
  imports Move "HOL-Library.Multiset"
begin

text \<open>
  The command line of \<open>bootctl move\<close>, \<^verbatim>\<open>cmd/bootctl/main.go\<close>, \<^verbatim>\<open>cmd/bootctl/app/app.go\<close> and
  \<^verbatim>\<open>cmd/bootctl/app/move.go\<close>: its flags, the two clients and the exit status. Loading a kubeconfig
  and constructing a client are parameters, as is the environment that two clients give access
  to; of cobra the model has that \<open>RunE\<close> is called once the flags are parsed and only if every
  flag that is marked as required is among those set.
\<close>

section \<open>The code\<close>

record move_flags =
  mfSourceKubeconfig :: string
  mfTargetKubeconfig :: string
  mfNamespace :: string
  mfRequireOwners :: bool
  mfDryRun :: bool
  mfVerbose :: bool

datatype log_level = LevelInfo | LevelDebug

record move_command =
  mcDefaults :: move_flags
  mcRequired :: "string list"
  mcLogLevel :: log_level

text \<open>
  The construction of the command: the variables get their defaults when the flags are
  declared, and the log level is chosen there, before anything is parsed.
\<close>

definition NewMoveCommand :: move_command where
  "NewMoveCommand =
     (let flags = \<lparr>mfSourceKubeconfig = [], mfTargetKubeconfig = [], mfNamespace = [],
            mfRequireOwners = False, mfDryRun = False, mfVerbose = False\<rparr>
      in \<lparr>mcDefaults = flags, mcRequired = [''source-kubeconfig'', ''target-kubeconfig''],
          mcLogLevel = (if mfVerbose flags then LevelDebug else LevelInfo)\<rparr>)"

record ('s, 'cfg, 'cl) kube =
  k_buildConfig :: "string \<Rightarrow> string + 'cfg"
  k_newClient :: "'cfg \<Rightarrow> string + 'cl"
  k_env :: "'cl \<Rightarrow> 'cl \<Rightarrow> 's env"

definition makeClient :: "('s, 'cfg, 'cl) kube \<Rightarrow> string \<Rightarrow> string + 'cl" where
  "makeClient K kubeconfig =
     (case k_buildConfig K kubeconfig of
        Inl err \<Rightarrow> Inl (''failed to load cluster kubeconfig: '' @ err)
      | Inr cfg \<Rightarrow> k_newClient K cfg)"

definition makeClients :: "('s, 'cfg, 'cl) kube \<Rightarrow> move_flags \<Rightarrow> string + ('cl \<times> 'cl)" where
  "makeClients K f =
     (case makeClient K (mfSourceKubeconfig f) of
        Inl err \<Rightarrow> Inl (''failed to construct a source cluster client: '' @ err)
      | Inr source \<Rightarrow>
          (case makeClient K (mfTargetKubeconfig f) of
             Inl err \<Rightarrow> Inl (''failed to construct a target cluster client: '' @ err)
           | Inr target \<Rightarrow> Inr (source, target)))"

datatype bootctl_error =
    RequiredFlagsMissing "string list"
  | ClientsFailed string
  | MoveFailed move_error

definition runMove ::
  "lib \<Rightarrow> ('s, 'cfg, 'cl) kube \<Rightarrow> move_flags \<Rightarrow> ('s, 'z, bootctl_error option) io" where
  "runMove L K f =
     (case makeClients K f of
        Inl err \<Rightarrow> ret (Some (ClientsFailed err))
      | Inr (source, target) \<Rightarrow> do {
          err \<leftarrow> move L (k_env K source target) (mfNamespace f) (mfRequireOwners f) (mfDryRun f);
          ret (map_option MoveFailed err) })"

text \<open>\<open>changed\<close> are the flags that the command line sets, \<open>f\<close> the values after parsing.\<close>

definition executeMove ::
  "lib \<Rightarrow> ('s, 'cfg, 'cl) kube \<Rightarrow> string list \<Rightarrow> move_flags \<Rightarrow> ('s, 'z, bootctl_error option) io" where
  "executeMove L K changed f =
     (let missing = filter (\<lambda>n. n \<notin> set changed) (mcRequired NewMoveCommand) in
      if missing \<noteq> [] then ret (Some (RequiredFlagsMissing missing)) else runMove L K f)"

text \<open>The exit status.\<close>

definition bootctlMain ::
  "lib \<Rightarrow> ('s, 'cfg, 'cl) kube \<Rightarrow> string list \<Rightarrow> move_flags \<Rightarrow> ('s, 'z, int) io" where
  "bootctlMain L K changed f = do {
     err \<leftarrow> executeMove L K changed f;
     ret (case err of Some _ \<Rightarrow> 1 | None \<Rightarrow> 0) }"

section \<open>Properties\<close>

definition connected :: "('s, 'cfg, 'cl) kube \<Rightarrow> string list \<Rightarrow> move_flags \<Rightarrow> bool" where
  "connected K changed f \<longleftrightarrow> {''source-kubeconfig'', ''target-kubeconfig''} \<subseteq> set changed \<and>
     (case makeClients K f of Inl _ \<Rightarrow> False | Inr _ \<Rightarrow> True)"

text \<open>
  What a run leaves of the objects it created: those it did not delete again. A deletion that
  returned an error has not removed its object.
\<close>

definition leftBehind :: "event list \<Rightarrow> client_object multiset" where
  "leftBehind es =
     mset (created es) - mset (map fst (filter (\<lambda>d. snd d = None) (deleted es)))"

lemma deletions_split:
  "mset (map fst ds) = mset (map fst (filter (\<lambda>d. snd d = None) ds))
     + mset (map fst (filter (\<lambda>d. snd d \<noteq> None) ds))"
  by (induction ds) auto

lemma failed_deletions:
  "mset (map fst ds) - mset (map fst (filter (\<lambda>d. snd d = None) ds))
     = mset (map fst (filter (\<lambda>d. snd d \<noteq> None) ds))"
  by (subst deletions_split) simp

lemma length_errors: "length (List.map_filter snd ds) = length (filter (\<lambda>d. snd d \<noteq> None) ds)"
  by (induction ds) (auto simp: List.map_filter_simps split: option.split)

lemma leftBehind_rolled_back:
  assumes "map fst (deleted es) = created es"
  shows "leftBehind es = mset (map fst (filter (\<lambda>d. snd d \<noteq> None) (deleted es)))"
    and "size (leftBehind es) = length (List.map_filter snd (deleted es))"
proof -
  show *: "leftBehind es = mset (map fst (filter (\<lambda>d. snd d \<noteq> None) (deleted es)))"
    unfolding leftBehind_def assms [symmetric] by (rule failed_deletions)
  show "size (leftBehind es) = length (List.map_filter snd (deleted es))"
    by (simp only: * size_mset length_map length_errors)
qed

text \<open>What a run of the move leaves in the target, by its result.\<close>

definition moveLeft :: "move_error option \<Rightarrow> event list \<Rightarrow> bool" where
  "moveLeft r es \<longleftrightarrow>
     (case r of
        None \<Rightarrow> leftBehind es = mset (created es)
      | Some (MoveAborted _ errs) \<Rightarrow>
          map fst (deleted es) = created es \<and>
          leftBehind es = mset (map fst (filter (\<lambda>d. snd d \<noteq> None) (deleted es))) \<and>
          size (leftBehind es) = length errs
      | Some _ \<Rightarrow> created es = [] \<and> leftBehind es = {#})"

lemma moveRun_left: "moveRun L ns q d r es \<Longrightarrow> moveLeft r es"
  using moveRun_created [of L ns q d r es] leftBehind_rolled_back [of es]
  by (cases r) (auto simp: moveLeft_def leftBehind_def split: move_error.splits)

definition moveDone ::
  "lib \<Rightarrow> move_flags \<Rightarrow> move_error option \<Rightarrow> event list \<Rightarrow> bool" where
  "moveDone L f r es \<longleftrightarrow> moveRun L (mfNamespace f) (mfRequireOwners f) (mfDryRun f) r es \<and>
     list_all (targetAccess (mfDryRun f)) es \<and> moveLeft r es"

lemma emits_moveDone:
  "emits (move L E (mfNamespace f) (mfRequireOwners f) (mfDryRun f)) (moveDone L f)"
  by (rule emits_conseq [OF emits_move])
    (simp add: moveDone_def moveRun_targetAccess moveRun_left)

text \<open>C28: \<open>bootctl move\<close> contacts no cluster unless both kubeconfigs are named, load and give a
  client; it then runs the move with the flags' values, writes to the target only and, in a dry
  run, not at all; it exits with 0 exactly if the move succeeds. When it exits with 1 it has
  created nothing, or it has tried to delete each object it created: what is left then are exactly
  the objects whose deletion failed, as many as the error reports failed deletions. The exit
  status alone therefore does not say whether something is left, the error does. Debug output is
  never enabled, whatever \<open>--verbose\<close> says.\<close>

theorem bootctl_correct:
  "emits (bootctlMain L K changed f) (\<lambda>status es.
     if connected K changed f
     then \<exists>r. moveDone L f r es \<and> status = (if r = None then 0 else 1)
     else es = [] \<and> status = 1)
   \<and> mcLogLevel NewMoveCommand = LevelInfo"
proof
  show "emits (bootctlMain L K changed f) (\<lambda>status es.
     if connected K changed f
     then \<exists>r. moveDone L f r es \<and> status = (if r = None then 0 else 1)
     else es = [] \<and> status = 1)"
    unfolding bootctlMain_def executeMove_def runMove_def Let_def
    by (intro emits_rules emits_conseq [OF emits_moveDone])
      (auto simp: connected_def NewMoveCommand_def filter_empty_conv split: option.splits if_splits)
  show "mcLogLevel NewMoveCommand = LevelInfo"
    by (simp add: NewMoveCommand_def)
qed

end
