(* ===== verification/DeepCopy.thy ===== *)
theory DeepCopy
  imports Objects
begin

text \<open>
  The copy functions of \<^verbatim>\<open>api/v1alpha1/zz_generated.deepcopy.go\<close> over an explicit store. The
  other theories treat an object as a value, so that a copy is the value itself; here objects are
  Go structs with pointers and slices, and a copy has to be equal to the original and share no
  memory with it, so that changing one does not change the other. \<open>ObjectMeta\<close> and \<open>ListMeta\<close>
  belong to apimachinery: their types and copy functions are parameters.
\<close>

section \<open>The store\<close>

record slice =
  slArray :: nat
  slOffset :: nat
  slLen :: nat

text \<open>Go structs: a pointer is \<open>None\<close> for nil or an address, a slice is \<open>None\<close> for nil.\<close>

record go_http_spec =
  ghSystemUUID :: string
  ghIgnitionSecretRef :: "nat option"
  ghNetworkIdentifiers :: "slice option"
  ghUKIURL :: string

record go_ipxe_spec =
  giSystemUUID :: string
  giSystemIPs :: "slice option"
  giImage :: string
  giKernelURL :: string
  giInitrdURL :: string
  giSquashfsURL :: string
  giIPXEServerURL :: string
  giIgnitionSecretRef :: "nat option"
  giIPXEScriptSecretRef :: "nat option"

record go_http_status =
  ghState :: string
  ghConditions :: "slice option"

record go_ipxe_status =
  giState :: string
  giConditions :: "slice option"

record 'm go_http =
  ghType :: gvk
  ghMeta :: 'm
  ghSpec :: go_http_spec
  ghStatus :: go_http_status

record 'm go_ipxe =
  giType :: gvk
  giMeta :: 'm
  giSpec :: go_ipxe_spec
  giStatus :: go_ipxe_status

record 'l go_list =
  glType :: gvk
  glMeta :: 'l
  glItems :: "slice option"

text \<open>What an address holds; \<open>ForeignCell\<close> is memory of other packages' types.\<close>

datatype ('m, 'l, 'e) cell =
    RefCell string
  | StringArray "string list"
  | ConditionArray "condition list"
  | HTTPSpecCell go_http_spec
  | IPXESpecCell go_ipxe_spec
  | HTTPStatusCell go_http_status
  | IPXEStatusCell go_ipxe_status
  | HTTPCell "'m go_http"
  | IPXECell "'m go_ipxe"
  | HTTPArray "'m go_http list"
  | IPXEArray "'m go_ipxe list"
  | HTTPListCell "'l go_list"
  | IPXEListCell "'l go_list"
  | ForeignCell 'e

record ('m, 'l, 'e) store =
  stCells :: "nat \<Rightarrow> ('m, 'l, 'e) cell option"
  stNext :: nat

definition alloc :: "('m, 'l, 'e) cell \<Rightarrow> ('m, 'l, 'e) store \<Rightarrow> nat \<times> ('m, 'l, 'e) store" where
  "alloc c s = (stNext s, s\<lparr>stCells := (stCells s)(stNext s \<mapsto> c), stNext := Suc (stNext s)\<rparr>)"

definition deref :: "('m, 'l, 'e) store \<Rightarrow> nat \<Rightarrow> ('m, 'l, 'e) cell option" where
  "deref s a = (if a < stNext s then stCells s a else None)"

definition writeCell :: "nat \<Rightarrow> ('m, 'l, 'e) cell \<Rightarrow> ('m, 'l, 'e) store \<Rightarrow> ('m, 'l, 'e) store" where
  "writeCell a c s = s\<lparr>stCells := (stCells s)(a \<mapsto> c)\<rparr>"

section \<open>Copying Go values\<close>

text \<open>
  The statements that the generated functions are made of. \<open>copyPtr\<close> is
  \<open>*out = new(T); **out = **in\<close> and \<open>out := new(T); in.DeepCopyInto(out)\<close> under a test for nil, with
  \<open>get\<close> selecting the cells of \<open>T\<close>; \<open>copySlice\<close> is \<open>*out = make([]T, len(*in))\<close> with \<open>copy\<close> or the
  loop over the elements. A cell is allocated once its contents are known; the order of
  allocations cannot be observed.
\<close>

definition copyValue :: "'a \<Rightarrow> 's \<Rightarrow> 'a \<times> 's" where
  "copyValue v s = (v, s)"

primrec copyList :: "('a \<Rightarrow> 's \<Rightarrow> 'a \<times> 's) \<Rightarrow> 'a list \<Rightarrow> 's \<Rightarrow> 'a list \<times> 's" where
  "copyList copy [] s = ([], s)"
| "copyList copy (v # vs) s =
     (case copy v s of (v', s1) \<Rightarrow> (case copyList copy vs s1 of (vs', s2) \<Rightarrow> (v' # vs', s2)))"

definition target :: "(('m, 'l, 'e) cell \<Rightarrow> 'a option) \<Rightarrow> ('m, 'l, 'e) store \<Rightarrow> nat \<Rightarrow> 'a option" where
  "target get s a = Option.bind (deref s a) get"

definition copyPtr ::
  "('a \<Rightarrow> ('m, 'l, 'e) cell) \<Rightarrow> (('m, 'l, 'e) cell \<Rightarrow> 'a option) \<Rightarrow>
     ('a \<Rightarrow> ('m, 'l, 'e) store \<Rightarrow> 'a \<times> ('m, 'l, 'e) store) \<Rightarrow>
     nat option \<Rightarrow> ('m, 'l, 'e) store \<Rightarrow> nat option \<times> ('m, 'l, 'e) store" where
  "copyPtr mk get copy p s =
     (case p of
        None \<Rightarrow> (None, s)
      | Some a \<Rightarrow>
          (case target get s a of
             None \<Rightarrow> (None, s)
           | Some v \<Rightarrow>
               (case copy v s of (v', s1) \<Rightarrow> (case alloc (mk v') s1 of (a', s2) \<Rightarrow> (Some a', s2)))))"

definition elements ::
  "(('m, 'l, 'e) cell \<Rightarrow> 'a list option) \<Rightarrow> ('m, 'l, 'e) store \<Rightarrow> slice \<Rightarrow> 'a list option" where
  "elements get s sl =
     (case target get s (slArray sl) of
        Some vs \<Rightarrow> if slOffset sl + slLen sl \<le> length vs
          then Some (take (slLen sl) (drop (slOffset sl) vs)) else None
      | None \<Rightarrow> None)"

definition copySlice ::
  "('a list \<Rightarrow> ('m, 'l, 'e) cell) \<Rightarrow> (('m, 'l, 'e) cell \<Rightarrow> 'a list option) \<Rightarrow>
     ('a \<Rightarrow> ('m, 'l, 'e) store \<Rightarrow> 'a \<times> ('m, 'l, 'e) store) \<Rightarrow>
     slice option \<Rightarrow> ('m, 'l, 'e) store \<Rightarrow> slice option \<times> ('m, 'l, 'e) store" where
  "copySlice mk get copy sl s =
     (case sl of
        None \<Rightarrow> (None, s)
      | Some sl \<Rightarrow>
          (case elements get s sl of
             None \<Rightarrow> (None, s)
           | Some vs \<Rightarrow>
               (case copyList copy vs s of (vs', s1) \<Rightarrow>
                  (case alloc (mk vs') s1 of (a', s2) \<Rightarrow>
                     (Some \<lparr>slArray = a', slOffset = 0, slLen = length vs'\<rparr>, s2)))))"

fun getRef :: "('m, 'l, 'e) cell \<Rightarrow> string option" where
  "getRef (RefCell n) = Some n" | "getRef _ = None"
fun getStrings :: "('m, 'l, 'e) cell \<Rightarrow> string list option" where
  "getStrings (StringArray xs) = Some xs" | "getStrings _ = None"
fun getConditions :: "('m, 'l, 'e) cell \<Rightarrow> condition list option" where
  "getConditions (ConditionArray cs) = Some cs" | "getConditions _ = None"
fun getHTTPSpec :: "('m, 'l, 'e) cell \<Rightarrow> go_http_spec option" where
  "getHTTPSpec (HTTPSpecCell v) = Some v" | "getHTTPSpec _ = None"
fun getIPXESpec :: "('m, 'l, 'e) cell \<Rightarrow> go_ipxe_spec option" where
  "getIPXESpec (IPXESpecCell v) = Some v" | "getIPXESpec _ = None"
fun getHTTPStatus :: "('m, 'l, 'e) cell \<Rightarrow> go_http_status option" where
  "getHTTPStatus (HTTPStatusCell v) = Some v" | "getHTTPStatus _ = None"
fun getIPXEStatus :: "('m, 'l, 'e) cell \<Rightarrow> go_ipxe_status option" where
  "getIPXEStatus (IPXEStatusCell v) = Some v" | "getIPXEStatus _ = None"
fun getHTTP :: "('m, 'l, 'e) cell \<Rightarrow> 'm go_http option" where
  "getHTTP (HTTPCell v) = Some v" | "getHTTP _ = None"
fun getIPXE :: "('m, 'l, 'e) cell \<Rightarrow> 'm go_ipxe option" where
  "getIPXE (IPXECell v) = Some v" | "getIPXE _ = None"
fun getHTTPs :: "('m, 'l, 'e) cell \<Rightarrow> 'm go_http list option" where
  "getHTTPs (HTTPArray v) = Some v" | "getHTTPs _ = None"
fun getIPXEs :: "('m, 'l, 'e) cell \<Rightarrow> 'm go_ipxe list option" where
  "getIPXEs (IPXEArray v) = Some v" | "getIPXEs _ = None"
fun getHTTPList :: "('m, 'l, 'e) cell \<Rightarrow> 'l go_list option" where
  "getHTTPList (HTTPListCell v) = Some v" | "getHTTPList _ = None"
fun getIPXEList :: "('m, 'l, 'e) cell \<Rightarrow> 'l go_list option" where
  "getIPXEList (IPXEListCell v) = Some v" | "getIPXEList _ = None"

section \<open>Deep copies\<close>

text \<open>
  The contract of a copy function: \<open>view s v\<close> is the API value that the Go value \<open>v\<close> stands for in
  the store \<open>s\<close> (\<open>None\<close> if it has dangling pointers, which Go excludes), \<open>reach s v\<close> the addresses it
  reaches. A copy only adds to the store, stands for the same value, and reaches only addresses
  that were not allocated before; and what a value stands for depends on what it reaches only.
\<close>

definition extends :: "('m, 'l, 'e) store \<Rightarrow> ('m, 'l, 'e) store \<Rightarrow> bool" where
  "extends s s' \<longleftrightarrow> stNext s \<le> stNext s' \<and> (\<forall>a < stNext s. stCells s' a = stCells s a)"

definition agree :: "nat set \<Rightarrow> ('m, 'l, 'e) store \<Rightarrow> ('m, 'l, 'e) store \<Rightarrow> bool" where
  "agree A s s' \<longleftrightarrow> stNext s \<le> stNext s' \<and> (\<forall>a \<in> A. stCells s' a = stCells s a)"

definition deepCopies ::
  "('a \<Rightarrow> ('m, 'l, 'e) store \<Rightarrow> 'a \<times> ('m, 'l, 'e) store) \<Rightarrow> (('m, 'l, 'e) store \<Rightarrow> 'a \<Rightarrow> 'b option) \<Rightarrow>
     (('m, 'l, 'e) store \<Rightarrow> 'a \<Rightarrow> nat set) \<Rightarrow> bool" where
  "deepCopies copy view reach \<longleftrightarrow>
     (\<forall>s v x. view s v = Some x \<longrightarrow>
        (case copy v s of (v', s') \<Rightarrow>
           extends s s' \<and> view s' v' = Some x \<and> reach s' v' \<subseteq> {stNext s..<stNext s'}) \<and>
        reach s v \<subseteq> {..<stNext s} \<and>
        (\<forall>s'. agree (reach s v) s s' \<longrightarrow> view s' v = Some x \<and> reach s' v = reach s v))"

lemma deepCopiesI:
  assumes "\<And>s v x v' s'. view s v = Some x \<Longrightarrow> copy v s = (v', s') \<Longrightarrow> extends s s'"
    and "\<And>s v x v' s'. view s v = Some x \<Longrightarrow> copy v s = (v', s') \<Longrightarrow> view s' v' = Some x"
    and "\<And>s v x v' s'. view s v = Some x \<Longrightarrow> copy v s = (v', s') \<Longrightarrow> reach s' v' \<subseteq> {stNext s..<stNext s'}"
    and "\<And>s v x. view s v = Some x \<Longrightarrow> reach s v \<subseteq> {..<stNext s}"
    and "\<And>s v x s'. view s v = Some x \<Longrightarrow> agree (reach s v) s s' \<Longrightarrow> view s' v = Some x \<and> reach s' v = reach s v"
  shows "deepCopies copy view reach"
  unfolding deepCopies_def
proof (intro allI impI conjI)
  fix s v x
  assume v: "view s v = Some x"
  show "case copy v s of (v', s') \<Rightarrow>
      extends s s' \<and> view s' v' = Some x \<and> reach s' v' \<subseteq> {stNext s..<stNext s'}"
    using assms(1-3) [OF v] by (cases "copy v s") simp
  show "reach s v \<subseteq> {..<stNext s}" by (rule assms(4) [OF v])
  show "view s' v = Some x" "reach s' v = reach s v" if "agree (reach s v) s s'" for s'
    using assms(5) [OF v that] by blast+
qed

locale deep_copier =
  fixes copy :: "'a \<Rightarrow> ('m, 'l, 'e) store \<Rightarrow> 'a \<times> ('m, 'l, 'e) store"
    and view :: "('m, 'l, 'e) store \<Rightarrow> 'a \<Rightarrow> 'b option"
    and reach :: "('m, 'l, 'e) store \<Rightarrow> 'a \<Rightarrow> nat set"
  assumes deep: "deepCopies copy view reach"
begin

lemma copied:
  assumes "view s v = Some x" "copy v s = (v', s')"
  shows "extends s s'" "view s' v' = Some x" "reach s' v' \<subseteq> {stNext s..<stNext s'}"
proof -
  note deep [unfolded deepCopies_def, THEN spec [where x = s], THEN spec [where x = v],
    THEN spec [where x = x], THEN mp, OF assms(1), THEN conjunct1]
  with assms(2) show "extends s s'" "view s' v' = Some x" "reach s' v' \<subseteq> {stNext s..<stNext s'}"
    by simp_all
qed

lemma allocated: "view s v = Some x \<Longrightarrow> reach s v \<subseteq> {..<stNext s}"
  using deep unfolding deepCopies_def by blast

lemma frame:
  assumes "view s v = Some x" "agree (reach s v) s s'"
  shows "view s' v = Some x" "reach s' v = reach s v"
  using deep assms unfolding deepCopies_def by blast+

lemma extended:
  assumes "view s v = Some x" "extends s s'"
  shows "view s' v = Some x" "reach s' v = reach s v"
proof -
  have "agree (reach s v) s s'"
    using allocated [OF assms(1)] assms(2) by (auto simp: agree_def extends_def)
  then show "view s' v = Some x" "reach s' v = reach s v" by (rule frame [OF assms(1)])+
qed

lemma original_kept:
  assumes "view s v = Some x" "copy v s = (v', s')"
  shows "view s' v = Some x" "reach s' v \<inter> reach s' v' = {}"
proof -
  note ext = copied(1) [OF assms]
  show "view s' v = Some x" by (rule extended(1) [OF assms(1) ext])
  have "reach s' v = reach s v" by (rule extended(2) [OF assms(1) ext])
  then show "reach s' v \<inter> reach s' v' = {}"
    using allocated [OF assms(1)] copied(3) [OF assms] by fastforce
qed

lemma write_elsewhere: "view s v = Some x \<Longrightarrow> a \<notin> reach s v \<Longrightarrow> view (writeCell a c s) v = Some x"
  by (rule frame(1)) (auto simp: agree_def writeCell_def)

text \<open>A write to either the original or the copy does not change the other.\<close>

lemma isolated:
  assumes "view s v = Some x" "copy v s = (v', s')"
  shows "a \<in> reach s' v' \<Longrightarrow> view (writeCell a c s') v = Some x"
    and "a \<in> reach s' v \<Longrightarrow> view (writeCell a c s') v' = Some x"
  using original_kept [OF assms] copied(2) [OF assms] by (auto intro!: write_elsewhere)

end

lemma extends_refl: "extends s s"
  by (simp add: extends_def)

lemma extends_trans: "extends s s1 \<Longrightarrow> extends s1 s2 \<Longrightarrow> extends s s2"
  by (auto simp: extends_def)

lemma extends_alloc: "alloc c s = (a, s') \<Longrightarrow> extends s s' \<and> a = stNext s \<and> stNext s' = Suc (stNext s)
    \<and> deref s' a = Some c"
  by (auto simp: alloc_def extends_def deref_def)

section \<open>Values, pointers, lists, slices and structs\<close>

lemma deepCopies_value: "deepCopies copyValue (\<lambda>s v. Some (f v)) (\<lambda>_ _. {})"
  by (rule deepCopiesI) (auto simp: copyValue_def extends_refl)

definition viewPtr ::
  "(('m, 'l, 'e) cell \<Rightarrow> 'a option) \<Rightarrow> (('m, 'l, 'e) store \<Rightarrow> 'a \<Rightarrow> 'b option) \<Rightarrow>
     ('m, 'l, 'e) store \<Rightarrow> nat option \<Rightarrow> 'b option option" where
  "viewPtr get view s p =
     (case p of None \<Rightarrow> Some None
      | Some a \<Rightarrow> (case target get s a of None \<Rightarrow> None | Some v \<Rightarrow> map_option Some (view s v)))"

definition reachPtr ::
  "(('m, 'l, 'e) cell \<Rightarrow> 'a option) \<Rightarrow> (('m, 'l, 'e) store \<Rightarrow> 'a \<Rightarrow> nat set) \<Rightarrow>
     ('m, 'l, 'e) store \<Rightarrow> nat option \<Rightarrow> nat set" where
  "reachPtr get reach s p =
     (case p of None \<Rightarrow> {}
      | Some a \<Rightarrow> insert a (case target get s a of None \<Rightarrow> {} | Some v \<Rightarrow> reach s v))"

lemma target_agree: "target get s a = Some v \<Longrightarrow> agree A s s' \<Longrightarrow> a \<in> A \<Longrightarrow> target get s' a = Some v"
  by (auto simp: target_def deref_def agree_def split: if_splits)

lemma target_bound: "target get s a = Some v \<Longrightarrow> a < stNext s"
  by (auto simp: target_def deref_def split: if_splits)

lemma agree_subset: "agree A s s' \<Longrightarrow> B \<subseteq> A \<Longrightarrow> agree B s s'"
  by (auto simp: agree_def)

lemma deepCopies_ptr:
  assumes "deepCopies copy view reach" "\<And>v. get (mk v) = Some v"
  shows "deepCopies (copyPtr mk get copy) (viewPtr get view) (reachPtr get reach)"
proof (rule deepCopiesI)
  note dc = deep_copier.intro [OF assms(1)]
  fix s p x
  assume v: "viewPtr get view s p = Some x"
  show "reachPtr get reach s p \<subseteq> {..<stNext s}"
    using v by (auto simp: viewPtr_def reachPtr_def dest: target_bound dest!: deep_copier.allocated [OF dc]
        split: option.splits)
  show "viewPtr get view s' p = Some x \<and> reachPtr get reach s' p = reachPtr get reach s p"
    if ag: "agree (reachPtr get reach s p) s s'" for s'
  proof (cases p)
    case (Some a)
    with v obtain w y where w: "target get s a = Some w" "view s w = Some y" "x = Some y"
      by (auto simp: viewPtr_def split: option.splits)
    have "agree (reach s w) s s'" using ag w(1) Some by (auto simp: reachPtr_def intro: agree_subset)
    moreover have "target get s' a = Some w"
      using target_agree [OF w(1) ag] Some by (simp add: reachPtr_def)
    ultimately show ?thesis
      using Some w deep_copier.frame [OF dc w(2)] by (simp add: viewPtr_def reachPtr_def)
  qed (use v in \<open>simp add: viewPtr_def reachPtr_def\<close>)
  fix p' s'
  assume c: "copyPtr mk get copy p s = (p', s')"
  have "extends s s' \<and> viewPtr get view s' p' = Some x \<and> reachPtr get reach s' p' \<subseteq> {stNext s..<stNext s'}"
  proof (cases p)
    case None
    with v c show ?thesis by (auto simp: viewPtr_def copyPtr_def reachPtr_def extends_refl)
  next
    case (Some a)
    with v obtain w y where w: "target get s a = Some w" "view s w = Some y" "x = Some y"
      by (auto simp: viewPtr_def split: option.splits)
    obtain w' s1 where w': "copy w s = (w', s1)" by fastforce
    obtain a' s2 where a': "alloc (mk w') s1 = (a', s2)" by fastforce
    have r: "p' = Some a'" "s' = s2" using c Some w(1) w' a' by (auto simp: copyPtr_def)
    note cp = deep_copier.copied [OF dc w(2) w'] and al = extends_alloc [OF a']
    have ext: "extends s1 s2" using al by blast
    note kept = deep_copier.extended [OF dc cp(2) ext]
    have "deref s2 a' = Some (mk w')" using al by blast
    then have t: "target get s2 a' = Some w'" using assms(2) by (simp add: target_def)
    have "reach s2 w' \<subseteq> {stNext s..<stNext s2}" using kept(2) cp(3) al by auto
    moreover have "stNext s \<le> a'" "a' < stNext s2" using cp(1) al by (auto simp: extends_def)
    ultimately show ?thesis
      using r t kept(1) w(3) extends_trans [OF cp(1) ext] by (simp add: viewPtr_def reachPtr_def)
  qed
  then show "extends s s'" "viewPtr get view s' p' = Some x" "reachPtr get reach s' p' \<subseteq> {stNext s..<stNext s'}"
    by blast+
qed
text \<open>Lists, element by element.\<close>

definition viewList :: "('s \<Rightarrow> 'a \<Rightarrow> 'b option) \<Rightarrow> 's \<Rightarrow> 'a list \<Rightarrow> 'b list option" where
  "viewList view s vs = those (map (view s) vs)"

definition reachList :: "('s \<Rightarrow> 'a \<Rightarrow> nat set) \<Rightarrow> 's \<Rightarrow> 'a list \<Rightarrow> nat set" where
  "reachList reach s vs = \<Union> (reach s ` set vs)"

lemma view_reach_list_simps [simp]:
  "viewList view s [] = Some []"
  "viewList view s (v # vs) = (case view s v of None \<Rightarrow> None
     | Some x \<Rightarrow> map_option (Cons x) (viewList view s vs))"
  "reachList reach s [] = {}" "reachList reach s (v # vs) = reach s v \<union> reachList reach s vs"
  by (simp_all add: viewList_def reachList_def split: option.split)

lemma deepCopies_list:
  assumes "deepCopies copy view reach"
  shows "deepCopies (copyList copy) (viewList view) (reachList reach)"
proof -
  note dc = deep_copier.intro [OF assms]
  have alloc: "viewList view s vs = Some xs \<Longrightarrow> reachList reach s vs \<subseteq> {..<stNext s}" for s vs xs
    by (induction vs arbitrary: xs) (auto dest!: deep_copier.allocated [OF dc] split: option.splits)
  have frame: "viewList view s vs = Some xs \<Longrightarrow> agree (reachList reach s vs) s s' \<Longrightarrow>
      viewList view s' vs = Some xs \<and> reachList reach s' vs = reachList reach s vs" for s s' vs xs
  proof (induction vs arbitrary: xs)
    case (Cons v vs)
    then obtain y ys where v: "view s v = Some y" "viewList view s vs = Some ys" "xs = y # ys"
      by (auto split: option.splits)
    have "agree (reach s v) s s'" "agree (reachList reach s vs) s s'"
      using Cons.prems(2) by (auto intro: agree_subset)
    with Cons.IH [OF v(2)] deep_copier.frame [OF dc v(1)] v(3) show ?case by simp
  qed simp
  have copy: "viewList view s vs = Some xs \<Longrightarrow> copyList copy vs s = (vs', s') \<Longrightarrow>
      extends s s' \<and> viewList view s' vs' = Some xs \<and> reachList reach s' vs' \<subseteq> {stNext s..<stNext s'}"
    for s vs xs vs' s'
  proof (induction vs arbitrary: xs s vs' s')
    case Nil
    then show ?case by (simp add: extends_refl)
  next
    case (Cons v vs)
    from Cons.prems(1) obtain y ys where v: "view s v = Some y" "viewList view s vs = Some ys" "xs = y # ys"
      by (auto split: option.splits)
    obtain v' s1 where v': "copy v s = (v', s1)" by fastforce
    obtain ws s2 where ws: "copyList copy vs s1 = (ws, s2)" by fastforce
    have r: "vs' = v' # ws" "s' = s2" using Cons.prems(2) v' ws by auto
    note cp = deep_copier.copied [OF dc v(1) v']
    have "agree (reachList reach s vs) s s1"
      using alloc [OF v(2)] cp(1) by (auto simp: agree_def extends_def)
    with frame [OF v(2)] have "viewList view s1 vs = Some ys" by blast
    note rest = Cons.IH [OF this ws]
    note kept = deep_copier.extended [OF dc cp(2) conjunct1 [OF rest]]
    have "reach s2 v' \<subseteq> {stNext s..<stNext s2}"
      using kept(2) cp(3) rest by (auto simp: extends_def)
    moreover have "reachList reach s2 ws \<subseteq> {stNext s..<stNext s2}"
      using rest cp(1) by (auto simp: extends_def)
    ultimately show ?case
      using r kept(1) v(3) rest extends_trans [OF cp(1)] by simp
  qed
  show ?thesis
    by (rule deepCopiesI) (use alloc frame copy in blast)+
qed

text \<open>Slices: the array and the elements in the range of the slice.\<close>

definition viewSlice ::
  "(('m, 'l, 'e) cell \<Rightarrow> 'a list option) \<Rightarrow> (('m, 'l, 'e) store \<Rightarrow> 'a \<Rightarrow> 'b option) \<Rightarrow>
     ('m, 'l, 'e) store \<Rightarrow> slice option \<Rightarrow> 'b list option" where
  "viewSlice get view s sl =
     (case sl of None \<Rightarrow> Some []
      | Some sl \<Rightarrow> (case elements get s sl of None \<Rightarrow> None | Some vs \<Rightarrow> viewList view s vs))"

definition reachSlice ::
  "(('m, 'l, 'e) cell \<Rightarrow> 'a list option) \<Rightarrow> (('m, 'l, 'e) store \<Rightarrow> 'a \<Rightarrow> nat set) \<Rightarrow>
     ('m, 'l, 'e) store \<Rightarrow> slice option \<Rightarrow> nat set" where
  "reachSlice get reach s sl =
     (case sl of None \<Rightarrow> {}
      | Some sl \<Rightarrow> insert (slArray sl)
          (case elements get s sl of None \<Rightarrow> {} | Some vs \<Rightarrow> reachList reach s vs))"

lemma elements_target: "elements get s sl = Some vs \<Longrightarrow> \<exists>ws. target get s (slArray sl) = Some ws"
  by (auto simp: elements_def split: option.splits)

lemma elements_bound: "elements get s sl = Some vs \<Longrightarrow> slArray sl < stNext s"
  by (auto dest!: elements_target dest: target_bound)

lemma elements_agree:
  assumes "elements get s sl = Some vs" "agree A s s'" "slArray sl \<in> A"
  shows "elements get s' sl = Some vs"
proof -
  obtain ws where "target get s (slArray sl) = Some ws" using elements_target [OF assms(1)] by blast
  with target_agree [OF this assms(2,3)] assms(1) show ?thesis by (simp add: elements_def)
qed

lemma deepCopies_slice:
  assumes "deepCopies copy view reach" "\<And>v. get (mk v) = Some v"
  shows "deepCopies (copySlice mk get copy) (viewSlice get view) (reachSlice get reach)"
proof (rule deepCopiesI)
  note dc = deep_copier.intro [OF deepCopies_list [OF assms(1)]]
  fix s p x
  assume v: "viewSlice get view s p = Some x"
  show "reachSlice get reach s p \<subseteq> {..<stNext s}"
    using v by (auto simp: viewSlice_def reachSlice_def dest: elements_bound
        dest!: deep_copier.allocated [OF dc] split: option.splits)
  show "viewSlice get view s' p = Some x \<and> reachSlice get reach s' p = reachSlice get reach s p"
    if ag: "agree (reachSlice get reach s p) s s'" for s'
  proof (cases p)
    case (Some a)
    with v obtain ws where w: "elements get s a = Some ws" "viewList view s ws = Some x"
      by (auto simp: viewSlice_def split: option.splits)
    have "agree (reachList reach s ws) s s'" using ag w(1) Some by (auto simp: reachSlice_def intro: agree_subset)
    moreover have "elements get s' a = Some ws"
      using elements_agree [OF w(1) ag] Some by (simp add: reachSlice_def)
    ultimately show ?thesis
      using Some w deep_copier.frame [OF dc w(2)] by (simp add: viewSlice_def reachSlice_def)
  qed (use v in \<open>simp add: viewSlice_def reachSlice_def\<close>)
  fix p' s'
  assume c: "copySlice mk get copy p s = (p', s')"
  have "extends s s' \<and> viewSlice get view s' p' = Some x \<and> reachSlice get reach s' p' \<subseteq> {stNext s..<stNext s'}"
  proof (cases p)
    case None
    with v c show ?thesis by (auto simp: viewSlice_def copySlice_def reachSlice_def extends_refl)
  next
    case (Some a)
    with v obtain ws where w: "elements get s a = Some ws" "viewList view s ws = Some x"
      by (auto simp: viewSlice_def split: option.splits)
    obtain ws' s1 where w': "copyList copy ws s = (ws', s1)" by fastforce
    obtain a' s2 where a': "alloc (mk ws') s1 = (a', s2)" by fastforce
    let ?sl = "\<lparr>slArray = a', slOffset = 0, slLen = length ws'\<rparr>"
    have r: "p' = Some ?sl" "s' = s2" using c Some w(1) w' a' by (auto simp: copySlice_def)
    note cp = deep_copier.copied [OF dc w(2) w'] and al = extends_alloc [OF a']
    have ext: "extends s1 s2" using al by blast
    note kept = deep_copier.extended [OF dc cp(2) ext]
    have "deref s2 a' = Some (mk ws')" using al by blast
    then have t: "elements get s2 ?sl = Some ws'" using assms(2) by (simp add: elements_def target_def)
    have "reachList reach s2 ws' \<subseteq> {stNext s..<stNext s2}" using kept(2) cp(3) al by auto
    moreover have "stNext s \<le> a'" "a' < stNext s2" using cp(1) al by (auto simp: extends_def)
    ultimately show ?thesis
      using r t kept(1) w(2) extends_trans [OF cp(1) ext] by (simp add: viewSlice_def reachSlice_def)
  qed
  then show "extends s s'" "viewSlice get view s' p' = Some x"
    "reachSlice get reach s' p' \<subseteq> {stNext s..<stNext s'}" by blast+
qed

text \<open>Pairs, and structs as the tuple of the parts that need copying.\<close>

definition copyPair ::
  "('a \<Rightarrow> 's \<Rightarrow> 'a \<times> 's) \<Rightarrow> ('b \<Rightarrow> 's \<Rightarrow> 'b \<times> 's) \<Rightarrow> 'a \<times> 'b \<Rightarrow> 's \<Rightarrow> ('a \<times> 'b) \<times> 's" where
  "copyPair c1 c2 v s = (case c1 (fst v) s of (a, s1) \<Rightarrow> (case c2 (snd v) s1 of (b, s2) \<Rightarrow> ((a, b), s2)))"

definition viewPair :: "('s \<Rightarrow> 'a \<Rightarrow> 'c option) \<Rightarrow> ('s \<Rightarrow> 'b \<Rightarrow> 'd option) \<Rightarrow> 's \<Rightarrow> 'a \<times> 'b \<Rightarrow> ('c \<times> 'd) option" where
  "viewPair v1 v2 s v =
     (case v1 s (fst v) of None \<Rightarrow> None | Some x \<Rightarrow> map_option (Pair x) (v2 s (snd v)))"

definition reachPair :: "('s \<Rightarrow> 'a \<Rightarrow> nat set) \<Rightarrow> ('s \<Rightarrow> 'b \<Rightarrow> nat set) \<Rightarrow> 's \<Rightarrow> 'a \<times> 'b \<Rightarrow> nat set" where
  "reachPair r1 r2 s v = r1 s (fst v) \<union> r2 s (snd v)"

lemma deepCopies_pair:
  assumes "deepCopies c1 v1 r1" "deepCopies c2 v2 r2"
  shows "deepCopies (copyPair c1 c2) (viewPair v1 v2) (reachPair r1 r2)"
proof (rule deepCopiesI)
  note d1 = deep_copier.intro [OF assms(1)] and d2 = deep_copier.intro [OF assms(2)]
  fix s v x
  assume v: "viewPair v1 v2 s v = Some x"
  then obtain y z where x: "v1 s (fst v) = Some y" "v2 s (snd v) = Some z" "x = (y, z)"
    by (auto simp: viewPair_def split: option.splits)
  show "reachPair r1 r2 s v \<subseteq> {..<stNext s}"
    using deep_copier.allocated [OF d1 x(1)] deep_copier.allocated [OF d2 x(2)] by (simp add: reachPair_def)
  show "viewPair v1 v2 s' v = Some x \<and> reachPair r1 r2 s' v = reachPair r1 r2 s v"
    if ag: "agree (reachPair r1 r2 s v) s s'" for s'
  proof -
    have "agree (r1 s (fst v)) s s'" "agree (r2 s (snd v)) s s'"
      using ag by (auto simp: reachPair_def intro: agree_subset)
    with deep_copier.frame [OF d1 x(1)] deep_copier.frame [OF d2 x(2)] x(3) show ?thesis
      by (simp add: viewPair_def reachPair_def)
  qed
  fix v' s'
  assume c: "copyPair c1 c2 v s = (v', s')"
  obtain a s1 where a: "c1 (fst v) s = (a, s1)" by fastforce
  obtain b s2 where b: "c2 (snd v) s1 = (b, s2)" by fastforce
  have r: "v' = (a, b)" "s' = s2" using c a b by (auto simp: copyPair_def)
  note cp1 = deep_copier.copied [OF d1 x(1) a]
  note cp2 = deep_copier.copied [OF d2 deep_copier.extended(1) [OF d2 x(2) cp1(1)] b]
  note kept = deep_copier.extended [OF d1 cp1(2) cp2(1)]
  show "extends s s'" using r extends_trans [OF cp1(1) cp2(1)] by simp
  show "viewPair v1 v2 s' v' = Some x" using r kept(1) cp2(2) x(3) by (simp add: viewPair_def)
  have "r1 s2 a \<subseteq> {stNext s..<stNext s2}" using kept(2) cp1(3) cp2(1) by (auto simp: extends_def)
  moreover have "r2 s2 b \<subseteq> {stNext s..<stNext s2}" using cp2(3) cp1(1) by (auto simp: extends_def)
  ultimately show "reachPair r1 r2 s' v' \<subseteq> {stNext s..<stNext s'}" using r by (simp add: reachPair_def)
qed

text \<open>
  \<open>parts\<close> selects what has to be copied of a struct, \<open>put\<close> replaces it, and \<open>build\<close> makes the API
  value from the struct and the values of its parts.
\<close>

lemma deepCopies_struct:
  assumes "deepCopies c v r"
    and "\<And>x s. copy x s = (case c (parts x) s of (p, s') \<Rightarrow> (put p x, s'))"
    and "\<And>s x. view s x = map_option (build x) (v s (parts x))"
    and "\<And>s x. reach s x = r s (parts x)"
    and "\<And>p x. parts (put p x) = p" "\<And>p x y. build (put p x) y = build x y"
  shows "deepCopies copy view reach"
proof (rule deepCopiesI)
  note d = deep_copier.intro [OF assms(1)]
  fix s x y
  assume "view s x = Some y"
  then obtain z where z: "v s (parts x) = Some z" "y = build x z" by (auto simp: assms(3))
  show "reach s x \<subseteq> {..<stNext s}" using deep_copier.allocated [OF d z(1)] by (simp add: assms(4))
  show "view s' x = Some y \<and> reach s' x = reach s x" if "agree (reach s x) s s'" for s'
    using deep_copier.frame [OF d z(1), of s'] that z(2) by (simp add: assms(3,4))
  fix x' s'
  assume c: "copy x s = (x', s')"
  obtain p s1 where p: "c (parts x) s = (p, s1)" by fastforce
  have r: "x' = put p x" "s' = s1" using c p by (auto simp: assms(2))
  show "extends s s'" "view s' x' = Some y" "reach s' x' \<subseteq> {stNext s..<stNext s'}"
    using deep_copier.copied [OF d z(1) p] r z(2) by (simp_all add: assms(3-6))
qed

section \<open>The generated functions\<close>

definition HTTPBootConfigSpec_DeepCopyInto ::
  "go_http_spec \<Rightarrow> ('m, 'l, 'e) store \<Rightarrow> go_http_spec \<times> ('m, 'l, 'e) store" where
  "HTTPBootConfigSpec_DeepCopyInto inp s =
     (case copyPtr RefCell getRef copyValue (ghIgnitionSecretRef inp) s of (ref, s) \<Rightarrow>
      (case copySlice StringArray getStrings copyValue (ghNetworkIdentifiers inp) s of (ids, s) \<Rightarrow>
       (inp\<lparr>ghIgnitionSecretRef := ref, ghNetworkIdentifiers := ids\<rparr>, s)))"

definition IPXEBootConfigSpec_DeepCopyInto ::
  "go_ipxe_spec \<Rightarrow> ('m, 'l, 'e) store \<Rightarrow> go_ipxe_spec \<times> ('m, 'l, 'e) store" where
  "IPXEBootConfigSpec_DeepCopyInto inp s =
     (case copySlice StringArray getStrings copyValue (giSystemIPs inp) s of (ips, s) \<Rightarrow>
      (case copyPtr RefCell getRef copyValue (giIgnitionSecretRef inp) s of (ref, s) \<Rightarrow>
       (case copyPtr RefCell getRef copyValue (giIPXEScriptSecretRef inp) s of (script, s) \<Rightarrow>
        (inp\<lparr>giSystemIPs := ips, giIgnitionSecretRef := ref, giIPXEScriptSecretRef := script\<rparr>, s))))"

definition HTTPBootConfigStatus_DeepCopyInto ::
  "go_http_status \<Rightarrow> ('m, 'l, 'e) store \<Rightarrow> go_http_status \<times> ('m, 'l, 'e) store" where
  "HTTPBootConfigStatus_DeepCopyInto inp s =
     (case copySlice ConditionArray getConditions copyValue (ghConditions inp) s of (cs, s) \<Rightarrow>
      (inp\<lparr>ghConditions := cs\<rparr>, s))"

definition IPXEBootConfigStatus_DeepCopyInto ::
  "go_ipxe_status \<Rightarrow> ('m, 'l, 'e) store \<Rightarrow> go_ipxe_status \<times> ('m, 'l, 'e) store" where
  "IPXEBootConfigStatus_DeepCopyInto inp s =
     (case copySlice ConditionArray getConditions copyValue (giConditions inp) s of (cs, s) \<Rightarrow>
      (inp\<lparr>giConditions := cs\<rparr>, s))"

definition HTTPBootConfig_DeepCopyInto ::
  "('m \<Rightarrow> ('m, 'l, 'e) store \<Rightarrow> 'm \<times> ('m, 'l, 'e) store) \<Rightarrow> 'm go_http \<Rightarrow> ('m, 'l, 'e) store \<Rightarrow> 'm go_http \<times> ('m, 'l, 'e) store" where
  "HTTPBootConfig_DeepCopyInto metaCopy inp s =
     (case metaCopy (ghMeta inp) s of (meta, s) \<Rightarrow>
      (case HTTPBootConfigSpec_DeepCopyInto (ghSpec inp) s of (spec, s) \<Rightarrow>
       (case HTTPBootConfigStatus_DeepCopyInto (ghStatus inp) s of (status, s) \<Rightarrow>
        (inp\<lparr>ghMeta := meta, ghSpec := spec, ghStatus := status\<rparr>, s))))"

definition HTTPBootConfigList_DeepCopyInto ::
  "('m \<Rightarrow> ('m, 'l, 'e) store \<Rightarrow> 'm \<times> ('m, 'l, 'e) store) \<Rightarrow> ('l \<Rightarrow> ('m, 'l, 'e) store \<Rightarrow> 'l \<times> ('m, 'l, 'e) store) \<Rightarrow>
     'l go_list \<Rightarrow> ('m, 'l, 'e) store \<Rightarrow> 'l go_list \<times> ('m, 'l, 'e) store" where
  "HTTPBootConfigList_DeepCopyInto metaCopy listMetaCopy inp s =
     (case listMetaCopy (glMeta inp) s of (meta, s) \<Rightarrow>
      (case copySlice HTTPArray getHTTPs (HTTPBootConfig_DeepCopyInto metaCopy) (glItems inp) s of (items, s) \<Rightarrow>
       (inp\<lparr>glMeta := meta, glItems := items\<rparr>, s)))"

definition IPXEBootConfig_DeepCopyInto ::
  "('m \<Rightarrow> ('m, 'l, 'e) store \<Rightarrow> 'm \<times> ('m, 'l, 'e) store) \<Rightarrow> 'm go_ipxe \<Rightarrow> ('m, 'l, 'e) store \<Rightarrow> 'm go_ipxe \<times> ('m, 'l, 'e) store" where
  "IPXEBootConfig_DeepCopyInto metaCopy inp s =
     (case metaCopy (giMeta inp) s of (meta, s) \<Rightarrow>
      (case IPXEBootConfigSpec_DeepCopyInto (giSpec inp) s of (spec, s) \<Rightarrow>
       (case IPXEBootConfigStatus_DeepCopyInto (giStatus inp) s of (status, s) \<Rightarrow>
        (inp\<lparr>giMeta := meta, giSpec := spec, giStatus := status\<rparr>, s))))"

definition IPXEBootConfigList_DeepCopyInto ::
  "('m \<Rightarrow> ('m, 'l, 'e) store \<Rightarrow> 'm \<times> ('m, 'l, 'e) store) \<Rightarrow> ('l \<Rightarrow> ('m, 'l, 'e) store \<Rightarrow> 'l \<times> ('m, 'l, 'e) store) \<Rightarrow>
     'l go_list \<Rightarrow> ('m, 'l, 'e) store \<Rightarrow> 'l go_list \<times> ('m, 'l, 'e) store" where
  "IPXEBootConfigList_DeepCopyInto metaCopy listMetaCopy inp s =
     (case listMetaCopy (glMeta inp) s of (meta, s) \<Rightarrow>
      (case copySlice IPXEArray getIPXEs (IPXEBootConfig_DeepCopyInto metaCopy) (glItems inp) s of (items, s) \<Rightarrow>
       (inp\<lparr>glMeta := meta, glItems := items\<rparr>, s)))"

definition HTTPBootConfigSpec_DeepCopy ::
  "nat option \<Rightarrow> ('m, 'l, 'e) store \<Rightarrow> nat option \<times> ('m, 'l, 'e) store" where
  "HTTPBootConfigSpec_DeepCopy = copyPtr HTTPSpecCell getHTTPSpec HTTPBootConfigSpec_DeepCopyInto"

definition HTTPBootConfigStatus_DeepCopy ::
  "nat option \<Rightarrow> ('m, 'l, 'e) store \<Rightarrow> nat option \<times> ('m, 'l, 'e) store" where
  "HTTPBootConfigStatus_DeepCopy = copyPtr HTTPStatusCell getHTTPStatus HTTPBootConfigStatus_DeepCopyInto"

definition HTTPBootConfig_DeepCopy ::
  "('m \<Rightarrow> ('m, 'l, 'e) store \<Rightarrow> 'm \<times> ('m, 'l, 'e) store) \<Rightarrow> nat option \<Rightarrow> ('m, 'l, 'e) store \<Rightarrow> nat option \<times> ('m, 'l, 'e) store" where
  "HTTPBootConfig_DeepCopy metaCopy = copyPtr HTTPCell getHTTP (HTTPBootConfig_DeepCopyInto metaCopy)"

definition HTTPBootConfigList_DeepCopy ::
  "('m \<Rightarrow> ('m, 'l, 'e) store \<Rightarrow> 'm \<times> ('m, 'l, 'e) store) \<Rightarrow> ('l \<Rightarrow> ('m, 'l, 'e) store \<Rightarrow> 'l \<times> ('m, 'l, 'e) store) \<Rightarrow>
     nat option \<Rightarrow> ('m, 'l, 'e) store \<Rightarrow> nat option \<times> ('m, 'l, 'e) store" where
  "HTTPBootConfigList_DeepCopy metaCopy listMetaCopy =
     copyPtr HTTPListCell getHTTPList (HTTPBootConfigList_DeepCopyInto metaCopy listMetaCopy)"

definition IPXEBootConfigSpec_DeepCopy ::
  "nat option \<Rightarrow> ('m, 'l, 'e) store \<Rightarrow> nat option \<times> ('m, 'l, 'e) store" where
  "IPXEBootConfigSpec_DeepCopy = copyPtr IPXESpecCell getIPXESpec IPXEBootConfigSpec_DeepCopyInto"

definition IPXEBootConfigStatus_DeepCopy ::
  "nat option \<Rightarrow> ('m, 'l, 'e) store \<Rightarrow> nat option \<times> ('m, 'l, 'e) store" where
  "IPXEBootConfigStatus_DeepCopy = copyPtr IPXEStatusCell getIPXEStatus IPXEBootConfigStatus_DeepCopyInto"

definition IPXEBootConfig_DeepCopy ::
  "('m \<Rightarrow> ('m, 'l, 'e) store \<Rightarrow> 'm \<times> ('m, 'l, 'e) store) \<Rightarrow> nat option \<Rightarrow> ('m, 'l, 'e) store \<Rightarrow> nat option \<times> ('m, 'l, 'e) store" where
  "IPXEBootConfig_DeepCopy metaCopy = copyPtr IPXECell getIPXE (IPXEBootConfig_DeepCopyInto metaCopy)"

definition IPXEBootConfigList_DeepCopy ::
  "('m \<Rightarrow> ('m, 'l, 'e) store \<Rightarrow> 'm \<times> ('m, 'l, 'e) store) \<Rightarrow> ('l \<Rightarrow> ('m, 'l, 'e) store \<Rightarrow> 'l \<times> ('m, 'l, 'e) store) \<Rightarrow>
     nat option \<Rightarrow> ('m, 'l, 'e) store \<Rightarrow> nat option \<times> ('m, 'l, 'e) store" where
  "IPXEBootConfigList_DeepCopy metaCopy listMetaCopy =
     copyPtr IPXEListCell getIPXEList (IPXEBootConfigList_DeepCopyInto metaCopy listMetaCopy)"

text \<open>A \<open>runtime.Object\<close> that holds the pointer, or the nil interface.\<close>

definition HTTPBootConfig_DeepCopyObject ::
  "('m \<Rightarrow> ('m, 'l, 'e) store \<Rightarrow> 'm \<times> ('m, 'l, 'e) store) \<Rightarrow> nat option \<Rightarrow> ('m, 'l, 'e) store \<Rightarrow> nat option \<times> ('m, 'l, 'e) store" where
  "HTTPBootConfig_DeepCopyObject metaCopy inp s =
     (case HTTPBootConfig_DeepCopy metaCopy inp s of (Some c, s) \<Rightarrow> (Some c, s) | (None, s) \<Rightarrow> (None, s))"

definition HTTPBootConfigList_DeepCopyObject ::
  "('m \<Rightarrow> ('m, 'l, 'e) store \<Rightarrow> 'm \<times> ('m, 'l, 'e) store) \<Rightarrow> ('l \<Rightarrow> ('m, 'l, 'e) store \<Rightarrow> 'l \<times> ('m, 'l, 'e) store) \<Rightarrow>
     nat option \<Rightarrow> ('m, 'l, 'e) store \<Rightarrow> nat option \<times> ('m, 'l, 'e) store" where
  "HTTPBootConfigList_DeepCopyObject metaCopy listMetaCopy inp s =
     (case HTTPBootConfigList_DeepCopy metaCopy listMetaCopy inp s of (Some c, s) \<Rightarrow> (Some c, s)
      | (None, s) \<Rightarrow> (None, s))"

definition IPXEBootConfig_DeepCopyObject ::
  "('m \<Rightarrow> ('m, 'l, 'e) store \<Rightarrow> 'm \<times> ('m, 'l, 'e) store) \<Rightarrow> nat option \<Rightarrow> ('m, 'l, 'e) store \<Rightarrow> nat option \<times> ('m, 'l, 'e) store" where
  "IPXEBootConfig_DeepCopyObject metaCopy inp s =
     (case IPXEBootConfig_DeepCopy metaCopy inp s of (Some c, s) \<Rightarrow> (Some c, s) | (None, s) \<Rightarrow> (None, s))"

definition IPXEBootConfigList_DeepCopyObject ::
  "('m \<Rightarrow> ('m, 'l, 'e) store \<Rightarrow> 'm \<times> ('m, 'l, 'e) store) \<Rightarrow> ('l \<Rightarrow> ('m, 'l, 'e) store \<Rightarrow> 'l \<times> ('m, 'l, 'e) store) \<Rightarrow>
     nat option \<Rightarrow> ('m, 'l, 'e) store \<Rightarrow> nat option \<times> ('m, 'l, 'e) store" where
  "IPXEBootConfigList_DeepCopyObject metaCopy listMetaCopy inp s =
     (case IPXEBootConfigList_DeepCopy metaCopy listMetaCopy inp s of (Some c, s) \<Rightarrow> (Some c, s)
      | (None, s) \<Rightarrow> (None, s))"

section \<open>What the structs stand for\<close>

abbreviation "viewRef \<equiv> viewPtr getRef (\<lambda>_ v. Some v)"
abbreviation "reachRef \<equiv> reachPtr getRef (\<lambda>_ _. {})"
abbreviation "viewStrings \<equiv> viewSlice getStrings (\<lambda>_ v. Some v)"
abbreviation "reachStrings \<equiv> reachSlice getStrings (\<lambda>_ _. {})"
abbreviation "viewConditions \<equiv> viewSlice getConditions (\<lambda>_ v. Some v)"
abbreviation "reachConditions \<equiv> reachSlice getConditions (\<lambda>_ _. {})"

definition viewHTTPSpec ::
  "('m, 'l, 'e) store \<Rightarrow> go_http_spec \<Rightarrow> http_boot_config_spec option" where
  "viewHTTPSpec s v =
     map_option (\<lambda>(ref, ids). \<lparr>httpSystemUUID = ghSystemUUID v, httpIgnitionSecretRef = ref,
         httpNetworkIdentifiers = ids, httpUKIURL = ghUKIURL v\<rparr>)
       (viewPair viewRef viewStrings s (ghIgnitionSecretRef v, ghNetworkIdentifiers v))"

definition reachHTTPSpec ::
  "('m, 'l, 'e) store \<Rightarrow> go_http_spec \<Rightarrow> nat set" where
  "reachHTTPSpec s v =
     reachPair reachRef reachStrings s (ghIgnitionSecretRef v, ghNetworkIdentifiers v)"

definition viewIPXESpec ::
  "('m, 'l, 'e) store \<Rightarrow> go_ipxe_spec \<Rightarrow> ipxe_boot_config_spec option" where
  "viewIPXESpec s v =
     map_option (\<lambda>(ips, ref, script). \<lparr>ipxeSystemUUID = giSystemUUID v, ipxeSystemIPs = ips,
         ipxeImage = giImage v, ipxeKernelURL = giKernelURL v, ipxeInitrdURL = giInitrdURL v,
         ipxeSquashfsURL = giSquashfsURL v, ipxeIPXEServerURL = giIPXEServerURL v,
         ipxeIgnitionSecretRef = ref, ipxeIPXEScriptSecretRef = script\<rparr>)
       (viewPair viewStrings (viewPair viewRef viewRef) s
         (giSystemIPs v, giIgnitionSecretRef v, giIPXEScriptSecretRef v))"

definition reachIPXESpec ::
  "('m, 'l, 'e) store \<Rightarrow> go_ipxe_spec \<Rightarrow> nat set" where
  "reachIPXESpec s v =
     reachPair reachStrings (reachPair reachRef reachRef) s
       (giSystemIPs v, giIgnitionSecretRef v, giIPXEScriptSecretRef v)"

definition viewHTTPStatus ::
  "('m, 'l, 'e) store \<Rightarrow> go_http_status \<Rightarrow> http_boot_config_status option" where
  "viewHTTPStatus s v =
     map_option (\<lambda>cs. \<lparr>httpState = ghState v, httpConditions = cs\<rparr>) (viewConditions s (ghConditions v))"

definition reachHTTPStatus ::
  "('m, 'l, 'e) store \<Rightarrow> go_http_status \<Rightarrow> nat set" where
  "reachHTTPStatus s v = reachConditions s (ghConditions v)"

definition viewIPXEStatus ::
  "('m, 'l, 'e) store \<Rightarrow> go_ipxe_status \<Rightarrow> ipxe_boot_config_status option" where
  "viewIPXEStatus s v =
     map_option (\<lambda>cs. \<lparr>ipxeState = giState v, ipxeConditions = cs\<rparr>) (viewConditions s (giConditions v))"

definition reachIPXEStatus ::
  "('m, 'l, 'e) store \<Rightarrow> go_ipxe_status \<Rightarrow> nat set" where
  "reachIPXEStatus s v = reachConditions s (giConditions v)"

definition viewHTTP ::
  "(('m, 'l, 'e) store \<Rightarrow> 'm \<Rightarrow> object_meta option) \<Rightarrow> ('m, 'l, 'e) store \<Rightarrow> 'm go_http \<Rightarrow> http_boot_config option" where
  "viewHTTP viewMeta s v =
     map_option (\<lambda>(meta, spec, status). \<lparr>httpType = ghType v, httpMeta = meta, httpSpec = spec, httpStatus = status\<rparr>)
       (viewPair viewMeta (viewPair viewHTTPSpec viewHTTPStatus) s (ghMeta v, ghSpec v, ghStatus v))"

definition reachHTTP ::
  "(('m, 'l, 'e) store \<Rightarrow> 'm \<Rightarrow> nat set) \<Rightarrow> ('m, 'l, 'e) store \<Rightarrow> 'm go_http \<Rightarrow> nat set" where
  "reachHTTP reachMeta s v =
     reachPair reachMeta (reachPair reachHTTPSpec reachHTTPStatus) s (ghMeta v, ghSpec v, ghStatus v)"

definition viewHTTPList ::
  "(('m, 'l, 'e) store \<Rightarrow> 'm \<Rightarrow> object_meta option) \<Rightarrow> (('m, 'l, 'e) store \<Rightarrow> 'l \<Rightarrow> 'b option) \<Rightarrow>
     ('m, 'l, 'e) store \<Rightarrow> 'l go_list \<Rightarrow> (gvk \<times> 'b \<times> http_boot_config list) option" where
  "viewHTTPList viewMeta viewListMeta s v =
     map_option (\<lambda>(meta, items). (glType v, meta, items))
       (viewPair viewListMeta (viewSlice getHTTPs (viewHTTP viewMeta)) s (glMeta v, glItems v))"

definition reachHTTPList ::
  "(('m, 'l, 'e) store \<Rightarrow> 'm \<Rightarrow> nat set) \<Rightarrow> (('m, 'l, 'e) store \<Rightarrow> 'l \<Rightarrow> nat set) \<Rightarrow> ('m, 'l, 'e) store \<Rightarrow> 'l go_list \<Rightarrow> nat set" where
  "reachHTTPList reachMeta reachListMeta s v =
     reachPair reachListMeta (reachSlice getHTTPs (reachHTTP reachMeta)) s (glMeta v, glItems v)"

definition viewIPXE ::
  "(('m, 'l, 'e) store \<Rightarrow> 'm \<Rightarrow> object_meta option) \<Rightarrow> ('m, 'l, 'e) store \<Rightarrow> 'm go_ipxe \<Rightarrow> ipxe_boot_config option" where
  "viewIPXE viewMeta s v =
     map_option (\<lambda>(meta, spec, status). \<lparr>ipxeType = giType v, ipxeMeta = meta, ipxeSpec = spec, ipxeStatus = status\<rparr>)
       (viewPair viewMeta (viewPair viewIPXESpec viewIPXEStatus) s (giMeta v, giSpec v, giStatus v))"

definition reachIPXE ::
  "(('m, 'l, 'e) store \<Rightarrow> 'm \<Rightarrow> nat set) \<Rightarrow> ('m, 'l, 'e) store \<Rightarrow> 'm go_ipxe \<Rightarrow> nat set" where
  "reachIPXE reachMeta s v =
     reachPair reachMeta (reachPair reachIPXESpec reachIPXEStatus) s (giMeta v, giSpec v, giStatus v)"

definition viewIPXEList ::
  "(('m, 'l, 'e) store \<Rightarrow> 'm \<Rightarrow> object_meta option) \<Rightarrow> (('m, 'l, 'e) store \<Rightarrow> 'l \<Rightarrow> 'b option) \<Rightarrow>
     ('m, 'l, 'e) store \<Rightarrow> 'l go_list \<Rightarrow> (gvk \<times> 'b \<times> ipxe_boot_config list) option" where
  "viewIPXEList viewMeta viewListMeta s v =
     map_option (\<lambda>(meta, items). (glType v, meta, items))
       (viewPair viewListMeta (viewSlice getIPXEs (viewIPXE viewMeta)) s (glMeta v, glItems v))"

definition reachIPXEList ::
  "(('m, 'l, 'e) store \<Rightarrow> 'm \<Rightarrow> nat set) \<Rightarrow> (('m, 'l, 'e) store \<Rightarrow> 'l \<Rightarrow> nat set) \<Rightarrow> ('m, 'l, 'e) store \<Rightarrow> 'l go_list \<Rightarrow> nat set" where
  "reachIPXEList reachMeta reachListMeta s v =
     reachPair reachListMeta (reachSlice getIPXEs (reachIPXE reachMeta)) s (glMeta v, glItems v)"

section \<open>The generated functions copy deeply\<close>

lemmas deepCopies_parts = deepCopies_pair deepCopies_value deepCopies_ptr deepCopies_slice

lemma deepCopies_Some: "deepCopies copyValue (\<lambda>_ v. Some v) (\<lambda>_ _. {})"
  using deepCopies_value [of "\<lambda>v. v"] .

lemma deepCopies_ref: "deepCopies (copyPtr RefCell getRef copyValue) viewRef reachRef"
  by (rule deepCopies_ptr [OF deepCopies_Some]) simp

lemma deepCopies_strings: "deepCopies (copySlice StringArray getStrings copyValue) viewStrings reachStrings"
  by (rule deepCopies_slice [OF deepCopies_Some]) simp

lemma deepCopies_conditions:
  "deepCopies (copySlice ConditionArray getConditions copyValue) viewConditions reachConditions"
  by (rule deepCopies_slice [OF deepCopies_Some]) simp

lemma deepCopies_HTTPSpec: "deepCopies HTTPBootConfigSpec_DeepCopyInto viewHTTPSpec reachHTTPSpec"
  by (rule deepCopies_struct [OF deepCopies_pair [OF deepCopies_ref deepCopies_strings],
      where parts = "\<lambda>v. (ghIgnitionSecretRef v, ghNetworkIdentifiers v)"
        and put = "\<lambda>p v. v\<lparr>ghIgnitionSecretRef := fst p, ghNetworkIdentifiers := snd p\<rparr>"
        and build = "\<lambda>v (ref, ids). \<lparr>httpSystemUUID = ghSystemUUID v, httpIgnitionSecretRef = ref,
          httpNetworkIdentifiers = ids, httpUKIURL = ghUKIURL v\<rparr>"])
    (simp_all add: HTTPBootConfigSpec_DeepCopyInto_def viewHTTPSpec_def reachHTTPSpec_def copyPair_def
      split: prod.split)

lemma deepCopies_IPXESpec: "deepCopies IPXEBootConfigSpec_DeepCopyInto viewIPXESpec reachIPXESpec"
  by (rule deepCopies_struct [OF deepCopies_pair [OF deepCopies_strings deepCopies_pair [OF deepCopies_ref deepCopies_ref]],
      where parts = "\<lambda>v. (giSystemIPs v, giIgnitionSecretRef v, giIPXEScriptSecretRef v)"
        and put = "\<lambda>p v. v\<lparr>giSystemIPs := fst p, giIgnitionSecretRef := fst (snd p),
          giIPXEScriptSecretRef := snd (snd p)\<rparr>"
        and build = "\<lambda>v (ips, ref, script). \<lparr>ipxeSystemUUID = giSystemUUID v, ipxeSystemIPs = ips,
         ipxeImage = giImage v, ipxeKernelURL = giKernelURL v, ipxeInitrdURL = giInitrdURL v,
         ipxeSquashfsURL = giSquashfsURL v, ipxeIPXEServerURL = giIPXEServerURL v,
         ipxeIgnitionSecretRef = ref, ipxeIPXEScriptSecretRef = script\<rparr>"])
    (simp_all add: IPXEBootConfigSpec_DeepCopyInto_def viewIPXESpec_def reachIPXESpec_def copyPair_def
      split: prod.split)

lemma deepCopies_HTTPStatus: "deepCopies HTTPBootConfigStatus_DeepCopyInto viewHTTPStatus reachHTTPStatus"
  by (rule deepCopies_struct [OF deepCopies_conditions, where parts = ghConditions
        and put = "\<lambda>p v. v\<lparr>ghConditions := p\<rparr>"
        and build = "\<lambda>v cs. \<lparr>httpState = ghState v, httpConditions = cs\<rparr>"])
    (simp_all add: HTTPBootConfigStatus_DeepCopyInto_def viewHTTPStatus_def reachHTTPStatus_def)

lemma deepCopies_IPXEStatus: "deepCopies IPXEBootConfigStatus_DeepCopyInto viewIPXEStatus reachIPXEStatus"
  by (rule deepCopies_struct [OF deepCopies_conditions, where parts = giConditions
        and put = "\<lambda>p v. v\<lparr>giConditions := p\<rparr>"
        and build = "\<lambda>v cs. \<lparr>ipxeState = giState v, ipxeConditions = cs\<rparr>"])
    (simp_all add: IPXEBootConfigStatus_DeepCopyInto_def viewIPXEStatus_def reachIPXEStatus_def)

lemma deepCopies_HTTPInto:
  assumes "deepCopies metaCopy viewMeta reachMeta"
  shows "deepCopies (HTTPBootConfig_DeepCopyInto metaCopy) (viewHTTP viewMeta) (reachHTTP reachMeta)"
  by (rule deepCopies_struct
      [OF deepCopies_pair [OF assms deepCopies_pair [OF deepCopies_HTTPSpec deepCopies_HTTPStatus]],
      where parts = "\<lambda>v. (ghMeta v, ghSpec v, ghStatus v)"
        and put = "\<lambda>p v. v\<lparr>ghMeta := fst p, ghSpec := fst (snd p), ghStatus := snd (snd p)\<rparr>"
        and build = "\<lambda>v (meta, spec, status). \<lparr>httpType = ghType v, httpMeta = meta, httpSpec = spec,
          httpStatus = status\<rparr>"])
    (simp_all add: HTTPBootConfig_DeepCopyInto_def viewHTTP_def reachHTTP_def copyPair_def split: prod.split)

lemma deepCopies_HTTPListInto:
  assumes "deepCopies metaCopy viewMeta reachMeta" "deepCopies listMetaCopy viewListMeta reachListMeta"
  shows "deepCopies (HTTPBootConfigList_DeepCopyInto metaCopy listMetaCopy)
    (viewHTTPList viewMeta viewListMeta) (reachHTTPList reachMeta reachListMeta)"
  by (rule deepCopies_struct
      [OF deepCopies_pair [OF assms(2) deepCopies_slice [OF deepCopies_HTTPInto [OF assms(1)],
        where mk = HTTPArray and get = getHTTPs]],
      where parts = "\<lambda>v. (glMeta v, glItems v)"
        and put = "\<lambda>p v. v\<lparr>glMeta := fst p, glItems := snd p\<rparr>"
        and build = "\<lambda>v (meta, items). (glType v, meta, items)"])
    (simp_all add: HTTPBootConfigList_DeepCopyInto_def viewHTTPList_def reachHTTPList_def copyPair_def
      split: prod.split)

lemma deepCopies_IPXEInto:
  assumes "deepCopies metaCopy viewMeta reachMeta"
  shows "deepCopies (IPXEBootConfig_DeepCopyInto metaCopy) (viewIPXE viewMeta) (reachIPXE reachMeta)"
  by (rule deepCopies_struct
      [OF deepCopies_pair [OF assms deepCopies_pair [OF deepCopies_IPXESpec deepCopies_IPXEStatus]],
      where parts = "\<lambda>v. (giMeta v, giSpec v, giStatus v)"
        and put = "\<lambda>p v. v\<lparr>giMeta := fst p, giSpec := fst (snd p), giStatus := snd (snd p)\<rparr>"
        and build = "\<lambda>v (meta, spec, status). \<lparr>ipxeType = giType v, ipxeMeta = meta, ipxeSpec = spec,
          ipxeStatus = status\<rparr>"])
    (simp_all add: IPXEBootConfig_DeepCopyInto_def viewIPXE_def reachIPXE_def copyPair_def split: prod.split)

lemma deepCopies_IPXEListInto:
  assumes "deepCopies metaCopy viewMeta reachMeta" "deepCopies listMetaCopy viewListMeta reachListMeta"
  shows "deepCopies (IPXEBootConfigList_DeepCopyInto metaCopy listMetaCopy)
    (viewIPXEList viewMeta viewListMeta) (reachIPXEList reachMeta reachListMeta)"
  by (rule deepCopies_struct
      [OF deepCopies_pair [OF assms(2) deepCopies_slice [OF deepCopies_IPXEInto [OF assms(1)],
        where mk = IPXEArray and get = getIPXEs]],
      where parts = "\<lambda>v. (glMeta v, glItems v)"
        and put = "\<lambda>p v. v\<lparr>glMeta := fst p, glItems := snd p\<rparr>"
        and build = "\<lambda>v (meta, items). (glType v, meta, items)"])
    (simp_all add: IPXEBootConfigList_DeepCopyInto_def viewIPXEList_def reachIPXEList_def copyPair_def
      split: prod.split)

interpretation http_spec: deep_copier HTTPBootConfigSpec_DeepCopyInto viewHTTPSpec reachHTTPSpec
  by unfold_locales (rule deepCopies_HTTPSpec)

interpretation ipxe_spec: deep_copier IPXEBootConfigSpec_DeepCopyInto viewIPXESpec reachIPXESpec
  by unfold_locales (rule deepCopies_IPXESpec)

interpretation http_status_copy: deep_copier HTTPBootConfigStatus_DeepCopyInto viewHTTPStatus reachHTTPStatus
  by unfold_locales (rule deepCopies_HTTPStatus)

interpretation ipxe_status_copy: deep_copier IPXEBootConfigStatus_DeepCopyInto viewIPXEStatus reachIPXEStatus
  by unfold_locales (rule deepCopies_IPXEStatus)

text \<open>
  A copy is isolated from its original: both stand for the same value, they share no memory, and
  whatever is written to memory that one of them reaches, the other stands for what it did.
\<close>

definition isolates ::
  "('a \<Rightarrow> ('m, 'l, 'e) store \<Rightarrow> 'a \<times> ('m, 'l, 'e) store) \<Rightarrow> (('m, 'l, 'e) store \<Rightarrow> 'a \<Rightarrow> 'b option) \<Rightarrow>
     (('m, 'l, 'e) store \<Rightarrow> 'a \<Rightarrow> nat set) \<Rightarrow> bool" where
  "isolates copy view reach \<longleftrightarrow>
     (\<forall>s v x v' s'. view s v = Some x \<longrightarrow> copy v s = (v', s') \<longrightarrow>
        view s' v = Some x \<and> view s' v' = Some x \<and> reach s' v \<inter> reach s' v' = {} \<and>
        (\<forall>a c. (a \<in> reach s' v' \<longrightarrow> view (writeCell a c s') v = Some x) \<and>
               (a \<in> reach s' v \<longrightarrow> view (writeCell a c s') v' = Some x)))"

lemma deepCopies_isolates:
  assumes "deepCopies copy view reach"
  shows "isolates copy view reach"
proof -
  note dc = deep_copier.intro [OF assms]
  show ?thesis
    unfolding isolates_def
  proof (intro allI impI conjI)
    fix s v x v' s' a c
    assume v: "view s v = Some x" "copy v s = (v', s')"
    show "view s' v = Some x" "reach s' v \<inter> reach s' v' = {}"
      by (rule deep_copier.original_kept [OF dc v])+
    show "view s' v' = Some x" by (rule deep_copier.copied(2) [OF dc v])
    show "view (writeCell a c s') v = Some x" if "a \<in> reach s' v'"
      by (rule deep_copier.isolated(1) [OF dc v that])
    show "view (writeCell a c s') v' = Some x" if "a \<in> reach s' v"
      by (rule deep_copier.isolated(2) [OF dc v that])
  qed
qed

lemma DeepCopyObject_alt:
  "HTTPBootConfig_DeepCopyObject mc = HTTPBootConfig_DeepCopy mc"
  "IPXEBootConfig_DeepCopyObject mc = IPXEBootConfig_DeepCopy mc"
  "HTTPBootConfigList_DeepCopyObject mc lc = HTTPBootConfigList_DeepCopy mc lc"
  "IPXEBootConfigList_DeepCopyObject mc lc = IPXEBootConfigList_DeepCopy mc lc"
  by (auto simp: fun_eq_iff HTTPBootConfig_DeepCopyObject_def IPXEBootConfig_DeepCopyObject_def
      HTTPBootConfigList_DeepCopyObject_def IPXEBootConfigList_DeepCopyObject_def split: prod.split option.split)

lemma deepCopies_objects:
  assumes "deepCopies mc vm rm"
  shows "deepCopies (HTTPBootConfig_DeepCopy mc) (viewPtr getHTTP (viewHTTP vm)) (reachPtr getHTTP (reachHTTP rm))"
    and "deepCopies (IPXEBootConfig_DeepCopy mc) (viewPtr getIPXE (viewIPXE vm)) (reachPtr getIPXE (reachIPXE rm))"
  unfolding HTTPBootConfig_DeepCopy_def IPXEBootConfig_DeepCopy_def
  by (rule deepCopies_ptr [OF deepCopies_HTTPInto [OF assms]] deepCopies_ptr [OF deepCopies_IPXEInto [OF assms]],
      simp)+

lemma deepCopies_lists:
  assumes "deepCopies mc vm rm" "deepCopies lc vl rl"
  shows "deepCopies (HTTPBootConfigList_DeepCopy mc lc)
      (viewPtr getHTTPList (viewHTTPList vm vl)) (reachPtr getHTTPList (reachHTTPList rm rl))"
    and "deepCopies (IPXEBootConfigList_DeepCopy mc lc)
      (viewPtr getIPXEList (viewIPXEList vm vl)) (reachPtr getIPXEList (reachIPXEList rm rl))"
  unfolding HTTPBootConfigList_DeepCopy_def IPXEBootConfigList_DeepCopy_def
  by (rule deepCopies_ptr [OF deepCopies_HTTPListInto [OF assms]]
      deepCopies_ptr [OF deepCopies_IPXEListInto [OF assms]], simp)+

lemma deepCopies_components:
  "deepCopies HTTPBootConfigSpec_DeepCopy (viewPtr getHTTPSpec viewHTTPSpec) (reachPtr getHTTPSpec reachHTTPSpec)"
  "deepCopies IPXEBootConfigSpec_DeepCopy (viewPtr getIPXESpec viewIPXESpec) (reachPtr getIPXESpec reachIPXESpec)"
  "deepCopies HTTPBootConfigStatus_DeepCopy (viewPtr getHTTPStatus viewHTTPStatus) (reachPtr getHTTPStatus reachHTTPStatus)"
  "deepCopies IPXEBootConfigStatus_DeepCopy (viewPtr getIPXEStatus viewIPXEStatus) (reachPtr getIPXEStatus reachIPXEStatus)"
  unfolding HTTPBootConfigSpec_DeepCopy_def IPXEBootConfigSpec_DeepCopy_def
    HTTPBootConfigStatus_DeepCopy_def IPXEBootConfigStatus_DeepCopy_def
  by (rule deepCopies_ptr [OF deepCopies_HTTPSpec] deepCopies_ptr [OF deepCopies_IPXESpec]
      deepCopies_ptr [OF deepCopies_HTTPStatus] deepCopies_ptr [OF deepCopies_IPXEStatus], simp)+

section \<open>Properties\<close>

text \<open>C39: Given that apimachinery's copies of \<open>ObjectMeta\<close> and \<open>ListMeta\<close> are deep, so are the copies
  of both boot resources and of their lists, specifications and statuses: the copy and the
  original stand for the same API object and share no memory, and a write through either leaves
  the other as it was. Copies of objects are therefore the objects themselves, as the other
  theories have it, and the base of a status patch keeps the old state while the object is
  changed in place.\<close>

theorem deepCopy_isolates:
  assumes "deepCopies mc vm rm" "deepCopies lc vl rl"
  shows "isolates (HTTPBootConfig_DeepCopyObject mc)
      (viewPtr getHTTP (viewHTTP vm)) (reachPtr getHTTP (reachHTTP rm)) \<and>
    isolates (IPXEBootConfig_DeepCopyObject mc)
      (viewPtr getIPXE (viewIPXE vm)) (reachPtr getIPXE (reachIPXE rm)) \<and>
    isolates (HTTPBootConfigList_DeepCopyObject mc lc)
      (viewPtr getHTTPList (viewHTTPList vm vl)) (reachPtr getHTTPList (reachHTTPList rm rl)) \<and>
    isolates (IPXEBootConfigList_DeepCopyObject mc lc)
      (viewPtr getIPXEList (viewIPXEList vm vl)) (reachPtr getIPXEList (reachIPXEList rm rl)) \<and>
    isolates HTTPBootConfigSpec_DeepCopy
      (viewPtr getHTTPSpec viewHTTPSpec) (reachPtr getHTTPSpec reachHTTPSpec) \<and>
    isolates IPXEBootConfigSpec_DeepCopy
      (viewPtr getIPXESpec viewIPXESpec) (reachPtr getIPXESpec reachIPXESpec) \<and>
    isolates HTTPBootConfigStatus_DeepCopy
      (viewPtr getHTTPStatus viewHTTPStatus) (reachPtr getHTTPStatus reachHTTPStatus) \<and>
    isolates IPXEBootConfigStatus_DeepCopy
      (viewPtr getIPXEStatus viewIPXEStatus) (reachPtr getIPXEStatus reachIPXEStatus)"
  unfolding DeepCopyObject_alt
  by (intro conjI deepCopies_isolates deepCopies_objects deepCopies_lists deepCopies_components assms)

text \<open>An \<open>HTTPBootConfig\<close> at address 2, whose slice is a part of an array of three addresses.\<close>

definition sampleStore :: "(object_meta, unit, unit) store" where
  "sampleStore =
    \<lparr>stCells = [0 \<mapsto> RefCell ''ignition'', 1 \<mapsto> StringArray [''10.0.0.1'', ''10.0.0.2'', ''10.0.0.3''],
       2 \<mapsto> HTTPCell \<lparr>ghType = emptyGVK, ghMeta = newMeta ''ns'' ''boot'',
         ghSpec = \<lparr>ghSystemUUID = ''uuid'', ghIgnitionSecretRef = Some 0,
           ghNetworkIdentifiers = Some \<lparr>slArray = 1, slOffset = 1, slLen = 2\<rparr>, ghUKIURL = []\<rparr>,
         ghStatus = \<lparr>ghState = ''Ready'', ghConditions = None\<rparr>\<rparr>],
     stNext = 3\<rparr>"

lemmas sample_copy = HTTPBootConfig_DeepCopyObject_def HTTPBootConfig_DeepCopy_def
  HTTPBootConfig_DeepCopyInto_def HTTPBootConfigSpec_DeepCopyInto_def HTTPBootConfigStatus_DeepCopyInto_def
  copyPtr_def copySlice_def copyValue_def alloc_def target_def deref_def elements_def sampleStore_def

lemma sample_copied:
  "\<exists>s'. HTTPBootConfig_DeepCopyObject copyValue (Some 2) sampleStore = (Some 5, s') \<and>
     4 \<in> reachPtr getHTTP (reachHTTP (\<lambda>_ _. {})) s' (Some 5)"
  by (simp add: sample_copy reachPtr_def reachHTTP_def reachPair_def reachHTTPSpec_def reachSlice_def)

lemma sample_view:
  "viewPtr getHTTP (viewHTTP (\<lambda>_ m. Some m)) sampleStore (Some 2) =
     Some (Some \<lparr>httpType = emptyGVK, httpMeta = newMeta ''ns'' ''boot'',
       httpSpec = \<lparr>httpSystemUUID = ''uuid'', httpIgnitionSecretRef = Some ''ignition'',
         httpNetworkIdentifiers = [''10.0.0.2'', ''10.0.0.3''], httpUKIURL = []\<rparr>,
       httpStatus = \<lparr>httpState = ''Ready'', httpConditions = []\<rparr>\<rparr>)"
  by (simp add: sample_copy viewPtr_def viewHTTP_def viewPair_def viewHTTPSpec_def viewHTTPStatus_def
      viewSlice_def)

lemma deepCopy_isolates_witness:
  "case HTTPBootConfig_DeepCopyObject copyValue (Some 2) sampleStore of (q, s') \<Rightarrow>
     q = Some 5 \<and>
     (\<forall>c. viewPtr getHTTP (viewHTTP (\<lambda>_ m. Some m)) (writeCell 4 c s') (Some 2) =
        Some (Some \<lparr>httpType = emptyGVK, httpMeta = newMeta ''ns'' ''boot'',
          httpSpec = \<lparr>httpSystemUUID = ''uuid'', httpIgnitionSecretRef = Some ''ignition'',
            httpNetworkIdentifiers = [''10.0.0.2'', ''10.0.0.3''], httpUKIURL = []\<rparr>,
          httpStatus = \<lparr>httpState = ''Ready'', httpConditions = []\<rparr>\<rparr>))"
proof -
  let ?view = "viewPtr getHTTP (viewHTTP (\<lambda>_ m. Some m)) :: (object_meta, unit, unit) store \<Rightarrow> _"
  let ?reach = "reachPtr getHTTP (reachHTTP (\<lambda>_ _. {})) :: (object_meta, unit, unit) store \<Rightarrow> _"
  have iso: "isolates (HTTPBootConfig_DeepCopyObject copyValue) ?view ?reach"
    by (rule conjunct1 [OF deepCopy_isolates [OF deepCopies_Some deepCopies_Some]])
  obtain s' where c: "HTTPBootConfig_DeepCopyObject copyValue (Some 2) sampleStore = (Some 5, s')"
    "4 \<in> ?reach s' (Some 5)"
    using sample_copied by blast
  have "?view (writeCell 4 c s') (Some 2) = ?view sampleStore (Some 2)" for c
    using iso [unfolded isolates_def, THEN spec, THEN spec, THEN spec, THEN spec, THEN spec, THEN mp,
        OF sample_view, THEN mp, OF c(1)] c(2) sample_view by simp
  then show ?thesis using c(1) sample_view by simp
qed

end
