(* ===== verification/Flags.thy ===== *)
theory Flags
  imports Startup
begin

text \<open>
  The command line of the operator: the flags that \<^verbatim>\<open>cmd/main.go\<close> declares, and how the
  package \<open>flag\<close> of Go's library parses the arguments into them.
\<close>

section \<open>Values\<close>

text \<open>\<open>strconv.ParseBool\<close>.\<close>

definition parseBool :: "string \<Rightarrow> bool option" where
  "parseBool s =
     (if s \<in> {''1'', ''t'', ''T'', ''true'', ''TRUE'', ''True''} then Some True
      else if s \<in> {''0'', ''f'', ''F'', ''false'', ''FALSE'', ''False''} then Some False
      else None)"

text \<open>
  \<open>strconv.ParseInt(s, 0, 64)\<close>: an optional sign, an optional prefix that tells the base, digits,
  and underscores between digits or after the prefix.
\<close>

definition digitValue :: "char \<Rightarrow> nat option" where
  "digitValue c =
     (let n = of_char (toLowerChar c) :: nat in
      if 48 \<le> n \<and> n \<le> 57 then Some (n - 48)
      else if 97 \<le> n \<and> n \<le> 122 then Some (n - 87)
      else None)"

fun parseDigits :: "nat \<Rightarrow> nat \<Rightarrow> string \<Rightarrow> nat option" where
  "parseDigits base n [] = Some n"
| "parseDigits base n (c # cs) =
     (if c = CHR ''_'' then parseDigits base n cs
      else case digitValue c of
          None \<Rightarrow> None
        | Some d \<Rightarrow> if d < base then parseDigits base (n * base + d) cs else None)"

text \<open>The base and the digits of a number without its sign.\<close>

definition splitBase :: "string \<Rightarrow> nat \<times> string" where
  "splitBase s =
     (if s \<noteq> [] \<and> hd s = CHR ''0'' then
        (if 3 \<le> length s \<and> toLowerChar (s ! 1) = CHR ''b'' then (2, drop 2 s)
         else if 3 \<le> length s \<and> toLowerChar (s ! 1) = CHR ''o'' then (8, drop 2 s)
         else if 3 \<le> length s \<and> toLowerChar (s ! 1) = CHR ''x'' then (16, drop 2 s)
         else (8, drop 1 s))
      else (10, s))"

text \<open>\<open>saw\<close> is the last thing seen: \<open>^\<close> nothing, \<open>0\<close> a digit, \<open>_\<close> an underscore, \<open>!\<close> something else.\<close>

fun underscoresFrom :: "bool \<Rightarrow> char \<Rightarrow> string \<Rightarrow> bool" where
  "underscoresFrom hex saw [] = (saw \<noteq> CHR ''_'')"
| "underscoresFrom hex saw (c # cs) =
     (if (case digitValue c of Some d \<Rightarrow> d < 10 \<or> (hex \<and> d < 16) | None \<Rightarrow> False)
      then underscoresFrom hex (CHR ''0'') cs
      else if c = CHR ''_'' then saw = CHR ''0'' \<and> underscoresFrom hex (CHR ''_'') cs
      else saw \<noteq> CHR ''_'' \<and> underscoresFrom hex (CHR ''!'') cs)"

definition underscoreOK :: "string \<Rightarrow> bool" where
  "underscoreOK s =
     (if 2 \<le> length s \<and> hd s = CHR ''0'' \<and> toLowerChar (s ! 1) \<in> {CHR ''b'', CHR ''o'', CHR ''x''}
      then underscoresFrom (toLowerChar (s ! 1) = CHR ''x'') (CHR ''0'') (drop 2 s)
      else underscoresFrom False (CHR ''^'') s)"

definition parseUint :: "string \<Rightarrow> nat option" where
  "parseUint s =
     (if s = [] then None
      else case splitBase s of (base, digits) \<Rightarrow>
        (case parseDigits base 0 digits of
           None \<Rightarrow> None
         | Some n \<Rightarrow> if CHR ''_'' \<in> set digits \<and> \<not> underscoreOK s then None else Some n))"

definition parseInt :: "string \<Rightarrow> int option" where
  "parseInt s =
     (let neg = (s \<noteq> [] \<and> hd s = CHR ''-'');
          digits = (if s \<noteq> [] \<and> hd s \<in> {CHR ''-'', CHR ''+''} then drop 1 s else s) in
      case parseUint digits of
        None \<Rightarrow> None
      | Some n \<Rightarrow>
          if neg then (if n \<le> 2 ^ 63 then Some (- int n) else None)
          else (if n < 2 ^ 63 then Some (int n) else None))"

section \<open>The flags of main\<close>

datatype flag_var =
    StringVar "string \<Rightarrow> flags \<Rightarrow> flags"
  | IntVar "int \<Rightarrow> flags \<Rightarrow> flags"
  | BoolVar "bool \<Rightarrow> flags \<Rightarrow> flags"

definition flagVars :: "(string \<times> flag_var) list" where
  "flagVars =
    [(''architecture'', StringVar (\<lambda>v f. f\<lparr>flArchitecture := v\<rparr>)),
     (''ipxe-service-port'', IntVar (\<lambda>v f. f\<lparr>flIPXEServicePort := v\<rparr>)),
     (''ipxe-service-protocol'', StringVar (\<lambda>v f. f\<lparr>flIPXEServiceProtocol := v\<rparr>)),
     (''ipxe-service-url'', StringVar (\<lambda>v f. f\<lparr>flIPXEServiceURL := v\<rparr>)),
     (''image-server-url'', StringVar (\<lambda>v f. f\<lparr>flImageServerURL := v\<rparr>)),
     (''default-httpboot-oci-image'', StringVar (\<lambda>v f. f\<lparr>flDefaultHTTPBootOCIImage := v\<rparr>)),
     (''default-httpboot-uki-url'', StringVar (\<lambda>v f. f\<lparr>flDefaultHTTPBootUKIURL := v\<rparr>)),
     (''metrics-bind-address'', StringVar (\<lambda>v f. f\<lparr>flMetricsAddr := v\<rparr>)),
     (''health-probe-bind-address'', StringVar (\<lambda>v f. f\<lparr>flProbeAddr := v\<rparr>)),
     (''boot-server-address'', StringVar (\<lambda>v f. f\<lparr>flBootserverAddr := v\<rparr>)),
     (''image-proxy-server-address'', StringVar (\<lambda>v f. f\<lparr>flImageProxyServerAddr := v\<rparr>)),
     (''leader-elect'', BoolVar (\<lambda>v f. f\<lparr>flEnableLeaderElection := v\<rparr>)),
     (''metrics-cert-path'', StringVar (\<lambda>v f. f\<lparr>flMetricsCertPath := v\<rparr>)),
     (''metrics-cert-name'', StringVar (\<lambda>v f. f\<lparr>flMetricsCertName := v\<rparr>)),
     (''metrics-cert-key'', StringVar (\<lambda>v f. f\<lparr>flMetricsCertKey := v\<rparr>)),
     (''metrics-secure'', BoolVar (\<lambda>v f. f\<lparr>flSecureMetrics := v\<rparr>)),
     (''enable-http2'', BoolVar (\<lambda>v f. f\<lparr>flEnableHTTP2 := v\<rparr>)),
     (''allowed-registries'', StringVar (\<lambda>v f. f\<lparr>flAllowedRegistries := v\<rparr>))]"

text \<open>
  The flags that other packages bind to the same command line, of the logger, of
  controller-runtime and \<open>--controllers\<close>, are parameters: which of them are boolean, and what setting one does.
\<close>

record 'o other_flags =
  of_isBool :: "string \<Rightarrow> bool option"
  of_set :: "string \<Rightarrow> string \<Rightarrow> 'o \<Rightarrow> 'o option"

definition isBoolFlag :: "'o other_flags \<Rightarrow> string \<Rightarrow> bool option" where
  "isBoolFlag F name =
     (case map_of flagVars name of
        Some (BoolVar _) \<Rightarrow> Some True
      | Some _ \<Rightarrow> Some False
      | None \<Rightarrow> of_isBool F name)"

fun setVar :: "flag_var \<Rightarrow> string \<Rightarrow> flags \<Rightarrow> flags option" where
  "setVar (StringVar put) value f = Some (put value f)"
| "setVar (IntVar put) value f = map_option (\<lambda>v. put v f) (parseInt value)"
| "setVar (BoolVar put) value f = map_option (\<lambda>v. put v f) (parseBool value)"

definition setFlag :: "'o other_flags \<Rightarrow> string \<Rightarrow> string \<Rightarrow> flags \<times> 'o \<Rightarrow> (flags \<times> 'o) option" where
  "setFlag F name value = (\<lambda>(f, other).
     (case map_of flagVars name of
        Some var \<Rightarrow> map_option (\<lambda>f'. (f', other)) (setVar var value f)
      | None \<Rightarrow> map_option (\<lambda>other'. (f, other')) (of_set F name value other)))"

section \<open>flag.Parse\<close>

datatype flag_error =
    HelpRequested
  | BadFlagSyntax string
  | FlagNotDefined string
  | FlagNeedsArgument string
  | InvalidFlagValue string string

text \<open>What an argument is: a flag with its value, if it has one, or the end of the flags.\<close>

datatype argument =
    FlagArg string "string option"
  | FlagsEnd
  | Positional
  | BadArg

definition readArg :: "string \<Rightarrow> argument" where
  "readArg s =
     (if length s < 2 \<or> hd s \<noteq> CHR ''-'' then Positional
      else if s = ''--'' then FlagsEnd
      else let name = (if hasPrefix s ''--'' then drop 2 s else drop 1 s) in
        if name = [] \<or> hd name \<in> {CHR ''-'', CHR ''=''} then BadArg
        else case cut name (CHR ''='') of (name, value, hasValue) \<Rightarrow>
          FlagArg name (if hasValue then Some value else None))"

text \<open>The values of the flags and the arguments that are left, or the error that ends the process.\<close>

fun parseArgs ::
  "'o other_flags \<Rightarrow> string list \<Rightarrow> flags \<times> 'o \<Rightarrow> flag_error + ((flags \<times> 'o) \<times> string list)" where
  "parseArgs F [] st = Inr (st, [])"
| "parseArgs F (s # args) st =
     (case readArg s of
        Positional \<Rightarrow> Inr (st, s # args)
      | FlagsEnd \<Rightarrow> Inr (st, args)
      | BadArg \<Rightarrow> Inl (BadFlagSyntax s)
      | FlagArg name given \<Rightarrow>
          (case (isBoolFlag F name, given, args) of
             (None, _, _) \<Rightarrow> Inl (if name \<in> {''help'', ''h''} then HelpRequested else FlagNotDefined name)
           | (Some _, Some value, _) \<Rightarrow>
               (case setFlag F name value st of
                  None \<Rightarrow> Inl (InvalidFlagValue name value) | Some st' \<Rightarrow> parseArgs F args st')
           | (Some True, None, _) \<Rightarrow>
               (case setFlag F name ''true'' st of
                  None \<Rightarrow> Inl (InvalidFlagValue name ''true'') | Some st' \<Rightarrow> parseArgs F args st')
           | (Some False, None, []) \<Rightarrow> Inl (FlagNeedsArgument name)
           | (Some False, None, value # args') \<Rightarrow>
               (case setFlag F name value st of
                  None \<Rightarrow> Inl (InvalidFlagValue name value) | Some st' \<Rightarrow> parseArgs F args' st')))"

text \<open>
  The process: flags that do not parse end it with the status 2, a request for help with 0; the
  arguments that are left are not looked at.
\<close>

datatype process_result = Exited int | Ran "startup_step list" main_result

definition operatorMain ::
  "fate \<Rightarrow> 'o other_flags \<Rightarrow> ('o \<Rightarrow> string \<Rightarrow> bool) \<Rightarrow> string \<Rightarrow> 'o \<Rightarrow> string list \<Rightarrow>
     process_result" where
  "operatorMain R F enabled addr other args =
     (case parseArgs F args (defaultFlags, other) of
        Inl err \<Rightarrow> Exited (if err = HelpRequested then 0 else 2)
      | Inr ((f, other'), _) \<Rightarrow>
          (case main R (enabled other') addr f of (steps, res) \<Rightarrow> Ran steps res))"

section \<open>Numbers that are printed and parsed\<close>

lemma digitValue_digitChar: "d < 10 \<Longrightarrow> digitValue (digitChar d) = Some d"
  by (simp add: digitValue_def digitChar_def toLowerChar_def of_char_char_of_nat Let_def)

lemma digitChar_code: "d < 10 \<Longrightarrow> (of_char (digitChar d) :: nat) = d + 48"
  by (simp add: digitChar_def of_char_char_of_nat)

lemma digitChar_zero: "digitChar 0 = CHR ''0''"
  by code_simp

lemma digitChar_not: "d < 10 \<Longrightarrow> c \<in> {CHR ''_'', CHR ''-'', CHR ''+'', CHR ''b'', CHR ''o'', CHR ''x''} \<Longrightarrow> digitChar d \<noteq> c"
  using digitChar_code [of d] by auto

lemma digitChar_0:
  assumes "d < 10"
  shows "digitChar d = CHR ''0'' \<longleftrightarrow> d = 0"
proof
  show "d = 0" if "digitChar d = CHR ''0''" using digitChar_code [OF assms] that by simp
  show "digitChar d = CHR ''0''" if "d = 0" using that by (simp add: digitChar_zero)
qed

lemma set_itoa: "c \<in> set (itoa n) \<Longrightarrow> \<exists>d < 10. c = digitChar d"
proof (induction n rule: itoa.induct)
  case (1 n)
  show ?case
  proof (cases "n < 10")
    case True
    with 1(2) have "c = digitChar n" by (subst (asm) itoa.simps) simp
    with True show ?thesis by blast
  next
    case False
    with 1(2) have "c \<in> set (itoa (n div 10)) \<or> c = digitChar (n mod 10)" by (subst (asm) itoa.simps) auto
    with 1(1) [OF False] show ?thesis by (auto intro: exI [of _ "n mod 10"])
  qed
qed

lemma hd_itoa: "0 < n \<Longrightarrow> hd (itoa n) \<noteq> CHR ''0''"
proof (induction n rule: itoa.induct)
  case (1 n)
  then show ?case by (subst itoa.simps) (auto simp: digitChar_0)
qed

lemma parseDigits_append:
  "parseDigits b n (s @ t) = (case parseDigits b n s of None \<Rightarrow> None | Some m \<Rightarrow> parseDigits b m t)"
  by (induction b n s rule: parseDigits.induct) (auto split: option.split)

lemma parseDigits_itoa: "parseDigits 10 0 (itoa n) = Some n"
proof (induction n rule: itoa.induct)
  case (1 n)
  have one: "parseDigits 10 m [digitChar d] = Some (m * 10 + d)" if "d < 10" for m d
    using that digitChar_not [OF that] by (simp add: digitValue_digitChar)
  show ?case
    by (subst itoa.simps) (use 1 one in \<open>simp add: parseDigits_append del: parseDigits.simps(2)\<close>)
qed

lemma parseUint_itoa: "parseUint (itoa n) = Some n"
proof (cases "n = 0")
  case True
  have "itoa 0 = ''0''" by (subst itoa.simps) (simp add: digitChar_zero)
  with True show ?thesis by (simp add: parseUint_def splitBase_def)
next
  case False
  then have "splitBase (itoa n) = (10, itoa n)" using hd_itoa [of n] by (simp add: splitBase_def)
  moreover have "CHR ''_'' \<notin> set (itoa n)" using set_itoa [of "CHR ''_''" n] digitChar_not [of _ "CHR ''_''"] by fastforce
  ultimately show ?thesis by (simp add: parseUint_def parseDigits_itoa)
qed

lemma parseInt_itoaInt:
  assumes "- (2 ^ 63) \<le> i" "i < 2 ^ 63"
  shows "parseInt (itoaInt i) = Some i"
proof (cases "i < 0")
  case True
  then have "nat (- i) \<le> 2 ^ 63" using assms(1) by (simp add: nat_le_iff)
  with True show ?thesis unfolding parseInt_def itoaInt_def by (simp add: parseUint_itoa)
next
  case False
  have "hd (itoa (nat i)) \<in> set (itoa (nat i))" by simp
  then obtain d where "d < 10" "hd (itoa (nat i)) = digitChar d" using set_itoa by blast
  then have "hd (itoa (nat i)) \<noteq> CHR ''-''" "hd (itoa (nat i)) \<noteq> CHR ''+''" using digitChar_not by simp_all
  moreover have "nat i < 2 ^ 63" using False assms(2) by (simp add: nat_less_iff)
  ultimately show ?thesis using False unfolding parseInt_def itoaInt_def by (simp add: parseUint_itoa)
qed

section \<open>Parsing flags\<close>

text \<open>A flag with a value in the form \<open>--name=value\<close>.\<close>

definition flagArg :: "string \<Rightarrow> string \<Rightarrow> string" where
  "flagArg name value = ''--'' @ name @ CHR ''='' # value"

definition flagName :: "string \<Rightarrow> bool" where
  "flagName name \<longleftrightarrow> name \<noteq> [] \<and> hd name \<noteq> CHR ''-'' \<and> CHR ''='' \<notin> set name"

definition printBool :: "bool \<Rightarrow> string" where
  "printBool b = (if b then ''true'' else ''false'')"

lemma parseBool_print [simp]: "parseBool (printBool b) = Some b"
  by (simp add: parseBool_def printBool_def)

text \<open>A command line that sets every flag.\<close>

definition flagArgs :: "flags \<Rightarrow> string list" where
  "flagArgs f =
    [flagArg ''architecture'' (flArchitecture f),
     flagArg ''ipxe-service-port'' (itoaInt (flIPXEServicePort f)),
     flagArg ''ipxe-service-protocol'' (flIPXEServiceProtocol f),
     flagArg ''ipxe-service-url'' (flIPXEServiceURL f),
     flagArg ''image-server-url'' (flImageServerURL f),
     flagArg ''default-httpboot-oci-image'' (flDefaultHTTPBootOCIImage f),
     flagArg ''default-httpboot-uki-url'' (flDefaultHTTPBootUKIURL f),
     flagArg ''metrics-bind-address'' (flMetricsAddr f),
     flagArg ''health-probe-bind-address'' (flProbeAddr f),
     flagArg ''boot-server-address'' (flBootserverAddr f),
     flagArg ''image-proxy-server-address'' (flImageProxyServerAddr f),
     flagArg ''leader-elect'' (printBool (flEnableLeaderElection f)),
     flagArg ''metrics-cert-path'' (flMetricsCertPath f),
     flagArg ''metrics-cert-name'' (flMetricsCertName f),
     flagArg ''metrics-cert-key'' (flMetricsCertKey f),
     flagArg ''metrics-secure'' (printBool (flSecureMetrics f)),
     flagArg ''enable-http2'' (printBool (flEnableHTTP2 f)),
     flagArg ''allowed-registries'' (flAllowedRegistries f)]"

lemma flagVars_lookup:
  "map_of flagVars ''architecture'' = Some (StringVar (\<lambda>v f. f\<lparr>flArchitecture := v\<rparr>))"
  "map_of flagVars ''ipxe-service-port'' = Some (IntVar (\<lambda>v f. f\<lparr>flIPXEServicePort := v\<rparr>))"
  "map_of flagVars ''ipxe-service-protocol'' = Some (StringVar (\<lambda>v f. f\<lparr>flIPXEServiceProtocol := v\<rparr>))"
  "map_of flagVars ''ipxe-service-url'' = Some (StringVar (\<lambda>v f. f\<lparr>flIPXEServiceURL := v\<rparr>))"
  "map_of flagVars ''image-server-url'' = Some (StringVar (\<lambda>v f. f\<lparr>flImageServerURL := v\<rparr>))"
  "map_of flagVars ''default-httpboot-oci-image'' = Some (StringVar (\<lambda>v f. f\<lparr>flDefaultHTTPBootOCIImage := v\<rparr>))"
  "map_of flagVars ''default-httpboot-uki-url'' = Some (StringVar (\<lambda>v f. f\<lparr>flDefaultHTTPBootUKIURL := v\<rparr>))"
  "map_of flagVars ''metrics-bind-address'' = Some (StringVar (\<lambda>v f. f\<lparr>flMetricsAddr := v\<rparr>))"
  "map_of flagVars ''health-probe-bind-address'' = Some (StringVar (\<lambda>v f. f\<lparr>flProbeAddr := v\<rparr>))"
  "map_of flagVars ''boot-server-address'' = Some (StringVar (\<lambda>v f. f\<lparr>flBootserverAddr := v\<rparr>))"
  "map_of flagVars ''image-proxy-server-address'' = Some (StringVar (\<lambda>v f. f\<lparr>flImageProxyServerAddr := v\<rparr>))"
  "map_of flagVars ''leader-elect'' = Some (BoolVar (\<lambda>v f. f\<lparr>flEnableLeaderElection := v\<rparr>))"
  "map_of flagVars ''metrics-cert-path'' = Some (StringVar (\<lambda>v f. f\<lparr>flMetricsCertPath := v\<rparr>))"
  "map_of flagVars ''metrics-cert-name'' = Some (StringVar (\<lambda>v f. f\<lparr>flMetricsCertName := v\<rparr>))"
  "map_of flagVars ''metrics-cert-key'' = Some (StringVar (\<lambda>v f. f\<lparr>flMetricsCertKey := v\<rparr>))"
  "map_of flagVars ''metrics-secure'' = Some (BoolVar (\<lambda>v f. f\<lparr>flSecureMetrics := v\<rparr>))"
  "map_of flagVars ''enable-http2'' = Some (BoolVar (\<lambda>v f. f\<lparr>flEnableHTTP2 := v\<rparr>))"
  "map_of flagVars ''allowed-registries'' = Some (StringVar (\<lambda>v f. f\<lparr>flAllowedRegistries := v\<rparr>))"
  by (simp_all add: flagVars_def)

lemma readArg_flagArg:
  assumes "flagName name"
  shows "readArg (flagArg name value) = FlagArg name (Some value)"
proof -
  obtain c cs where name: "name = c # cs" using assms by (cases name) (auto simp: flagName_def)
  have "cut (name @ CHR ''='' # value) (CHR ''='') = (name, value, True)"
    using assms by (simp add: flagName_def)
  moreover have "c \<noteq> CHR ''-''" "c \<noteq> CHR ''=''" using assms by (auto simp: flagName_def name)
  ultimately show ?thesis by (simp add: readArg_def flagArg_def hasPrefix_def name)
qed

lemma parse_var:
  assumes "flagName name" "map_of flagVars name \<noteq> None"
  shows "parseArgs F (flagArg name value # args) (f, other) =
    (case setVar (the (map_of flagVars name)) value f of
       Some f' \<Rightarrow> parseArgs F args (f', other) | None \<Rightarrow> Inl (InvalidFlagValue name value))"
proof -
  obtain var where var: "map_of flagVars name = Some var" using assms(2) by auto
  then obtain b where "isBoolFlag F name = Some b" by (cases var) (auto simp: isBoolFlag_def)
  with var show ?thesis
    by (cases b; cases "setVar var value f") (simp_all add: readArg_flagArg [OF assms(1)] setFlag_def)
qed

lemma parse_flagArgs:
  assumes "- (2 ^ 63) \<le> flIPXEServicePort f" "flIPXEServicePort f < 2 ^ 63"
  shows "parseArgs F (flagArgs f) (g, other) = Inr ((f, other), [])"
  using parseInt_itoaInt [OF assms]
  by (simp add: flagArgs_def parse_var flagName_def flagVars_lookup del: parseArgs.simps(2))

text \<open>The first argument that is not a flag ends the flags; it and all others are left.\<close>

lemma parse_positional:
  assumes "parseArgs F args st = Inr (st', [])" "length x < 2 \<or> hd x \<noteq> CHR ''-''"
  shows "\<exists>rest'. parseArgs F (args @ x # rest) st = Inr (st', rest')"
  using assms(1)
proof (induction "length args" arbitrary: args st rule: less_induct)
  case less
  have x: "readArg x = Positional" using assms(2) by (simp add: readArg_def)
  show ?case
  proof (cases args)
    case Nil
    with less.prems x show ?thesis by simp
  next
    case (Cons s more)
    have IH: "\<exists>rest'. parseArgs F (ys @ x # rest) st'' = Inr (st', rest')"
      if "length ys \<le> length more" "parseArgs F ys st'' = Inr (st', [])" for ys st''
      by (rule less.hyps [OF _ that(2)]) (use that(1) Cons in simp)
    show ?thesis
    proof (cases "readArg s")
      case (FlagArg name given)
      then obtain b where b: "isBoolFlag F name = Some b"
        using less.prems Cons by (cases "isBoolFlag F name") simp_all
      show ?thesis
      proof (cases "given = None \<and> \<not> b")
        case True
        then obtain v ys where "more = v # ys" using less.prems Cons FlagArg b by (cases more) simp_all
        with True less.prems Cons FlagArg b IH [of ys] show ?thesis by (auto split: option.splits)
      next
        case False
        with less.prems Cons FlagArg b IH [of more] show ?thesis
          by (cases given; cases b) (auto split: option.splits)
      qed
    qed (use less.prems Cons in simp_all)
  qed
qed

text \<open>Complete arguments in front of others are parsed first.\<close>

lemma parse_append:
  assumes "parseArgs F args st = Inr (st', [])" "''--'' \<notin> set args"
  shows "parseArgs F (args @ post) st = parseArgs F post st'"
  using assms
proof (induction "length args" arbitrary: args st rule: less_induct)
  case less
  show ?case
  proof (cases args)
    case Nil
    with less.prems show ?thesis by simp
  next
    case (Cons s rest)
    have IH: "parseArgs F (ys @ post) st'' = parseArgs F post st'"
      if "length ys \<le> length rest" "parseArgs F ys st'' = Inr (st', [])" "''--'' \<notin> set ys" for ys st''
      by (rule less.hyps [OF _ that(2,3)]) (use that(1) Cons in simp)
    have s: "readArg s \<noteq> FlagsEnd"
      using less.prems(2) Cons by (auto simp: readArg_def Let_def split: prod.split)
    show ?thesis
    proof (cases "readArg s")
      case (FlagArg name given)
      then obtain b where b: "isBoolFlag F name = Some b"
        using less.prems Cons by (cases "isBoolFlag F name") simp_all
      show ?thesis
      proof (cases "given = None \<and> \<not> b")
        case True
        then obtain v ys where "rest = v # ys" using less.prems Cons FlagArg b by (cases rest) simp_all
        with True less.prems Cons FlagArg b IH [of ys] show ?thesis by (auto split: option.splits)
      next
        case False
        with less.prems Cons FlagArg b IH [of rest] show ?thesis
          by (cases given; cases b) (auto split: option.splits)
      qed
    qed (use less.prems Cons s in simp_all)
  qed
qed

text \<open>
  A value of a boolean flag must be attached to it with an equals sign; given as an argument of
  its own it is positional. So \<open>--metrics-secure false\<close> turns the flag on, and every flag after it
  is ignored without an error, since \<open>main\<close> does not look at the arguments that are left.
\<close>

definition boolSettings :: "(string \<times> (bool \<Rightarrow> flags \<Rightarrow> flags)) list" where
  "boolSettings =
    [(''leader-elect'', \<lambda>v f. f\<lparr>flEnableLeaderElection := v\<rparr>),
     (''metrics-secure'', \<lambda>v f. f\<lparr>flSecureMetrics := v\<rparr>),
     (''enable-http2'', \<lambda>v f. f\<lparr>flEnableHTTP2 := v\<rparr>)]"

lemma boolSettings_var:
  "(name, put) \<in> set boolSettings \<Longrightarrow> map_of flagVars name = Some (BoolVar put)"
  by (auto simp: boolSettings_def flagVars_lookup)

lemma boolSettings_arg: "(name, put) \<in> set boolSettings \<Longrightarrow> readArg (''--'' @ name) = FlagArg name None"
  by (auto simp: boolSettings_def readArg_def hasPrefix_def)

lemma parse_bool:
  assumes "(name, put) \<in> set boolSettings"
  shows "parseArgs F ((''--'' @ name) # args) (f, other) = parseArgs F args (put True f, other)"
proof -
  have "parseBool ''true'' = Some True" by (simp add: parseBool_def)
  then show ?thesis
    using boolSettings_arg [OF assms] boolSettings_var [OF assms]
    by (simp add: isBoolFlag_def setFlag_def)
qed

lemma bool_value_ignored:
  assumes "(name, put) \<in> set boolSettings" "parseArgs F args st = Inr ((f, other), [])"
    and "''--'' \<notin> set args" "length x < 2 \<or> hd x \<noteq> CHR ''-''"
  shows "\<exists>rest'. parseArgs F (args @ (''--'' @ name) # x # rest) st = Inr ((put True f, other), rest')"
proof -
  have "parseArgs F (args @ [''--'' @ name]) st = Inr ((put True f, other), [])"
    using parse_append [OF assms(2,3)] parse_bool [OF assms(1), of F "[]"] by simp
  from parse_positional [OF this assms(4)] show ?thesis by simp
qed

section \<open>Properties\<close>

text \<open>C32: Every setting of the operator has a flag of its own: for any values of the settings, the port a
  64-bit integer, there is a command line, \<open>flagArgs\<close>, with which the operator runs with exactly
  these values, whatever the defaults, and which leaves the flags of other packages alone. But a
  value \<open>x\<close> that is given to one of the three boolean settings as an argument of its own, after any
  arguments that parse and without \<open>--\<close>, turns that setting on whatever \<open>x\<close> is, unless it looks
  like a flag, and ends the flags without an error: every argument after it is ignored.\<close>

theorem flags_settable:
  assumes "- (2 ^ 63) \<le> flIPXEServicePort f" "flIPXEServicePort f < 2 ^ 63"
    and "(name, put) \<in> set boolSettings" "parseArgs F args (defaultFlags, other) = Inr ((g, other'), [])"
    and "''--'' \<notin> set args" "length x < 2 \<or> hd x \<noteq> CHR ''-''"
  shows "operatorMain R F enabled addr other (flagArgs f) =
      (case main R (enabled other) addr f of (steps, res) \<Rightarrow> Ran steps res)
    \<and> operatorMain R F enabled addr other (args @ (''--'' @ name) # x # rest) =
      (case main R (enabled other') addr (put True g) of (steps, res) \<Rightarrow> Ran steps res)"
proof
  show "operatorMain R F enabled addr other (flagArgs f) =
      (case main R (enabled other) addr f of (steps, res) \<Rightarrow> Ran steps res)"
    by (simp add: operatorMain_def parse_flagArgs [OF assms(1,2)])
  obtain rest' where "parseArgs F (args @ (''--'' @ name) # x # rest) (defaultFlags, other) =
      Inr ((put True g, other'), rest')"
    using bool_value_ignored [OF assms(3-6)] by blast
  then show "operatorMain R F enabled addr other (args @ (''--'' @ name) # x # rest) =
      (case main R (enabled other') addr (put True g) of (steps, res) \<Rightarrow> Ran steps res)"
    by (simp add: operatorMain_def)
qed

text \<open>No flags of other packages.\<close>

definition noOtherFlags :: "unit other_flags" where
  "noOtherFlags = \<lparr>of_isBool = \<lambda>_. None, of_set = \<lambda>_ _ _. None\<rparr>"

lemma flags_settable_witness:
  "operatorMain quietFate noOtherFlags (\<lambda>_ _. False) [] () (flagArgs (defaultFlags\<lparr>flArchitecture := ''arm64''\<rparr>)) =
    (case main quietFate (\<lambda>_. False) [] (defaultFlags\<lparr>flArchitecture := ''arm64''\<rparr>) of
       (steps, res) \<Rightarrow> Ran steps res) \<and>
   operatorMain quietFate noOtherFlags (\<lambda>_ _. False) [] ()
      [''--metrics-secure=false'', ''--leader-elect'', ''false'', ''--architecture=arm64''] =
    (case main quietFate (\<lambda>_. False) [] (defaultFlags\<lparr>flSecureMetrics := False, flEnableLeaderElection := True\<rparr>) of
       (steps, res) \<Rightarrow> Ran steps res)"
proof -
  let ?f = "defaultFlags\<lparr>flArchitecture := ''arm64''\<rparr>"
  let ?put = "\<lambda>v f. f\<lparr>flEnableLeaderElection := v\<rparr> :: flags"
  have bounds: "- (2 ^ 63) \<le> flIPXEServicePort ?f" "flIPXEServicePort ?f < 2 ^ 63"
    by (simp_all add: defaultFlags_def)
  have put: "(''leader-elect'', ?put) \<in> set boolSettings"
    by (simp add: boolSettings_def)
  have arg: "''--metrics-secure=false'' = flagArg ''metrics-secure'' (printBool False)"
    by (simp add: flagArg_def printBool_def)
  have parsed: "parseArgs noOtherFlags [''--metrics-secure=false''] (defaultFlags, ()) =
      Inr ((defaultFlags\<lparr>flSecureMetrics := False\<rparr>, ()), [])"
    unfolding arg by (simp add: parse_var flagName_def flagVars_lookup del: parseArgs.simps(2))
  have plain: "length ''false'' < 2 \<or> hd ''false'' \<noteq> CHR ''-''" by simp
  have sep: "''--'' \<notin> set [''--metrics-secure=false'']" by simp
  from flags_settable [OF bounds put parsed sep plain, where R = quietFate and enabled = "\<lambda>_ _. False"
      and addr = "[]" and rest = "[''--architecture=arm64'']"]
  show ?thesis by simp
qed

end
