(* ===== verification/Scheme.thy ===== *)
theory Scheme
  imports Watches Bootctl
begin

text \<open>
  The registration of Go types with the schemes of the operator and of \<open>bootctl\<close>: the package
  variables and \<open>init\<close> functions of \<^verbatim>\<open>api/v1alpha1\<close>, and the \<open>init\<close> functions of
  \<^verbatim>\<open>cmd/main.go\<close> and \<^verbatim>\<open>cmd/bootctl/app/app.go\<close>. The schemes and scheme builders of
  \<^verbatim>\<open>apimachinery\<close> and the registration functions of other packages are parameters.
\<close>

section \<open>The code\<close>

text \<open>A Go type is named by its package and its name in it; \<open>Inl\<close> is an error.\<close>

type_synonym go_type = "string \<times> string"
type_synonym group_version = "string \<times> string"
type_synonym 'sch registration = "'sch \<Rightarrow> string + 'sch"

record ('sch, 'b) scheme_lib =
  sl_newScheme :: 'sch
  sl_knows :: "'sch \<Rightarrow> go_type \<Rightarrow> gvk \<Rightarrow> bool"
  sl_addToGroupVersion :: "group_version \<Rightarrow> 'sch \<Rightarrow> 'sch"
  sl_addKnownTypes :: "group_version \<Rightarrow> go_type list \<Rightarrow> 'sch \<Rightarrow> 'sch"
  sl_newBuilder :: "'sch registration list \<Rightarrow> 'b"
  sl_register :: "'b \<Rightarrow> 'sch registration list \<Rightarrow> 'b"
  sl_addToScheme :: "'b \<Rightarrow> 'sch registration"
  sl_clientGo :: "'sch registration"
  sl_metal :: "'sch registration"
  sl_machine :: "'sch registration"

definition bootType :: "string \<Rightarrow> go_type" where
  "bootType name = (''github.com/ironcore-dev/boot-operator/api/v1alpha1'', name)"

definition GroupVersion :: group_version where
  "GroupVersion = (''boot.ironcore.dev'', ''v1alpha1'')"

text \<open>
  The variable \<open>SchemeBuilder\<close> of the package. Its other variable, \<open>AddToScheme\<close>, is a method
  value with a pointer receiver: it holds the address of \<open>SchemeBuilder\<close>, so a call uses what
  that variable then holds, and not what it held when \<open>AddToScheme\<close> was initialised.
\<close>

record 'b api_package =
  pkSchemeBuilder :: 'b

definition packageVariables :: "('sch, 'b) scheme_lib \<Rightarrow> 'b api_package" where
  "packageVariables SL =
     \<lparr>pkSchemeBuilder = sl_newBuilder SL [\<lambda>s. Inr (sl_addToGroupVersion SL GroupVersion s)]\<rparr>"

definition AddToScheme :: "('sch, 'b) scheme_lib \<Rightarrow> 'b api_package \<Rightarrow> 'sch registration" where
  "AddToScheme SL pkg = sl_addToScheme SL (pkSchemeBuilder pkg)"

definition registerHTTPBootConfig :: "('sch, 'b) scheme_lib \<Rightarrow> 'b api_package \<Rightarrow> 'b api_package" where
  "registerHTTPBootConfig SL pkg = pkg\<lparr>pkSchemeBuilder := sl_register SL (pkSchemeBuilder pkg)
     [\<lambda>s. Inr (sl_addKnownTypes SL GroupVersion [bootType ''HTTPBootConfig'', bootType ''HTTPBootConfigList''] s)]\<rparr>"

definition registerIPXEBootConfig :: "('sch, 'b) scheme_lib \<Rightarrow> 'b api_package \<Rightarrow> 'b api_package" where
  "registerIPXEBootConfig SL pkg = pkg\<lparr>pkSchemeBuilder := sl_register SL (pkSchemeBuilder pkg)
     [\<lambda>s. Inr (sl_addKnownTypes SL GroupVersion [bootType ''IPXEBootConfig'', bootType ''IPXEBootConfigList''] s)]\<rparr>"

text \<open>The initialised package: its variables, then its \<open>init\<close> functions in the order of the files.\<close>

definition apiPackage :: "('sch, 'b) scheme_lib \<Rightarrow> 'b api_package" where
  "apiPackage SL = registerIPXEBootConfig SL (registerHTTPBootConfig SL (packageVariables SL))"

text \<open>One registration after the other, as far as the first error, at which \<open>Must\<close> panics.\<close>

primrec registerAll :: "'sch registration list \<Rightarrow> 'sch registration" where
  "registerAll [] s = Inr s"
| "registerAll (f # fs) s = (case f s of Inl err \<Rightarrow> Inl err | Inr s' \<Rightarrow> registerAll fs s')"

definition operatorScheme :: "('sch, 'b) scheme_lib \<Rightarrow> string + 'sch" where
  "operatorScheme SL =
     registerAll [sl_clientGo SL, sl_metal SL, sl_machine SL, AddToScheme SL (apiPackage SL)] (sl_newScheme SL)"

definition bootctlScheme :: "('sch, 'b) scheme_lib \<Rightarrow> string + 'sch" where
  "bootctlScheme SL =
     registerAll [sl_clientGo SL, AddToScheme SL (apiPackage SL), sl_metal SL] (sl_newScheme SL)"

section \<open>The documented behaviour of schemes\<close>

definition kindOf :: "group_version \<Rightarrow> go_type \<Rightarrow> gvk" where
  "kindOf gv t = \<lparr>gvkGroup = fst gv, gvkVersion = snd gv, gvkKind = snd t\<rparr>"

definition coreType :: "string \<Rightarrow> go_type" where
  "coreType name = (''k8s.io/api/core/v1'', name)"

definition metalType :: "string \<Rightarrow> go_type" where
  "metalType name = (''github.com/ironcore-dev/metal-operator/api/v1alpha1'', name)"

definition metalGroupVersion :: group_version where
  "metalGroupVersion = (''metal.ironcore.dev'', ''v1alpha1'')"

text \<open>A registration that forgets nothing, and one that also adds the types of a package.\<close>

definition extends :: "('sch, 'b) scheme_lib \<Rightarrow> 'sch registration \<Rightarrow> bool" where
  "extends SL f \<longleftrightarrow> (\<forall>s s' t g. f s = Inr s' \<longrightarrow> sl_knows SL s t g \<longrightarrow> sl_knows SL s' t g)"

definition adds :: "('sch, 'b) scheme_lib \<Rightarrow> 'sch registration \<Rightarrow> group_version \<Rightarrow> go_type set \<Rightarrow> bool" where
  "adds SL f gv ts \<longleftrightarrow> extends SL f \<and> (\<forall>s s' t. f s = Inr s' \<longrightarrow> t \<in> ts \<longrightarrow> sl_knows SL s' t (kindOf gv t))"

definition schemeLaws :: "('sch, 'b) scheme_lib \<Rightarrow> bool" where
  "schemeLaws SL \<longleftrightarrow>
     (\<forall>fs. sl_addToScheme SL (sl_newBuilder SL fs) = registerAll fs) \<and>
     (\<forall>b fs s. sl_addToScheme SL (sl_register SL b fs) s =
        (case sl_addToScheme SL b s of Inl err \<Rightarrow> Inl err | Inr s' \<Rightarrow> registerAll fs s')) \<and>
     (\<forall>gv. extends SL (\<lambda>s. Inr (sl_addToGroupVersion SL gv s))) \<and>
     (\<forall>gv ts. adds SL (\<lambda>s. Inr (sl_addKnownTypes SL gv ts s)) gv (set ts)) \<and>
     adds SL (sl_clientGo SL) ([], ''v1'') (coreType ` {''Secret'', ''SecretList''}) \<and>
     adds SL (sl_metal SL) metalGroupVersion
       (metalType ` {''Server'', ''ServerBootConfiguration'', ''ServerBootConfigurationList''}) \<and>
     extends SL (sl_machine SL)"

text \<open>The types of the package, with the kinds that the reconcilers write into the objects they apply.\<close>

definition knowsBoot :: "('sch, 'b) scheme_lib \<Rightarrow> 'sch \<Rightarrow> bool" where
  "knowsBoot SL s \<longleftrightarrow>
     list_all (\<lambda>name. sl_knows SL s (bootType name) (bootGVK name))
       [''HTTPBootConfig'', ''HTTPBootConfigList'', ''IPXEBootConfig'', ''IPXEBootConfigList'']"

text \<open>The types of other packages that the operator and \<open>bootctl\<close> read and write.\<close>

definition knowsOthers :: "('sch, 'b) scheme_lib \<Rightarrow> 'sch \<Rightarrow> bool" where
  "knowsOthers SL s \<longleftrightarrow>
     sl_knows SL s (coreType ''Secret'') (kindOf ([], ''v1'') (coreType ''Secret'')) \<and>
     list_all (\<lambda>name. sl_knows SL s (metalType name) (kindOf metalGroupVersion (metalType name)))
       [''Server'', ''ServerBootConfiguration'', ''ServerBootConfigurationList'']"

fun goTypeOf :: "object_kind \<Rightarrow> go_type" where
  "goTypeOf KindServerBootConfiguration = metalType ''ServerBootConfiguration''"
| "goTypeOf KindHTTPBootConfig = bootType ''HTTPBootConfig''"
| "goTypeOf KindIPXEBootConfig = bootType ''IPXEBootConfig''"

section \<open>Registrations\<close>

lemma registerAll_append:
  "registerAll (fs @ gs) s = (case registerAll fs s of Inl err \<Rightarrow> Inl err | Inr s' \<Rightarrow> registerAll gs s')"
  by (induction fs arbitrary: s) (auto split: sum.split)

lemma registerAll_extends:
  assumes "list_all (extends SL) fs"
  shows "extends SL (registerAll fs)"
  using assms
proof (induction fs)
  case (Cons f fs)
  then show ?case unfolding extends_def by (auto split: sum.splits)
qed (simp add: extends_def)

text \<open>What one of the registrations adds is there in the end.\<close>

lemma registerAll_adds:
  assumes "list_all (extends SL) fs" "f \<in> set fs" "adds SL f gv ts" "registerAll fs s = Inr s'" "t \<in> ts"
  shows "sl_knows SL s' t (kindOf gv t)"
proof -
  obtain as bs where fs: "fs = as @ f # bs" using split_list [OF assms(2)] by blast
  then obtain a b where "f a = Inr b" "registerAll bs b = Inr s'"
    using assms(4) by (auto simp: registerAll_append split: sum.splits)
  moreover have "extends SL (registerAll bs)"
    by (rule registerAll_extends) (use assms(1) fs in simp)
  ultimately show ?thesis using assms(3,5) unfolding adds_def extends_def by blast
qed

lemma adds_extends: "adds SL f gv ts \<Longrightarrow> extends SL f"
  by (simp add: adds_def)

text \<open>The initialised package registers its own types.\<close>

lemma AddToScheme_registers:
  assumes "schemeLaws SL"
  shows "AddToScheme SL (apiPackage SL) = registerAll
    [\<lambda>s. Inr (sl_addToGroupVersion SL GroupVersion s),
     \<lambda>s. Inr (sl_addKnownTypes SL GroupVersion [bootType ''HTTPBootConfig'', bootType ''HTTPBootConfigList''] s),
     \<lambda>s. Inr (sl_addKnownTypes SL GroupVersion [bootType ''IPXEBootConfig'', bootType ''IPXEBootConfigList''] s)]"
  using assms
  by (simp add: fun_eq_iff AddToScheme_def apiPackage_def registerIPXEBootConfig_def registerHTTPBootConfig_def
      packageVariables_def schemeLaws_def)

lemma AddToScheme_total: "schemeLaws SL \<Longrightarrow> \<exists>s'. AddToScheme SL (apiPackage SL) s = Inr s'"
  by (simp add: AddToScheme_registers)

lemma AddToScheme_adds:
  assumes "schemeLaws SL"
  shows "adds SL (AddToScheme SL (apiPackage SL)) GroupVersion
    (bootType ` {''HTTPBootConfig'', ''HTTPBootConfigList'', ''IPXEBootConfig'', ''IPXEBootConfigList''})"
proof -
  let ?gv = "\<lambda>s. Inr (sl_addToGroupVersion SL GroupVersion s) :: string + _"
  let ?http = "\<lambda>s. Inr (sl_addKnownTypes SL GroupVersion [bootType ''HTTPBootConfig'', bootType ''HTTPBootConfigList''] s)
    :: string + _"
  let ?ipxe = "\<lambda>s. Inr (sl_addKnownTypes SL GroupVersion [bootType ''IPXEBootConfig'', bootType ''IPXEBootConfigList''] s)
    :: string + _"
  have known: "adds SL (\<lambda>s. Inr (sl_addKnownTypes SL gv ts s)) gv (set ts)"
    and gv: "extends SL (\<lambda>s. Inr (sl_addToGroupVersion SL gv s))" for gv ts
    using assms unfolding schemeLaws_def by blast+
  have ext: "list_all (extends SL) [?gv, ?http, ?ipxe]"
    using gv known [THEN adds_extends] by simp
  have "sl_knows SL s' t (kindOf GroupVersion t)"
    if "registerAll [?gv, ?http, ?ipxe] s = Inr s'"
      "t \<in> bootType ` {''HTTPBootConfig'', ''HTTPBootConfigList'', ''IPXEBootConfig'', ''IPXEBootConfigList''}" for s s' t
  proof -
    let ?names = "\<lambda>kind. [bootType kind, bootType (kind @ ''List'')]"
    from that(2) consider "t \<in> set (?names ''HTTPBootConfig'')" | "t \<in> set (?names ''IPXEBootConfig'')" by auto
    then show ?thesis
    proof cases
      case 1
      show ?thesis
        by (rule registerAll_adds [OF ext _ known [of GroupVersion "?names ''HTTPBootConfig''"] that(1) 1]) simp
    next
      case 2
      show ?thesis
        by (rule registerAll_adds [OF ext _ known [of GroupVersion "?names ''IPXEBootConfig''"] that(1) 2]) simp
    qed
  qed
  with registerAll_extends [OF ext] show ?thesis
    unfolding AddToScheme_registers [OF assms] adds_def by blast
qed

lemma registered_all:
  assumes "schemeLaws SL" "set fs = {sl_clientGo SL, sl_metal SL, AddToScheme SL (apiPackage SL)} \<union> gs"
    and "gs \<subseteq> {sl_machine SL}" "registerAll fs s = Inr s'"
  shows "knowsBoot SL s'" "knowsOthers SL s'"
proof -
  have core: "adds SL (sl_clientGo SL) ([], ''v1'') (coreType ` {''Secret'', ''SecretList''})"
    and metal: "adds SL (sl_metal SL) metalGroupVersion
       (metalType ` {''Server'', ''ServerBootConfiguration'', ''ServerBootConfigurationList''})"
    and machine: "extends SL (sl_machine SL)"
    using assms(1) unfolding schemeLaws_def by blast+
  note boot = AddToScheme_adds [OF assms(1)]
  have ext: "list_all (extends SL) fs"
    using assms(2,3) machine core [THEN adds_extends] metal [THEN adds_extends] boot [THEN adds_extends]
    by (auto simp: list_all_iff)
  note added = registerAll_adds [OF ext _ _ assms(4)]
  have "sl_knows SL s' (bootType name) (bootGVK name)"
    if "name \<in> {''HTTPBootConfig'', ''HTTPBootConfigList'', ''IPXEBootConfig'', ''IPXEBootConfigList''}" for name
  proof -
    have "sl_knows SL s' (bootType name) (kindOf GroupVersion (bootType name))"
      by (rule added [OF _ boot]) (use assms(2) that in auto)
    then show ?thesis by (simp add: bootGVK_def kindOf_def GroupVersion_def bootType_def)
  qed
  then show "knowsBoot SL s'" by (simp add: knowsBoot_def)
  have "sl_knows SL s' (metalType name) (kindOf metalGroupVersion (metalType name))"
    if "name \<in> {''Server'', ''ServerBootConfiguration'', ''ServerBootConfigurationList''}" for name
    by (rule added [OF _ metal]) (use assms(2) that in auto)
  moreover have "sl_knows SL s' (coreType ''Secret'') (kindOf ([], ''v1'') (coreType ''Secret''))"
    by (rule added [OF _ core]) (use assms(2) in auto)
  ultimately show "knowsOthers SL s'" by (simp add: knowsOthers_def)
qed

lemma registerAll_fails:
  assumes "schemeLaws SL" "registerAll fs s = Inl err"
  shows "\<exists>f \<in> set fs - {AddToScheme SL (apiPackage SL)}. \<exists>s'. f s' = Inl err"
proof -
  have "\<exists>f \<in> set fs. \<exists>s'. f s' = Inl err"
    using assms(2) by (induction fs arbitrary: s) (auto split: sum.splits)
  then obtain f s' where f: "f \<in> set fs" "f s' = Inl err" by blast
  have "f \<noteq> AddToScheme SL (apiPackage SL)" using f(2) AddToScheme_total [OF assms(1), of s'] by auto
  with f show ?thesis by blast
qed

lemma knows_watched:
  assumes "knowsBoot SL s" "knowsOthers SL s"
  shows "\<exists>g. sl_knows SL s (goTypeOf kind) g \<and> gvkKind g = kindName kind"
  using assms
  by (cases kind) (force simp: knowsBoot_def knowsOthers_def bootGVK_def kindOf_def metalType_def
      serverBootConfigurationKind_def)+

section \<open>Properties\<close>

text \<open>C31: The operator and \<open>bootctl\<close> start unless the registration of another package's types fails; the
  schemes of both then know the secrets, servers, boot configurations and boot resources that
  they read and write, with the kinds that the reconcilers put into the objects they apply and
  that the watches look for in owner references. That the types of the program's own package are
  registered rests on \<open>AddToScheme\<close> holding the address of \<open>SchemeBuilder\<close>.\<close>

theorem schemes_complete:
  assumes "schemeLaws SL"
  shows "(case operatorScheme SL of
       Inl err \<Rightarrow> \<exists>f \<in> {sl_clientGo SL, sl_metal SL, sl_machine SL}. \<exists>s. f s = Inl err
     | Inr s \<Rightarrow> knowsOthers SL s \<and>
         sl_knows SL s (bootType ''HTTPBootConfig'') (httpType (newHTTPBootConfig b uuid ids u)) \<and>
         sl_knows SL s (bootType ''IPXEBootConfig'') (ipxeType (newIPXEBootConfig b uuid ids urls)) \<and>
         (\<forall>kind. \<exists>g. sl_knows SL s (goTypeOf kind) g \<and> gvkKind g = kindName kind) \<and> knowsBoot SL s)
   \<and> (case bootctlScheme SL of
       Inl err \<Rightarrow> \<exists>f \<in> {sl_clientGo SL, sl_metal SL}. \<exists>s. f s = Inl err
     | Inr s \<Rightarrow> knowsOthers SL s \<and> knowsBoot SL s)"
proof
  note all = registered_all [OF assms]
  show "case operatorScheme SL of
       Inl err \<Rightarrow> \<exists>f \<in> {sl_clientGo SL, sl_metal SL, sl_machine SL}. \<exists>s. f s = Inl err
     | Inr s \<Rightarrow> knowsOthers SL s \<and>
         sl_knows SL s (bootType ''HTTPBootConfig'') (httpType (newHTTPBootConfig b uuid ids u)) \<and>
         sl_knows SL s (bootType ''IPXEBootConfig'') (ipxeType (newIPXEBootConfig b uuid ids urls)) \<and>
         (\<forall>kind. \<exists>g. sl_knows SL s (goTypeOf kind) g \<and> gvkKind g = kindName kind) \<and> knowsBoot SL s"
  proof (cases "operatorScheme SL")
    case (Inl err)
    from registerAll_fails [OF assms this [unfolded operatorScheme_def]] show ?thesis unfolding Inl by auto
  next
    case (Inr s)
    note known = all [OF _ _ Inr [unfolded operatorScheme_def], of "{sl_machine SL}"]
    have known: "knowsBoot SL s" "knowsOthers SL s" by (rule known; auto)+
    then show ?thesis
      using knows_watched [OF known] unfolding Inr
      by (cases urls) (simp add: knowsBoot_def newHTTPBootConfig_def newIPXEBootConfig_def bootGVK_def)
  qed
  show "case bootctlScheme SL of
       Inl err \<Rightarrow> \<exists>f \<in> {sl_clientGo SL, sl_metal SL}. \<exists>s. f s = Inl err
     | Inr s \<Rightarrow> knowsOthers SL s \<and> knowsBoot SL s"
  proof (cases "bootctlScheme SL")
    case (Inl err)
    from registerAll_fails [OF assms this [unfolded bootctlScheme_def]] show ?thesis unfolding Inl by auto
  next
    case (Inr s)
    note known = all [OF _ _ Inr [unfolded bootctlScheme_def], of "{}"]
    have "knowsBoot SL s" "knowsOthers SL s" by (rule known; auto)+
    with Inr show ?thesis by simp
  qed
qed

text \<open>Schemes as the relation between types and kinds.\<close>

type_synonym relation_scheme = "go_type \<Rightarrow> gvk \<Rightarrow> bool"

definition addTypes :: "group_version \<Rightarrow> go_type set \<Rightarrow> relation_scheme \<Rightarrow> relation_scheme" where
  "addTypes gv ts s = (\<lambda>t g. s t g \<or> (t \<in> ts \<and> g = kindOf gv t))"

definition sampleSchemes :: "(relation_scheme, relation_scheme registration list) scheme_lib" where
  "sampleSchemes =
    \<lparr>sl_newScheme = \<lambda>_ _. False, sl_knows = \<lambda>s. s, sl_addToGroupVersion = \<lambda>_ s. s,
     sl_addKnownTypes = \<lambda>gv ts. addTypes gv (set ts), sl_newBuilder = \<lambda>fs. fs, sl_register = (@),
     sl_addToScheme = registerAll,
     sl_clientGo = \<lambda>s. Inr (addTypes ([], ''v1'') (coreType ` {''Secret'', ''SecretList''}) s),
     sl_metal = \<lambda>s. Inr (addTypes metalGroupVersion
       (metalType ` {''Server'', ''ServerBootConfiguration'', ''ServerBootConfigurationList''}) s),
     sl_machine = Inr\<rparr>"

lemma sampleSchemes_laws: "schemeLaws sampleSchemes"
proof -
  have knows: "sl_knows sampleSchemes = (\<lambda>s. s)" by (simp add: sampleSchemes_def)
  have "adds sampleSchemes (\<lambda>s. Inr (addTypes gv ts s)) gv ts" for gv ts
    unfolding adds_def extends_def knows sum.inject by (auto simp only: addTypes_def)
  moreover have "extends sampleSchemes Inr" by (simp add: extends_def)
  ultimately show ?thesis
    unfolding schemeLaws_def by (simp add: sampleSchemes_def registerAll_append)
qed

lemma schemes_complete_witness:
  "case operatorScheme sampleSchemes of
     Inl err \<Rightarrow> False
   | Inr s \<Rightarrow> s (bootType ''HTTPBootConfigList'') (bootGVK ''HTTPBootConfigList'')"
proof (cases "operatorScheme sampleSchemes")
  case (Inl err)
  with conjunct1 [OF schemes_complete [OF sampleSchemes_laws]]
  obtain f s where f: "f \<in> {sl_clientGo sampleSchemes, sl_metal sampleSchemes, sl_machine sampleSchemes}" "f s = Inl err"
    by auto
  then have False by (auto simp: sampleSchemes_def)
  then show ?thesis ..
next
  case (Inr s)
  have "sl_knows sampleSchemes = (\<lambda>s. s)" by (simp add: sampleSchemes_def)
  with conjunct1 [OF schemes_complete [OF sampleSchemes_laws]] show ?thesis
    unfolding Inr sum.case by (simp add: knowsBoot_def)
qed

end
