(* ===== verification/Listeners.thy ===== *)
theory Listeners
  imports Servers
begin

text \<open>
  The start of the two servers, \<open>RunBootServer\<close> and \<open>RunImageProxyServer\<close>, as goroutines that
  register their handlers with one multiplexer and then listen, in any interleaving. Neither
  waits for the other, so a server may answer before the other's routes are there.
\<close>

section \<open>The goroutines\<close>

datatype server = BootServer | ImageProxyServer

datatype server_action =
    GoCleanup
  | HandleFunc mux_pattern route
  | ListenAndServe

definition runBootServer :: "server_action list" where
  "runBootServer = map (\<lambda>(p, h). HandleFunc p h) bootServerRoutes @ [ListenAndServe]"

definition runImageProxyServer :: "server_action list" where
  "runImageProxyServer = GoCleanup # map (\<lambda>(p, h). HandleFunc p h) imageProxyRoutes @ [ListenAndServe]"

fun runServer :: "server \<Rightarrow> server_action list" where
  "runServer BootServer = runBootServer"
| "runServer ImageProxyServer = runImageProxyServer"

lemmas runServer_defs = runBootServer_def runImageProxyServer_def

text \<open>
  What ends the process: a pattern that is registered twice makes \<open>HandleFunc\<close> panic, and the
  error with which \<open>ListenAndServe\<close> returns makes the goroutine of the server panic.
\<close>

datatype panic = DuplicatePattern mux_pattern | ListenerFailed server

record servers =
  ssMux :: "(mux_pattern \<times> route) list"
  ssTodo :: "server \<Rightarrow> server_action list"
  ssListening :: "server \<Rightarrow> bool"
  ssCleanup :: bool
  ssPanic :: "panic option"

definition startServers :: servers where
  "startServers = \<lparr>ssMux = [], ssTodo = runServer, ssListening = (\<lambda>_. False), ssCleanup = False, ssPanic = None\<rparr>"

inductive serverStep :: "servers \<Rightarrow> servers \<Rightarrow> bool" where
  cleanup: "ssPanic s = None \<Longrightarrow> ssTodo s x = GoCleanup # rest \<Longrightarrow>
    serverStep s (s\<lparr>ssTodo := (ssTodo s)(x := rest), ssCleanup := True\<rparr>)"
| register: "ssPanic s = None \<Longrightarrow> ssTodo s x = HandleFunc p h # rest \<Longrightarrow> p \<notin> fst ` set (ssMux s) \<Longrightarrow>
    serverStep s (s\<lparr>ssMux := ssMux s @ [(p, h)], ssTodo := (ssTodo s)(x := rest)\<rparr>)"
| duplicate: "ssPanic s = None \<Longrightarrow> ssTodo s x = HandleFunc p h # rest \<Longrightarrow> p \<in> fst ` set (ssMux s) \<Longrightarrow>
    serverStep s (s\<lparr>ssPanic := Some (DuplicatePattern p)\<rparr>)"
| listen: "ssPanic s = None \<Longrightarrow> ssTodo s x = ListenAndServe # rest \<Longrightarrow>
    serverStep s (s\<lparr>ssTodo := (ssTodo s)(x := rest), ssListening := (ssListening s)(x := True)\<rparr>)"
| listen_fails: "ssPanic s = None \<Longrightarrow> ssTodo s x = ListenAndServe # rest \<Longrightarrow>
    serverStep s (s\<lparr>ssPanic := Some (ListenerFailed x)\<rparr>)"
| serve_fails: "ssPanic s = None \<Longrightarrow> ssListening s x \<Longrightarrow>
    serverStep s (s\<lparr>ssListening := (ssListening s)(x := False), ssPanic := Some (ListenerFailed x)\<rparr>)"

abbreviation startsTo :: "servers \<Rightarrow> bool" where
  "startsTo s \<equiv> serverStep\<^sup>*\<^sup>* startServers s"

section \<open>The multiplexer while it fills\<close>

text \<open>A path has at most one pattern, so the order in which patterns are registered is irrelevant.\<close>

lemma patternMatches_unique: "patternMatches p path \<Longrightarrow> patternMatches q path \<Longrightarrow> p = q"
  by (cases p; cases q) (auto simp: prod_eq_iff)

lemma muxFind_iff:
  assumes "single_valued (set routes)"
  shows "muxFind routes path = Some h \<longleftrightarrow> (\<exists>p. (p, h) \<in> set routes \<and> patternMatches p path)"
proof
  assume "muxFind routes path = Some h"
  then show "\<exists>p. (p, h) \<in> set routes \<and> patternMatches p path"
    by (auto simp: muxFind_def dest!: find_SomeD)
next
  assume "\<exists>p. (p, h) \<in> set routes \<and> patternMatches p path"
  then obtain p where p: "(p, h) \<in> set routes" "patternMatches p path" by blast
  then obtain q h' where q: "List.find (\<lambda>r. patternMatches (fst r) path) routes = Some (q, h')"
    by (cases "List.find (\<lambda>r. patternMatches (fst r) path) routes") (auto simp: find_None_iff)
  from find_SomeD [OF q] patternMatches_unique p have "q = p" "(q, h') \<in> set routes" by auto
  with assms p(1) q show "muxFind routes path = Some h" by (auto simp: muxFind_def single_valued_def)
qed

lemma default_single_valued: "single_valued (set defaultServeMux)"
  by (auto simp: single_valued_def route_table)

definition serverRoutes :: "server \<Rightarrow> (mux_pattern \<times> route) list" where
  "serverRoutes x = (case x of BootServer \<Rightarrow> bootServerRoutes | ImageProxyServer \<Rightarrow> imageProxyRoutes)"

lemma UNIV_server: "UNIV = {BootServer, ImageProxyServer}"
  using server.exhaust by auto

lemma serverRoutes_default: "set defaultServeMux = (\<Union>x. set (serverRoutes x))"
  unfolding UNIV_server by (simp add: serverRoutes_def defaultServeMux_def)

lemma serverRoutes_distinct:
  "distinct (map fst (serverRoutes x))"
  "x \<noteq> y \<Longrightarrow> fst ` set (serverRoutes x) \<inter> fst ` set (serverRoutes y) = {}"
  by (cases x; simp add: serverRoutes_def route_table)
    (cases x; cases y; simp add: serverRoutes_def route_table)

lemma serverRoutes_own:
  "(p, h) \<in> set defaultServeMux \<Longrightarrow> h \<in> snd ` set (serverRoutes x) \<Longrightarrow> (p, h) \<in> set (serverRoutes x)"
  by (cases x) (auto simp: serverRoutes_def route_table)

lemma partial_dispatch:
  assumes "set (serverRoutes x) \<subseteq> set routes" "set routes \<subseteq> set defaultServeMux"
    and "h \<in> snd ` set (serverRoutes x)" "muxHandler defaultServeMux meth escaped = Handle h"
  shows "muxHandler routes meth escaped = Handle h"
proof -
  define path where "path = (if meth = ''CONNECT'' then escaped else cleanPath escaped)"
  have found: "muxFind defaultServeMux path = Some h" "path = escaped"
    using assms(4) by (auto simp: muxHandler_def path_def Let_def split: option.splits if_splits)
  obtain p where p: "(p, h) \<in> set defaultServeMux" "patternMatches p path"
    using found(1) muxFind_iff [OF default_single_valued] by auto
  then have "(p, h) \<in> set routes" using serverRoutes_own assms(1,3) by blast
  with p(2) have "muxFind routes path = Some h"
    using muxFind_iff [OF single_valued_subset [OF assms(2) default_single_valued]] by auto
  with found(2) show ?thesis by (simp add: muxHandler_def path_def Let_def)
qed

lemma full_dispatch:
  assumes "set routes = set defaultServeMux"
  shows "muxHandler routes = muxHandler defaultServeMux"
proof -
  have "single_valued (set routes)" using assms default_single_valued by simp
  then have "muxFind routes path = Some h \<longleftrightarrow> muxFind defaultServeMux path = Some h" for path h
    by (simp add: muxFind_iff default_single_valued assms)
  then have "muxFind routes = muxFind defaultServeMux" by (intro ext option.expand) (metis option.exhaust_sel)+
  then show ?thesis by (intro ext) (simp only: muxHandler_def)
qed

section \<open>Invariant\<close>

definition routesIn :: "server_action list \<Rightarrow> (mux_pattern \<times> route) list" where
  "routesIn = concat \<circ> map (\<lambda>a. case a of HandleFunc p h \<Rightarrow> [(p, h)] | _ \<Rightarrow> [])"

lemma routesIn_simps [simp]:
  "routesIn [] = []" "routesIn (GoCleanup # as) = routesIn as" "routesIn (ListenAndServe # as) = routesIn as"
  "routesIn (HandleFunc p h # as) = (p, h) # routesIn as"
  "routesIn (as @ bs) = routesIn as @ routesIn bs" "routesIn (map (\<lambda>(p, h). HandleFunc p h) rs) = rs"
  by (simp_all add: routesIn_def) (induction rs; auto)

lemma routesIn_runServer: "routesIn (runServer x) = serverRoutes x"
  by (cases x) (simp_all add: serverRoutes_def runServer_defs)

lemma runServer_listens:
  assumes "runServer x = past @ ListenAndServe # rest"
  shows "rest = []"
proof -
  have "\<exists>pre. runServer x = pre @ ListenAndServe # [] \<and> ListenAndServe \<notin> set pre"
    by (cases x) (auto simp: runServer_defs intro: exI [of _ "_ # _"])
  then obtain pre where pre: "runServer x = pre @ ListenAndServe # []" "ListenAndServe \<notin> set pre" by blast
  with assms have eq: "past @ ListenAndServe # rest = pre @ ListenAndServe # []" by simp
  then show ?thesis using append_Cons_eq_iff [OF pre(2), of "[]" past rest] by simp
qed

text \<open>Each goroutine has done a part of its script, and what is registered is what they did.\<close>

definition startInv :: "servers \<Rightarrow> bool" where
  "startInv s \<longleftrightarrow> (\<exists>past. (\<forall>x. runServer x = past x @ ssTodo s x) \<and>
     set (ssMux s) = (\<Union>x. set (routesIn (past x))) \<and>
     (\<forall>x. ssListening s x \<longrightarrow> ssTodo s x = []) \<and>
     (\<forall>p. ssPanic s \<noteq> Some (DuplicatePattern p)))"

lemma startInv_start: "startInv startServers"
  by (auto simp: startInv_def startServers_def intro: exI [of _ "\<lambda>_. []"])

text \<open>The invariant after a goroutine has done its next action.\<close>

lemma startInv_next:
  assumes "startInv s" "ssTodo s x = a # rest"
    and "set mux = set (ssMux s) \<union> set (routesIn [a])"
    and "listening x \<Longrightarrow> rest = []" "\<And>y. y \<noteq> x \<Longrightarrow> listening y = ssListening s y"
  shows "startInv (s\<lparr>ssMux := mux, ssTodo := (ssTodo s)(x := rest), ssListening := listening, ssCleanup := c\<rparr>)"
proof -
  obtain past where past: "\<And>x. runServer x = past x @ ssTodo s x" "set (ssMux s) = (\<Union>x. set (routesIn (past x)))"
    "\<And>x. ssListening s x \<Longrightarrow> ssTodo s x = []" "\<And>p. ssPanic s \<noteq> Some (DuplicatePattern p)"
    using assms(1) unfolding startInv_def by blast
  have "set mux = (\<Union>y. set (routesIn ((past(x := past x @ [a])) y)))"
    using assms(3) past(2) by (auto split: if_splits)
  with past assms(2,4,5) show ?thesis
    unfolding startInv_def by (intro exI [of _ "past(x := past x @ [a])"]) auto
qed

lemma no_duplicate:
  assumes "startInv s" "ssTodo s x = HandleFunc p h # rest"
  shows "p \<notin> fst ` set (ssMux s)"
proof
  assume "p \<in> fst ` set (ssMux s)"
  obtain past where past: "\<And>x. runServer x = past x @ ssTodo s x" "set (ssMux s) = (\<Union>x. set (routesIn (past x)))"
    using assms(1) unfolding startInv_def by blast
  then obtain y where y: "p \<in> fst ` set (routesIn (past y))" using \<open>p \<in> fst ` set (ssMux s)\<close> by auto
  have routes: "serverRoutes z = routesIn (past z) @ routesIn (ssTodo s z)" for z
    unfolding routesIn_runServer [symmetric] by (simp add: past(1) [of z])
  show False
  proof (cases "y = x")
    case True
    with y serverRoutes_distinct(1) [of x] show False by (auto simp: routes assms(2))
  next
    case False
    with y serverRoutes_distinct(2) [of y x] show False by (auto simp: routes assms(2))
  qed
qed

lemma startInv_panic:
  "startInv s \<Longrightarrow> (\<And>p. cause \<noteq> DuplicatePattern p) \<Longrightarrow> (\<And>x. listening x \<Longrightarrow> ssListening s x) \<Longrightarrow>
     startInv (s\<lparr>ssListening := listening, ssPanic := Some cause\<rparr>)"
  by (auto simp: startInv_def)

lemma startInv_step: "serverStep s t \<Longrightarrow> startInv s \<Longrightarrow> startInv t"
proof (induction rule: serverStep.induct)
  case (cleanup s x rest)
  have "\<not> ssListening s x" using cleanup by (auto simp: startInv_def)
  with startInv_next [OF cleanup(3,2), of "ssMux s" "ssListening s" True] show ?case by simp
next
  case (register s x p h rest)
  have "\<not> ssListening s x" using register by (auto simp: startInv_def)
  with startInv_next [OF register(4,2), of "ssMux s @ [(p, h)]" "ssListening s" "ssCleanup s"] show ?case by simp
next
  case (duplicate s x p h rest)
  with no_duplicate show ?case by blast
next
  case (listen s x rest)
  then obtain past where "runServer x = past @ ListenAndServe # rest" unfolding startInv_def by metis
  note last = runServer_listens [OF this]
  from startInv_next [OF listen(3,2), of "ssMux s" "(ssListening s)(x := True)" "ssCleanup s"] last show ?case by simp
next
  case (listen_fails s x rest)
  then show ?case using startInv_panic [of s "ListenerFailed x" "ssListening s"] by simp
next
  case (serve_fails s x)
  then show ?case
    using startInv_panic [of s "ListenerFailed x" "(ssListening s)(x := False)"] by (auto split: if_splits)
qed

lemma startInv_reached: "startsTo s \<Longrightarrow> startInv s"
  by (induction rule: rtranclp_induct) (simp_all add: startInv_start startInv_step)

lemma startInv_mux:
  assumes "startInv s"
  shows "set (ssMux s) \<subseteq> set defaultServeMux" "ssTodo s x = [] \<Longrightarrow> set (serverRoutes x) \<subseteq> set (ssMux s)"
proof -
  obtain past where past: "\<And>x. runServer x = past x @ ssTodo s x" "set (ssMux s) = (\<Union>x. set (routesIn (past x)))"
    using assms unfolding startInv_def by blast
  have routes: "serverRoutes z = routesIn (past z) @ routesIn (ssTodo s z)" for z
    unfolding routesIn_runServer [symmetric] by (simp add: past(1) [of z])
  show "set (ssMux s) \<subseteq> set defaultServeMux" by (auto simp: serverRoutes_default routes past(2))
  show "set (serverRoutes x) \<subseteq> set (ssMux s)" if "ssTodo s x = []"
    using that by (auto simp: routes [of x] past(2))
qed

section \<open>Properties\<close>

text \<open>C30: However the two servers start, no pattern is registered twice, so that only a failure of a
  listener ends the process; a server that listens answers the requests for its own routes as it
  does when both servers are up; and then, in whatever order the handlers were registered, every
  request is dispatched by the multiplexer of all five routes.\<close>

theorem servers_start:
  assumes "startsTo s"
  shows "(ssPanic s = None \<or> (\<exists>x. ssPanic s = Some (ListenerFailed x)))
    \<and> (ssListening s x \<and> h \<in> snd ` set (serverRoutes x) \<and> muxHandler defaultServeMux meth escaped = Handle h \<longrightarrow>
        muxHandler (ssMux s) meth escaped = Handle h)
    \<and> ((\<forall>y. ssListening s y) \<longrightarrow> muxHandler (ssMux s) = muxHandler defaultServeMux)"
proof -
  note inv = startInv_reached [OF assms]
  have todo: "ssListening s y \<Longrightarrow> ssTodo s y = []" for y using inv by (auto simp: startInv_def)
  have "ssPanic s = None \<or> (\<exists>x. ssPanic s = Some (ListenerFailed x))"
    using inv by (cases "ssPanic s") (auto simp: startInv_def intro: panic.exhaust)
  moreover have "set (ssMux s) = set defaultServeMux" if "\<forall>y. ssListening s y"
    using startInv_mux [OF inv] todo that by (auto simp: serverRoutes_default)
  ultimately show ?thesis
    using partial_dispatch [OF startInv_mux(2) [OF inv todo] startInv_mux(1) [OF inv]] full_dispatch by blast
qed

text \<open>The boot server listens, and the image proxy has not begun.\<close>

definition bootAlone :: servers where
  "bootAlone = startServers\<lparr>ssMux := bootServerRoutes, ssTodo := runServer(BootServer := []),
     ssListening := (\<lambda>_. False)(BootServer := True)\<rparr>"

lemma starts_bootAlone: "startsTo bootAlone"
proof -
  let ?s = "\<lambda>n. startServers\<lparr>ssMux := take n bootServerRoutes,
    ssTodo := runServer(BootServer := drop n (runServer BootServer))\<rparr>"
  have step: "serverStep (?s n) (?s (Suc n))" if "n < 3" for n
  proof -
    from that have "n = 0 \<or> n = 1 \<or> n = 2" by auto
    then obtain p h where ph: "drop n (runServer BootServer) = HandleFunc p h # drop (Suc n) (runServer BootServer)"
      "take (Suc n) bootServerRoutes = take n bootServerRoutes @ [(p, h)]" "p \<notin> fst ` set (take n bootServerRoutes)"
      by (auto simp: bootServerRoutes_def runServer_defs)
    have "serverStep (?s n) ((?s n)\<lparr>ssMux := ssMux (?s n) @ [(p, h)],
        ssTodo := (ssTodo (?s n))(BootServer := drop (Suc n) (runServer BootServer))\<rparr>)"
      by (rule register) (use ph in \<open>simp_all add: startServers_def\<close>)
    then show ?thesis using ph(2) by simp
  qed
  have "runServer(BootServer := runServer BootServer) = runServer" by (rule fun_upd_triv)
  then have "?s 0 = startServers" by (simp add: startServers_def del: runServer.simps)
  moreover have "serverStep\<^sup>*\<^sup>* (?s 0) (?s 3)"
    using step [of 0] step [of 1] step [of 2] by (simp add: eval_nat_numeral)
  moreover have "serverStep (?s 3) bootAlone"
  proof -
    have "serverStep (?s 3) ((?s 3)\<lparr>ssTodo := (ssTodo (?s 3))(BootServer := []),
        ssListening := (ssListening (?s 3))(BootServer := True)\<rparr>)"
      by (rule listen) (simp_all add: startServers_def bootServerRoutes_def runServer_defs)
    then show ?thesis by (simp add: bootAlone_def startServers_def bootServerRoutes_def)
  qed
  ultimately show ?thesis by (metis rtranclp.rtrancl_into_rtrancl)
qed

lemma servers_start_witness:
  "muxHandler (ssMux bootAlone) ''GET'' ''/ipxe/4c4c4544'' = Handle IPXERoute"
proof -
  have "muxHandler defaultServeMux ''GET'' ''/ipxe/4c4c4544'' = Handle IPXERoute"
    using muxHandler_below [of "''ipxe''" "[''4c4c4544'']" IPXERoute "''GET''"]
      muxFind_subtree [of "''ipxe''" "''4c4c4544''"] by (simp add: plainSegment_def)
  moreover have "ssListening bootAlone BootServer" "IPXERoute \<in> snd ` set (serverRoutes BootServer)"
    by (simp_all add: bootAlone_def serverRoutes_def bootServerRoutes_def)
  ultimately show ?thesis using servers_start [OF starts_bootAlone] by blast
qed

end
