(* ===== verification/Spec2Isabelle.thy ===== *)
theory Spec2Isabelle
  imports ImageProxy ServerBootControllers CacheMachine Servers Startup Rest Bootctl DeepCopy Schema
    Flags Scheme Listeners
begin

text \<open>
  A model of the boot operator and the properties proved of it.

  \<^bold>\<open>The program.\<close> The operator network-boots bare metal servers from OCI images. A
  \<open>ServerBootConfiguration\<close> (an object of the metal operator) names a server, an image and an
  ignition secret. Two reconcilers turn it into an \<open>IPXEBootConfig\<close> or an \<open>HTTPBootConfig\<close> of the
  same name: they read the server's UUID and addresses, resolve the image at its registry if an
  allow list admits it, and write URLs of the image proxy into the new object. The reconcilers of
  these two boot resources check that the ignition secret is usable and set the state \<open>Ready\<close> or
  \<open>Error\<close>, which is copied back. A booting machine then asks the boot server for its iPXE script,
  its UKI or its ignition data, by UUID or by address, and fetches kernel, initramfs, squashfs and
  UKI from the image proxy, which authenticates to the registry and follows its redirects. The
  command \<open>bootctl move\<close> moves boot resources and their secrets to another cluster.

  \<^bold>\<open>Effects.\<close> Everything outside the repository (API servers, registries, the clock, the HTTP
  connection) is the record \<open>env\<close> of theory \<open>World\<close>: each call answers anything and may change an
  opaque state. A program of the model is a state transformer that also appends each call with
  its answer to a trace. A theorem \<open>emits m R\<close> is about every environment and every world: the
  result of \<open>m\<close> and the calls it makes satisfy \<open>R\<close>; so concurrent changes by others, failures and
  any order of answers are covered. \<open>onlyEmits m P\<close> restricts each call. \<open>reaches V m c Q\<close> of theory
  \<open>WorkQueue\<close> is a weakest precondition over an abstract view of an API server that behaves as
  documented (its view keeps no resource versions and managed fields). Pure functions of other
  packages are the record \<open>lib\<close>; what is assumed of them is a hypothesis of the theorem that needs
  it. A \<open>Get\<close> fills an empty object and returns what is stored; only \<^verbatim>\<open>cmdutils/move.go\<close> passes it
  a copy of another object, and what is then left of that object is the function \<open>l_getInto\<close> of
  \<open>lib\<close>. Errors are values of sum or option types, with the message or a datatype that names the
  failed step. The relation \<open>R\<close> of a long handler is an inductive predicate with one rule per branch
  (\<open>selects\<close>, \<open>ignitionServed\<close>, \<open>defaultServed\<close>, \<open>ignitionRouted\<close>, \<open>plans\<close>, \<open>moveRun\<close>), whose premises
  name the answers that lead there; a failure has a rule of its own with its cause, so no branch of
  the code may fail, or succeed, where its rule does not say so.

  \<^bold>\<open>Theories and sources.\<close>
  \<^item> \<open>Prelude\<close>: generic lemmas and the collections of rules.
  \<^item> \<open>GoStrings\<close>, \<open>GoURL\<close>, \<open>GoMux\<close>: what the program uses of the Go packages strings, strconv,
    path, net/url and of the multiplexer of net/http.
  \<^item> \<open>Objects\<close>: the API types of \<^verbatim>\<open>api/v1alpha1\<close> and the used fields of other packages' types.
  \<^item> \<open>World\<close>, \<open>Samples\<close>: effects, and a concrete environment for the instances of theorems.
  \<^item> \<open>Registry\<close>: the allow list, \<^verbatim>\<open>internal/registry/validation.go\<close>.
  \<^item> \<open>Oci\<close>, \<open>Uki\<close>: manifests and UKI layers, \<^verbatim>\<open>internal/oci/manifest.go\<close> and
    \<^verbatim>\<open>internal/uki/oci.go\<close>.
  \<^item> \<open>BootSelect\<close>: the choice among several configurations of a server, \<^verbatim>\<open>server/helper.go\<close>.
  \<^item> \<open>Conditions\<close>, \<open>BootServer\<close>: status conditions and the handlers of \<^verbatim>\<open>server/bootserver.go\<close>, with
    the templates it renders.
  \<^item> \<open>Headers\<close>, \<open>RegistryCache\<close>, \<open>ImageProxy\<close>, \<open>CacheMachine\<close>: headers, the registry cache, the
    proxy, and the cache under concurrency, \<^verbatim>\<open>server/imageproxyserver.go\<close>.
  \<^item> \<open>ControllerHelpers\<close>, \<open>BootControllers\<close>, \<open>ServerBootControllers\<close>: the four reconcilers and their
    helpers, \<^verbatim>\<open>internal/controller\<close>.
  \<^item> \<open>EndToEnd\<close>: the URLs that the reconcilers write, read by the proxy.
  \<^item> \<open>WorkQueue\<close>: the loop over pending requests that controller-runtime runs, for any controllers.
  \<^item> \<open>Convergence\<close>, \<open>Paths\<close>, \<open>Watches\<close>: the reconcilers in a steady cluster, the two boot paths
    seen alike, the watches of the \<open>SetupWithManager\<close> functions, and the closed loop of the four
    controllers.
  \<^item> \<open>Rest\<close>: the closed loop comes to rest.
  \<^item> \<open>Schema\<close>: the CRD schemas of \<^verbatim>\<open>config/crd/bases\<close>, generated from \<^verbatim>\<open>api/v1alpha1\<close>.
  \<^item> \<open>DeepCopy\<close>: \<^verbatim>\<open>api/v1alpha1/zz_generated.deepcopy.go\<close> over an explicit store of objects.
  \<^item> \<open>Servers\<close>, \<open>Listeners\<close>: the routes and dispatch of both servers, and how they start as
    goroutines.
  \<^item> \<open>Startup\<close>, \<open>Flags\<close>, \<open>Scheme\<close>: \<^verbatim>\<open>cmd/main.go\<close>, its command line, and the registration of
    types in \<^verbatim>\<open>api/v1alpha1\<close> and both programs.
  \<^item> \<open>Move\<close>, \<open>Bootctl\<close>: \<^verbatim>\<open>cmdutils/move.go\<close> and \<^verbatim>\<open>cmd/bootctl\<close>.

  Definitions keep the names of the Go functions; a loop that the code has inside a function is a
  function of its own beside it. Locales state the interfaces:
  \<open>object_metadata\<close> and its extension \<open>boot_config_kind\<close> (the part of \<open>client.Object\<close> that generic
  code uses), \<open>registry_policy\<close> (an allow list over normalised names), \<open>condition_upsert\<close> (setting a
  condition by type), \<open>expiring_store\<close> (a cache with a time to live), \<open>status_reconciler\<close> (check,
  then patch the state), \<open>deep_copier\<close> (a copy that shares no memory) and \<open>work_queue\<close> with its
  extensions \<open>progressing_queue\<close>, \<open>settling_queue\<close> and \<open>resting_queue\<close> (controllers that wake each
  other and reach a goal, stay there, or have nothing left to do); each is interpreted on the model's definitions.

  \<^bold>\<open>What the theorems show.\<close>
  \<^item> Every handler and every reconciler: the exact calls and the result on every branch.
  \<^item> The choice of a boot configuration against an abstract preference, with the lookups that find
    the server and the cause of each failure.
  \<^item> The allow list against an abstract policy, and that no registry is contacted for an image or a
    blob it does not admit, whatever the request (\<open>Servers.serve_safe\<close>).
  \<^item> Credentials follow a redirect only to the same host and never from https to http.
  \<^item> The URLs that the reconcilers publish are served: they parse back to the registry, repository
    and layer they stand for, and reach their handlers.
  \<^item> The registry cache serves only what some request read off a successful answer to its probe of
    that repository, under any interleaving of requests and cleanup.
  \<^item> The controllers of the enabled boot paths converge and lose no wake-up on the way, and come
    to rest with an empty work queue, unless only one of the paths can boot the image: then the
    status oscillates for ever.
  \<^item> What is written to the cluster conforms to the CRD schemas, but for images without kernel or
    initramfs.
  \<^item> Deep copies stand for the same object and share no memory with it, so that copies are values
    in the other theories.
  \<^item> A move copies exactly its plan, or deletes what it created and reports each deletion that
    failed; the source is only read.
  \<^item> The servers start only after a complete setup with all four field indexes, with one
    configuration for all parts, every setting of which has a flag; a server that fails ends the
    process; the schemes know every type that is used; and in any
    interleaving of the two goroutines a server that listens has its handlers.

  \<^bold>\<open>Bounds.\<close> All loops of the code are over lists or ranges and are structural recursions; no fuel
  is used. The clean-up ticker and the two listeners run forever and are modelled by one iteration
  each. The runs of \<open>Watches.operator_converges\<close> are two stages for each boot path and the final
  status, each reached within one round of a work queue that has two entries for each path;
  \<open>Rest.operator_rests\<close> adds a round for each path, which copies the last conditions, and a round
  that changes nothing. Go's \<open>int\<close> values of the program (ports, sizes, counts) stay far below
  their width and are \<open>int\<close> or \<open>nat\<close>; durations are nanoseconds as \<open>int\<close>.

  \<^bold>\<open>Not modelled.\<close> Logging; what a listener does; TLS and leader election beyond the options that
  \<^verbatim>\<open>cmd/main.go\<close> passes; the copying of bodies and protocol upgrades by \<open>httputil.ReverseProxy\<close>;
  tests. In the closed loop one controller runs at a time; in the program the controllers have
  queues of their own and their runs may overlap. The multiplexer takes the escaped path of a
  request as an argument beside its decoded path.
\<close>

end
